theory Spec2Isabelle
  imports Complex_Main
begin

section \<open>JavaScript numbers\<close>

text \<open>
  A JavaScript number is a finite value, one of the two infinities, or NaN. The special
  values propagate as IEEE 754 prescribes, so every comparison with NaN is false and
  NaN is falsy; the sign of zero is not modelled (a zero divisor counts as +0).

  Finite arithmetic comes in two forms. The operations \<open>jadd\<close>, \<open>jsub\<close>, \<open>jmul\<close>, \<open>jdiv\<close>
  and \<open>Math_sqrt\<close> are exact over the reals. The operations \<open>double_add\<close>, \<open>double_sub\<close>,
  \<open>double_mul\<close> and \<open>double_sqrt\<close> further below round each exact result to the nearest
  double, ties to even, and overflow to an infinity, as the machine does. The exact form
  is used where rounding moves the program's result in the last places only; the rounded
  form is used for the gesture test of \<open>onResults\<close>, whose outcome at the boundary of the
  test is decided in the last place, and to exhibit overflow.
\<close>

datatype jsnum = Num real | PosInf | NegInf | NaN

definition signed_inf :: "real \<Rightarrow> jsnum" where
  "signed_inf s = (if 0 < s then PosInf else if s < 0 then NegInf else NaN)"

fun jneg :: "jsnum \<Rightarrow> jsnum" where
  "jneg (Num a) = Num (- a)"
| "jneg PosInf = NegInf"
| "jneg NegInf = PosInf"
| "jneg NaN = NaN"

fun jadd :: "jsnum \<Rightarrow> jsnum \<Rightarrow> jsnum" where
  "jadd (Num a) (Num b) = Num (a + b)"
| "jadd NaN _ = NaN"
| "jadd _ NaN = NaN"
| "jadd PosInf NegInf = NaN"
| "jadd NegInf PosInf = NaN"
| "jadd PosInf _ = PosInf"
| "jadd NegInf _ = NegInf"
| "jadd _ PosInf = PosInf"
| "jadd _ NegInf = NegInf"

definition jsub :: "jsnum \<Rightarrow> jsnum \<Rightarrow> jsnum" where
  "jsub a b = jadd a (jneg b)"

fun jmul :: "jsnum \<Rightarrow> jsnum \<Rightarrow> jsnum" where
  "jmul (Num a) (Num b) = Num (a * b)"
| "jmul NaN _ = NaN"
| "jmul _ NaN = NaN"
| "jmul PosInf (Num b) = signed_inf b"
| "jmul NegInf (Num b) = signed_inf (- b)"
| "jmul (Num a) PosInf = signed_inf a"
| "jmul (Num a) NegInf = signed_inf (- a)"
| "jmul PosInf PosInf = PosInf"
| "jmul PosInf NegInf = NegInf"
| "jmul NegInf PosInf = NegInf"
| "jmul NegInf NegInf = PosInf"

fun jdiv :: "jsnum \<Rightarrow> jsnum \<Rightarrow> jsnum" where
  "jdiv (Num a) (Num b) = (if b = 0 then signed_inf a else Num (a / b))"
| "jdiv NaN _ = NaN"
| "jdiv _ NaN = NaN"
| "jdiv (Num a) _ = Num 0"
| "jdiv PosInf (Num b) = (if b < 0 then NegInf else PosInf)"
| "jdiv NegInf (Num b) = (if b < 0 then PosInf else NegInf)"
| "jdiv PosInf PosInf = NaN"
| "jdiv PosInf NegInf = NaN"
| "jdiv NegInf PosInf = NaN"
| "jdiv NegInf NegInf = NaN"

fun jlt :: "jsnum \<Rightarrow> jsnum \<Rightarrow> bool" where
  "jlt (Num a) (Num b) = (a < b)"
| "jlt NaN _ = False"
| "jlt _ NaN = False"
| "jlt PosInf _ = False"
| "jlt _ PosInf = True"
| "jlt _ NegInf = False"
| "jlt NegInf (Num b) = True"

definition jgt :: "jsnum \<Rightarrow> jsnum \<Rightarrow> bool" where
  "jgt a b = jlt b a"

fun jle :: "jsnum \<Rightarrow> jsnum \<Rightarrow> bool" where
  "jle (Num a) (Num b) = (a \<le> b)"
| "jle NaN _ = False"
| "jle _ NaN = False"
| "jle NegInf _ = True"
| "jle _ PosInf = True"
| "jle (Num a) NegInf = False"
| "jle PosInf (Num b) = False"
| "jle PosInf NegInf = False"

definition jge :: "jsnum \<Rightarrow> jsnum \<Rightarrow> bool" where
  "jge a b = jle b a"

text \<open>\<open>a === b\<close> on numbers: NaN is equal to nothing, itself included.\<close>

definition strict_eq :: "jsnum \<Rightarrow> jsnum \<Rightarrow> bool" where
  "strict_eq a b = (a \<noteq> NaN \<and> b \<noteq> NaN \<and> a = b)"

text \<open>\<open>a || b\<close> on numbers: zero and NaN are falsy.\<close>

definition js_or :: "jsnum \<Rightarrow> jsnum \<Rightarrow> jsnum" where
  "js_or a b = (if a = Num 0 \<or> a = NaN then b else a)"

fun Math_sqrt :: "jsnum \<Rightarrow> jsnum" where
  "Math_sqrt (Num a) = (if a < 0 then NaN else Num (sqrt a))"
| "Math_sqrt PosInf = PosInf"
| "Math_sqrt NegInf = NaN"
| "Math_sqrt NaN = NaN"

fun Math_abs :: "jsnum \<Rightarrow> jsnum" where
  "Math_abs (Num a) = Num \<bar>a\<bar>"
| "Math_abs PosInf = PosInf"
| "Math_abs NegInf = PosInf"
| "Math_abs NaN = NaN"

fun Math_sin :: "jsnum \<Rightarrow> jsnum" where
  "Math_sin (Num a) = Num (sin a)"
| "Math_sin _ = NaN"

definition atan2_real :: "real \<Rightarrow> real \<Rightarrow> real" where
  "atan2_real y x =
     (if 0 < x then arctan (y / x)
      else if x < 0 then (if 0 \<le> y then arctan (y / x) + pi else arctan (y / x) - pi)
      else if 0 < y then pi / 2 else if y < 0 then - pi / 2 else 0)"

fun Math_atan2 :: "jsnum \<Rightarrow> jsnum \<Rightarrow> jsnum" where
  "Math_atan2 (Num y) (Num x) = Num (atan2_real y x)"
| "Math_atan2 NaN _ = NaN"
| "Math_atan2 _ NaN = NaN"
| "Math_atan2 (Num y) PosInf = Num 0"
| "Math_atan2 (Num y) NegInf = Num (if 0 \<le> y then pi else - pi)"
| "Math_atan2 PosInf (Num x) = Num (pi / 2)"
| "Math_atan2 NegInf (Num x) = Num (- pi / 2)"
| "Math_atan2 PosInf PosInf = Num (pi / 4)"
| "Math_atan2 PosInf NegInf = Num (3 * pi / 4)"
| "Math_atan2 NegInf PosInf = Num (- pi / 4)"
| "Math_atan2 NegInf NegInf = Num (- 3 * pi / 4)"

text \<open>\<open>Number.EPSILON\<close>\<close>

definition Number_EPSILON :: jsnum where
  "Number_EPSILON = Num (1 / 2 ^ 52)"

fun is_finite :: "jsnum \<Rightarrow> bool" where
  "is_finite (Num a) = True"
| "is_finite _ = False"

subsection \<open>Double precision\<close>

text \<open>
  Rounding to the nearest integer, ties to even; the exponent of the binade of \<open>x\<close>,
  which for a double is at least that of the subnormal numbers; the spacing of the doubles
  there, a unit in the last of 53 places; and the double nearest to a real, which is an
  infinity from \<open>2 ^ 1024\<close> on.
\<close>

definition round_even :: "real \<Rightarrow> int" where
  "round_even r =
     (let f = \<lfloor>r\<rfloor>; d = r - of_int f in
      if d < 1 / 2 then f else if 1 / 2 < d then f + 1 else if even f then f else f + 1)"

definition double_exponent :: "real \<Rightarrow> int" where
  "double_exponent x = (if x = 0 then - 1022 else max \<lfloor>log 2 \<bar>x\<bar>\<rfloor> (- 1022))"

definition double_ulp :: "real \<Rightarrow> real" where
  "double_ulp x = 2 powi (double_exponent x - 52)"

definition double_round :: "real \<Rightarrow> real" where
  "double_round x =
     (if x = 0 then 0 else of_int (round_even (x / double_ulp x)) * double_ulp x)"

definition to_double :: "real \<Rightarrow> jsnum" where
  "to_double x = (if 2 ^ 1024 \<le> \<bar>double_round x\<bar> then signed_inf x else Num (double_round x))"

fun js_round :: "jsnum \<Rightarrow> jsnum" where
  "js_round (Num a) = to_double a"
| "js_round PosInf = PosInf"
| "js_round NegInf = NegInf"
| "js_round NaN = NaN"

text \<open>
  The machine's \<open>a + b\<close>, \<open>a - b\<close>, \<open>a * b\<close> and \<open>Math.sqrt(a)\<close>: the exact result, correctly
  rounded, the special values as in the exact operations. \<open>Math.pow(a, 2)\<close>, the only
  power the program takes, is the rounded product \<open>a * a\<close>, as the engines compute it.
\<close>

definition double_add :: "jsnum \<Rightarrow> jsnum \<Rightarrow> jsnum" where
  "double_add a b = js_round (jadd a b)"

definition double_sub :: "jsnum \<Rightarrow> jsnum \<Rightarrow> jsnum" where
  "double_sub a b = js_round (jsub a b)"

definition double_mul :: "jsnum \<Rightarrow> jsnum \<Rightarrow> jsnum" where
  "double_mul a b = js_round (jmul a b)"

definition double_sqrt :: "jsnum \<Rightarrow> jsnum" where
  "double_sqrt a = js_round (Math_sqrt a)"

definition double_pow2 :: "jsnum \<Rightarrow> jsnum" where
  "double_pow2 a = double_mul a a"

text \<open>\<open>xs[i]\<close> on an array: \<open>undefined\<close> (here \<open>None\<close>) past the end.\<close>

definition js_index :: "'a list \<Rightarrow> nat \<Rightarrow> 'a option" where
  "js_index xs i = (if i < length xs then Some (xs ! i) else None)"

datatype js_error = TypeError

section \<open>The vector and quaternion operations of three.js that the program calls\<close>

text \<open>
  three.js is an external library, not part of the repository: the methods the program
  calls are modelled here from the library's own source. The one constant that differs
  between its releases, the threshold \<open>eps\<close> under which \<open>setFromUnitVectors\<close> takes two
  vectors for opposite, is a parameter (and so a parameter of \<open>onResults\<close>, which calls
  it).
\<close>

record Vector3 =
  vx :: jsnum
  vy :: jsnum
  vz :: jsnum

record Quaternion =
  qx :: jsnum
  qy :: jsnum
  qz :: jsnum
  qw :: jsnum

definition Vector3_length :: "Vector3 \<Rightarrow> jsnum" where
  "Vector3_length v =
     Math_sqrt (jadd (jadd (jmul (vx v) (vx v)) (jmul (vy v) (vy v))) (jmul (vz v) (vz v)))"

definition Vector3_multiplyScalar :: "Vector3 \<Rightarrow> jsnum \<Rightarrow> Vector3" where
  "Vector3_multiplyScalar v s = \<lparr>vx = jmul (vx v) s, vy = jmul (vy v) s, vz = jmul (vz v) s\<rparr>"

definition Vector3_divideScalar :: "Vector3 \<Rightarrow> jsnum \<Rightarrow> Vector3" where
  "Vector3_divideScalar v s = Vector3_multiplyScalar v (jdiv (Num 1) s)"

text \<open>\<open>normalize() { return this.divideScalar(this.length() || 1) }\<close>\<close>

definition Vector3_normalize :: "Vector3 \<Rightarrow> Vector3" where
  "Vector3_normalize v = Vector3_divideScalar v (js_or (Vector3_length v) (Num 1))"

definition Vector3_dot :: "Vector3 \<Rightarrow> Vector3 \<Rightarrow> jsnum" where
  "Vector3_dot a b =
     jadd (jadd (jmul (vx a) (vx b)) (jmul (vy a) (vy b))) (jmul (vz a) (vz b))"

text \<open>\<open>lerp(v, alpha) { this.x += (v.x - this.x) * alpha; ... }\<close>\<close>

definition Vector3_lerp :: "Vector3 \<Rightarrow> Vector3 \<Rightarrow> jsnum \<Rightarrow> Vector3" where
  "Vector3_lerp this v alpha =
     \<lparr>vx = jadd (vx this) (jmul (jsub (vx v) (vx this)) alpha),
      vy = jadd (vy this) (jmul (jsub (vy v) (vy this)) alpha),
      vz = jadd (vz this) (jmul (jsub (vz v) (vz this)) alpha)\<rparr>"

text \<open>The same method as the machine runs it, every operation rounded to double precision.\<close>

definition Vector3_lerp_double :: "Vector3 \<Rightarrow> Vector3 \<Rightarrow> jsnum \<Rightarrow> Vector3" where
  "Vector3_lerp_double this v alpha =
     \<lparr>vx = double_add (vx this) (double_mul (double_sub (vx v) (vx this)) alpha),
      vy = double_add (vy this) (double_mul (double_sub (vy v) (vy this)) alpha),
      vz = double_add (vz this) (double_mul (double_sub (vz v) (vz this)) alpha)\<rparr>"

definition Quaternion_identity :: Quaternion where
  "Quaternion_identity = \<lparr>qx = Num 0, qy = Num 0, qz = Num 0, qw = Num 1\<rparr>"

definition Quaternion_length :: "Quaternion \<Rightarrow> jsnum" where
  "Quaternion_length q =
     Math_sqrt (jadd (jadd (jadd (jmul (qx q) (qx q)) (jmul (qy q) (qy q)))
                           (jmul (qz q) (qz q))) (jmul (qw q) (qw q)))"

definition Quaternion_normalize :: "Quaternion \<Rightarrow> Quaternion" where
  "Quaternion_normalize q =
     (let l = Quaternion_length q in
      if strict_eq l (Num 0) then Quaternion_identity
      else let l' = jdiv (Num 1) l in
        \<lparr>qx = jmul (qx q) l', qy = jmul (qy q) l', qz = jmul (qz q) l', qw = jmul (qw q) l'\<rparr>)"

definition Quaternion_setFromUnitVectors :: "real \<Rightarrow> Vector3 \<Rightarrow> Vector3 \<Rightarrow> Quaternion" where
  "Quaternion_setFromUnitVectors eps vFrom vTo =
     (let r = jadd (Vector3_dot vFrom vTo) (Num 1) in
      Quaternion_normalize
        (if jlt r (Num eps) then
           (if jgt (Math_abs (vx vFrom)) (Math_abs (vz vFrom))
            then \<lparr>qx = jneg (vy vFrom), qy = vx vFrom, qz = Num 0, qw = Num 0\<rparr>
            else \<lparr>qx = Num 0, qy = jneg (vz vFrom), qz = vy vFrom, qw = Num 0\<rparr>)
         else
           \<lparr>qx = jsub (jmul (vy vFrom) (vz vTo)) (jmul (vz vFrom) (vy vTo)),
            qy = jsub (jmul (vz vFrom) (vx vTo)) (jmul (vx vFrom) (vz vTo)),
            qz = jsub (jmul (vx vFrom) (vy vTo)) (jmul (vy vFrom) (vx vTo)),
            qw = r\<rparr>))"

text \<open>
  \<open>slerp(qb, t)\<close>, in the form the library has long had, with the tests
  \<open>cosHalfTheta >= 1.0\<close> and \<open>sqrSinHalfTheta <= Number.EPSILON\<close>: towards \<open>qb\<close>, or
  towards \<open>- qb\<close> when the dot product of the two quaternions is negative; unchanged
  when they coincide, a normalised linear blend when they nearly do, and the great-arc
  blend otherwise.
\<close>

definition Quaternion_dot :: "Quaternion \<Rightarrow> Quaternion \<Rightarrow> jsnum" where
  "Quaternion_dot a b =
     jadd (jadd (jadd (jmul (qw a) (qw b)) (jmul (qx a) (qx b))) (jmul (qy a) (qy b)))
          (jmul (qz a) (qz b))"

definition Quaternion_negate :: "Quaternion \<Rightarrow> Quaternion" where
  "Quaternion_negate q = \<lparr>qx = jneg (qx q), qy = jneg (qy q), qz = jneg (qz q), qw = jneg (qw q)\<rparr>"

definition Quaternion_blend :: "Quaternion \<Rightarrow> jsnum \<Rightarrow> Quaternion \<Rightarrow> jsnum \<Rightarrow> Quaternion" where
  "Quaternion_blend a ra b rb =
     \<lparr>qx = jadd (jmul (qx a) ra) (jmul (qx b) rb),
      qy = jadd (jmul (qy a) ra) (jmul (qy b) rb),
      qz = jadd (jmul (qz a) ra) (jmul (qz b) rb),
      qw = jadd (jmul (qw a) ra) (jmul (qw b) rb)\<rparr>"

definition Quaternion_slerp :: "Quaternion \<Rightarrow> Quaternion \<Rightarrow> jsnum \<Rightarrow> Quaternion" where
  "Quaternion_slerp this qb t =
     (if strict_eq t (Num 0) then this
      else if strict_eq t (Num 1) then qb
      else
        let c = Quaternion_dot this qb;
            b = (if jlt c (Num 0) then Quaternion_negate qb else qb);
            cosHalfTheta = (if jlt c (Num 0) then jneg c else c)
        in
          if jge cosHalfTheta (Num 1) then this
          else
            let sqrSinHalfTheta = jsub (Num 1) (jmul cosHalfTheta cosHalfTheta) in
            if jle sqrSinHalfTheta Number_EPSILON then
              Quaternion_normalize (Quaternion_blend this (jsub (Num 1) t) b t)
            else
              let sinHalfTheta = Math_sqrt sqrSinHalfTheta;
                  halfTheta = Math_atan2 sinHalfTheta cosHalfTheta;
                  ratioA = jdiv (Math_sin (jmul (jsub (Num 1) t) halfTheta)) sinHalfTheta;
                  ratioB = jdiv (Math_sin (jmul t halfTheta)) sinHalfTheta
              in Quaternion_blend this ratioA b ratioB)"

section \<open>The Landmark Interpreter: \<open>onResults\<close> of HandTracker.tsx\<close>

record landmark =
  lx :: jsnum
  ly :: jsnum
  lz :: jsnum

datatype Gesture = OPEN | FIST | UNKNOWN

record HandData =
  position :: Vector3
  rotation :: Quaternion
  gesture :: Gesture

text \<open>
  \<open>results.multiHandLandmarks\<close> is absent (\<open>None\<close>) or a list of hands, each a list of
  landmarks.
\<close>

record Results =
  multiHandLandmarks :: "landmark list list option"

text \<open>
  The value of \<open>onResults\<close> is what it passes to \<open>onHandUpdate\<close>: \<open>null\<close> is \<open>None\<close>.
  Reading \<open>.x\<close> of a landmark that the hand does not have throws a TypeError; only the
  landmarks 0, 9 and 12 are read (the others are bound and never used, as are the
  helper \<open>isFingerExtended\<close> and the viewport constants).
\<close>

definition onResults :: "real \<Rightarrow> Results \<Rightarrow> js_error + HandData option" where
  "onResults eps results =
     (case multiHandLandmarks results of
        None \<Rightarrow> Inr None
      | Some hands \<Rightarrow>
          if length hands = 0 then Inr None
          else
            let landmarks = hands ! 0 in
            (case (js_index landmarks 0, js_index landmarks 9, js_index landmarks 12) of
               (Some wrist, Some middleFingerMCP, Some middleFingerTip) \<Rightarrow>
                 let dWristToMiddleTip =
                       double_sqrt
                         (double_add (double_pow2 (double_sub (lx middleFingerTip) (lx wrist)))
                                     (double_pow2 (double_sub (ly middleFingerTip) (ly wrist))));
                     dWristToMiddleMCP =
                       double_sqrt
                         (double_add (double_pow2 (double_sub (lx middleFingerMCP) (lx wrist)))
                                     (double_pow2 (double_sub (ly middleFingerMCP) (ly wrist))));
                     gesture = (if jgt dWristToMiddleTip
                                       (double_mul dWristToMiddleMCP (to_double (18 / 10)))
                                then OPEN else FIST);
                     x = jsub (jmul (jsub (Num 1) (lx wrist)) (Num 2)) (Num 1);
                     y = jneg (jsub (jmul (ly wrist) (Num 2)) (Num 1));
                     position = \<lparr>vx = x, vy = y, vz = Num 0\<rparr>;
                     vDirection = Vector3_normalize
                       \<lparr>vx = jsub (jsub (Num 1) (lx middleFingerMCP)) (jsub (Num 1) (lx wrist)),
                        vy = jneg (jsub (ly middleFingerMCP) (ly wrist)),
                        vz = Num 0\<rparr>;
                     dummyUp = \<lparr>vx = Num 0, vy = Num 1, vz = Num 0\<rparr>;
                     quaternion = Quaternion_setFromUnitVectors eps dummyUp vDirection
                 in Inr (Some \<lparr>position = position, rotation = quaternion, gesture = gesture\<rparr>)
             | _ \<Rightarrow> Inl TypeError))"

section \<open>The Pose Stabilizer: the frame callbacks of Scene3D.tsx and Shield.tsx\<close>

text \<open>
  A \<open>THREE.Group\<close>, with the properties the program writes. A ref is \<open>None\<close> until
  the object is mounted; both callbacks return at once on an unmounted group.
\<close>

record Group =
  g_visible :: bool
  g_position :: Vector3
  g_quaternion :: Quaternion
  g_scale :: Vector3

record Viewport =
  width :: jsnum
  height :: jsnum

record Rig =
  shieldGroupRef :: "Group option"
  smoothedPosition :: Vector3
  smoothedRotation :: Quaternion

definition CreateRig_useFrame :: "Viewport \<Rightarrow> HandData option \<Rightarrow> Rig \<Rightarrow> Rig" where
  "CreateRig_useFrame viewport handData rig =
     (case shieldGroupRef rig of
        None \<Rightarrow> rig
      | Some grp \<Rightarrow>
          (case handData of
             None \<Rightarrow> rig
           | Some h \<Rightarrow>
               if gesture h = OPEN then
                 let targetX = jmul (vx (position h)) (jdiv (width viewport) (Num 2));
                     targetY = jmul (vy (position h)) (jdiv (height viewport) (Num 2));
                     targetZ = Num 0;
                     targetPos = \<lparr>vx = targetX, vy = targetY, vz = targetZ\<rparr>;
                     pos = Vector3_lerp (smoothedPosition rig) targetPos (Num (1 / 10));
                     rot = Quaternion_slerp (smoothedRotation rig) (rotation h) (Num (1 / 10))
                 in \<lparr>shieldGroupRef =
                        Some (grp\<lparr>g_visible := True, g_position := pos, g_quaternion := rot\<rparr>),
                     smoothedPosition = pos,
                     smoothedRotation = rot\<rparr>
               else rig))"

text \<open>A \<open>THREE.Points\<close> ring of the shield: the two Euler angles the animation writes.\<close>

record Points =
  rotation_x :: jsnum
  rotation_z :: jsnum

record Shield =
  groupRef :: "Group option"
  innerRef :: "Points option"
  middleRef :: "Points option"
  outerRef :: "Points option"

text \<open>
  The callback of \<open>Shield\<close>; \<open>visible\<close> is the component's prop, \<open>elapsedTime\<close> is
  \<open>state.clock.elapsedTime\<close>.
\<close>

definition Shield_useFrame :: "bool \<Rightarrow> jsnum \<Rightarrow> jsnum \<Rightarrow> Shield \<Rightarrow> Shield" where
  "Shield_useFrame visible elapsedTime delta sh =
     (case groupRef sh of
        None \<Rightarrow> sh
      | Some grp \<Rightarrow>
          let targetScale = (if visible then Num 1 else Num 0);
              scaled = grp\<lparr>g_scale :=
                Vector3_lerp (g_scale grp)
                  \<lparr>vx = targetScale, vy = targetScale, vz = targetScale\<rparr> (Num (1 / 10))\<rparr>
          in
            if jlt (vx (g_scale scaled)) (Num (1 / 100)) \<and> \<not> visible then
              sh\<lparr>groupRef := Some (scaled\<lparr>g_visible := False\<rparr>)\<rparr>
            else
              sh\<lparr>groupRef := Some (scaled\<lparr>g_visible := True\<rparr>),
                 innerRef := map_option
                   (\<lambda>p. p\<lparr>rotation_z := jsub (rotation_z p) (jmul delta (Num (5 / 10)))\<rparr>)
                   (innerRef sh),
                 middleRef := map_option
                   (\<lambda>p. p\<lparr>rotation_z := jadd (rotation_z p) (jmul delta (Num (3 / 10)))\<rparr>)
                   (middleRef sh),
                 outerRef := map_option
                   (\<lambda>p. p\<lparr>rotation_z := jsub (rotation_z p) (jmul delta (Num (1 / 10))),
                         rotation_x := jmul (Math_sin elapsedTime) (Num (1 / 10))\<rparr>)
                   (outerRef sh)\<rparr>)"

text \<open>
  The prop that \<open>CreateRig\<close> passes to \<open>Shield\<close>:
  \<open>!!(handDataRef.current && handDataRef.current.gesture === 'OPEN')\<close>.
\<close>

definition Shield_visible_prop :: "HandData option \<Rightarrow> bool" where
  "Shield_visible_prop handData = (case handData of None \<Rightarrow> False | Some h \<Rightarrow> gesture h = OPEN)"

text \<open>
  One render tick runs both callbacks; they write disjoint objects. The inputs of a tick
  are the viewport, the clock, the observation in the hand-off slot, and the prop
  \<open>visible\<close> that \<open>Shield\<close> last received. React evaluates the prop when it renders
  \<open>CreateRig\<close>, not on every tick: the prop is an input of its own, and where a property
  needs it to agree with the slot (\<open>visibleProp t = Shield_visible_prop (handData t)\<close>),
  that is a hypothesis.
\<close>

record Scene =
  rig :: Rig
  shield :: Shield

record Tick =
  viewport :: Viewport
  elapsedTime :: jsnum
  delta :: jsnum
  handData :: "HandData option"
  visibleProp :: bool

definition render_tick :: "Tick \<Rightarrow> Scene \<Rightarrow> Scene" where
  "render_tick t s =
     \<lparr>rig = CreateRig_useFrame (viewport t) (handData t) (rig s),
      shield = Shield_useFrame (visibleProp t) (elapsedTime t) (delta t) (shield s)\<rparr>"

fun render_ticks :: "Tick list \<Rightarrow> Scene \<Rightarrow> Scene" where
  "render_ticks [] s = s"
| "render_ticks (t # ts) s = render_ticks ts (render_tick t s)"

text \<open>
  A tick without a hand: the slot is empty and the prop is as rendered from it (false).
\<close>

definition hand_absent :: "Tick \<Rightarrow> bool" where
  "hand_absent t = (handData t = None \<and> visibleProp t = Shield_visible_prop (handData t))"

text \<open>The scene as mounted: \<open>useRef\<close> initial values and the defaults of three.js.\<close>

definition Vector3_zero :: Vector3 where
  "Vector3_zero = \<lparr>vx = Num 0, vy = Num 0, vz = Num 0\<rparr>"

definition Vector3_one :: Vector3 where
  "Vector3_one = \<lparr>vx = Num 1, vy = Num 1, vz = Num 1\<rparr>"

definition initial_scene :: Scene where
  "initial_scene =
     \<lparr>rig = \<lparr>shieldGroupRef = Some \<lparr>g_visible = False, g_position = Vector3_zero,
                                     g_quaternion = Quaternion_identity, g_scale = Vector3_one\<rparr>,
             smoothedPosition = Vector3_zero,
             smoothedRotation = Quaternion_identity\<rparr>,
      shield = \<lparr>groupRef = Some \<lparr>g_visible = True, g_position = Vector3_zero,
                                  g_quaternion = Quaternion_identity, g_scale = Vector3_one\<rparr>,
                innerRef = Some \<lparr>rotation_x = Num 0, rotation_z = Num 0\<rparr>,
                middleRef = Some \<lparr>rotation_x = Num 0, rotation_z = Num 0\<rparr>,
                outerRef = Some \<lparr>rotation_x = Num 0, rotation_z = Num 0\<rparr>\<rparr>\<rparr>"

section \<open>Example frames\<close>

text \<open>
  A hand of 21 landmarks with the wrist at index 0, the middle-finger base knuckle at
  index 9 and the middle-finger tip at index 12; the other landmarks, which the program
  never reads, repeat the wrist.
\<close>

definition landmark_at :: "real \<Rightarrow> real \<Rightarrow> landmark" where
  "landmark_at a b = \<lparr>lx = Num a, ly = Num b, lz = Num 0\<rparr>"

definition hand_of :: "landmark \<Rightarrow> landmark \<Rightarrow> landmark \<Rightarrow> landmark list" where
  "hand_of W M T = (replicate 21 W)[9 := M, 12 := T]"

definition frame_of :: "landmark \<Rightarrow> landmark \<Rightarrow> landmark \<Rightarrow> Results" where
  "frame_of W M T = \<lparr>multiHandLandmarks = Some [hand_of W M T]\<rparr>"

definition Quaternion_finite :: "Quaternion \<Rightarrow> bool" where
  "Quaternion_finite q =
     (is_finite (qx q) \<and> is_finite (qy q) \<and> is_finite (qz q) \<and> is_finite (qw q))"

text \<open>Example ticks: a viewport of 10 by 7.6 world units, at 60 ticks per second.\<close>

definition example_viewport :: Viewport where
  "example_viewport = \<lparr>width = Num 10, height = Num (38 / 5)\<rparr>"

definition absent_tick :: Tick where
  "absent_tick = \<lparr>viewport = example_viewport, elapsedTime = Num 0, delta = Num (1 / 60),
                   handData = None, visibleProp = False\<rparr>"

definition open_tick :: Tick where
  "open_tick = \<lparr>viewport = example_viewport, elapsedTime = Num 0, delta = Num (1 / 60),
                 handData = Some \<lparr>position = \<lparr>vx = Num 1, vy = Num 1, vz = Num 0\<rparr>,
                                  rotation = Quaternion_identity, gesture = OPEN\<rparr>,
                 visibleProp = True\<rparr>"

definition fist_tick :: Tick where
  "fist_tick = \<lparr>viewport = example_viewport, elapsedTime = Num 0, delta = Num (1 / 60),
                 handData = Some \<lparr>position = \<lparr>vx = Num 1, vy = Num 1, vz = Num 0\<rparr>,
                                  rotation = Quaternion_identity, gesture = FIST\<rparr>,
                 visibleProp = False\<rparr>"


section \<open>The distances of the gesture test\<close>

text \<open>
  On finite coordinates, the value that \<open>onResults\<close> computes for the planar distance
  between the landmarks \<open>(x1, y1)\<close> and \<open>(x2, y2)\<close>: the differences, their squares, the
  sum and the square root, each rounded.
\<close>

definition rounded_distance :: "real \<Rightarrow> real \<Rightarrow> real \<Rightarrow> real \<Rightarrow> real" where
  "rounded_distance x1 y1 x2 y2 =
     (let dx = double_round (x1 - x2); dy = double_round (y1 - y2)
      in double_round (sqrt (double_round (double_round (dx * dx) + double_round (dy * dy)))))"

section \<open>Iterated smoothing\<close>

text \<open>
  A quaternion and a vector of finite components, and the smoothed value after \<open>n\<close>
  ticks towards a fixed target: each tick is the call \<open>lerp(target, 0.1)\<close>, respectively
  \<open>slerp(target, 0.1)\<close>, of the frame callbacks.
\<close>

definition quat :: "real \<Rightarrow> real \<Rightarrow> real \<Rightarrow> real \<Rightarrow> Quaternion" where
  "quat x y z w = \<lparr>qx = Num x, qy = Num y, qz = Num z, qw = Num w\<rparr>"

definition vec :: "real \<Rightarrow> real \<Rightarrow> real \<Rightarrow> Vector3" where
  "vec x y z = \<lparr>vx = Num x, vy = Num y, vz = Num z\<rparr>"

primrec lerp_ticks :: "nat \<Rightarrow> Vector3 \<Rightarrow> Vector3 \<Rightarrow> Vector3" where
  "lerp_ticks 0 v target = v"
| "lerp_ticks (Suc n) v target = Vector3_lerp (lerp_ticks n v target) target (Num (1 / 10))"

primrec slerp_ticks :: "nat \<Rightarrow> Quaternion \<Rightarrow> Quaternion \<Rightarrow> Quaternion" where
  "slerp_ticks 0 q target = q"
| "slerp_ticks (Suc n) q target = Quaternion_slerp (slerp_ticks n q target) target (Num (1 / 10))"

text \<open>
  For the analysis of \<open>slerp\<close> on unit quaternions whose dot product \<open>C\<close> is not
  negative: the angle that \<open>slerp\<close> computes from \<open>C\<close>, the two weights it gives to the
  current value and to the target, and the dot product after the step.
\<close>

definition half_angle :: "real \<Rightarrow> real" where
  "half_angle C = (if 1 \<le> C then 0 else atan2_real (sqrt (1 - C * C)) C)"

definition slerp_ratios :: "real \<Rightarrow> real \<times> real" where
  "slerp_ratios C =
     (if 1 \<le> C then (1, 0)
      else if 1 - C * C \<le> 1 / 2 ^ 52 then
        (9 / 10 * (1 / sqrt (82 / 100 + 18 / 100 * C)), 1 / 10 * (1 / sqrt (82 / 100 + 18 / 100 * C)))
      else
        (sin (9 / 10 * half_angle C) / sqrt (1 - C * C),
         sin (1 / 10 * half_angle C) / sqrt (1 - C * C)))"

definition slerp_cos :: "real \<Rightarrow> real" where
  "slerp_cos C = fst (slerp_ratios C) * C + snd (slerp_ratios C)"

section \<open>Properties of the rounding to double precision\<close>

text \<open>
  Rounding errs by at most half a unit in the last place: relatively by \<open>2 ^ -53\<close>, and
  absolutely by \<open>2 ^ -1075\<close> among the subnormal numbers. A value of magnitude at most 4
  does not overflow.
\<close>

lemma round_even_error: "\<bar>of_int (round_even r) - r\<bar> \<le> 1 / 2"
  unfolding round_even_def Let_def by (auto; linarith)

lemma round_even_nonneg: "0 \<le> r \<Longrightarrow> 0 \<le> round_even r"
  unfolding round_even_def Let_def by (auto; linarith)

lemma round_even_nearest:
  assumes "of_int n - 1 / 2 < r" and "r < of_int n + 1 / 2"
  shows "round_even r = n"
proof -
  have "\<bar>of_int (round_even r) - r\<bar> \<le> 1 / 2" by (rule round_even_error)
  with assms have "\<bar>real_of_int (round_even r) - of_int n\<bar> < 1" by linarith
  then have "\<bar>real_of_int (round_even r - n)\<bar> < 1" by simp
  then have "\<bar>round_even r - n\<bar> < 1" by linarith
  then show ?thesis by linarith
qed

lemma round_even_of_int [simp]: "round_even (of_int n) = n"
  by (rule round_even_nearest) simp_all

lemma double_ulp_pos: "0 < double_ulp x"
  by (simp add: double_ulp_def)

lemma powi2_less_imp:
  assumes "(2::real) powi m < 2 powi n"
  shows "m < n"
proof (rule ccontr)
  assume "\<not> m < n"
  then have "(2::real) powi n \<le> 2 powi m" by (intro power_int_increasing) simp_all
  with assms show False by simp
qed

lemma floor_log2:
  assumes "0 < x"
  shows "2 powi \<lfloor>log 2 x\<rfloor> \<le> x" and "x < 2 powi (\<lfloor>log 2 x\<rfloor> + 1)"
proof -
  have "2 powr real_of_int \<lfloor>log 2 x\<rfloor> \<le> x \<and> x < 2 powr real_of_int (\<lfloor>log 2 x\<rfloor> + 1)"
    using floor_log_eq_powr_iff [OF assms, of 2 "\<lfloor>log 2 x\<rfloor>"] by simp
  then show "2 powi \<lfloor>log 2 x\<rfloor> \<le> x" and "x < 2 powi (\<lfloor>log 2 x\<rfloor> + 1)"
    by (simp_all only: powr_real_of_int' [of 2, simplified])
qed

lemma floor_log2_eq:
  assumes "2 powi e \<le> x" and "x < 2 powi (e + 1)"
  shows "\<lfloor>log 2 x\<rfloor> = e"
proof -
  have "(0::real) < 2 powi e" by simp
  then have pos: "0 < x" using assms(1) by (rule less_le_trans)
  have "2 powr real_of_int e \<le> x \<and> x < 2 powr real_of_int (e + 1)"
    using assms by (simp only: powr_real_of_int' [of 2, simplified] simp_thms)
  then show ?thesis
    using floor_log_eq_powr_iff [OF pos, of 2 e] by simp
qed

lemma double_exponent_eq:
  assumes "2 powi e \<le> \<bar>x\<bar>" and "\<bar>x\<bar> < 2 powi (e + 1)" and "- 1022 \<le> e"
  shows "double_exponent x = e"
proof -
  have "(0::real) < 2 powi e" by simp
  then have "0 < \<bar>x\<bar>" using assms(1) by (rule less_le_trans)
  then have "x \<noteq> 0" by simp
  with floor_log2_eq [OF assms(1,2)] assms(3) show ?thesis by (simp add: double_exponent_def)
qed

lemma double_exponent_sub:
  assumes "\<bar>x\<bar> < 2 powi (- 1022)"
  shows "double_exponent x = - 1022"
proof (cases "x = 0")
  case True
  then show ?thesis by (simp add: double_exponent_def)
next
  case False
  then have pos: "0 < \<bar>x\<bar>" by simp
  define k where "k = \<lfloor>log 2 \<bar>x\<bar>\<rfloor>"
  have "2 powi k \<le> \<bar>x\<bar>" unfolding k_def by (rule floor_log2 [OF pos])
  with assms have "(2::real) powi k < 2 powi (- 1022)" by linarith
  then have "k < - 1022" by (rule powi2_less_imp)
  then show ?thesis using False by (simp add: double_exponent_def k_def)
qed

lemma double_ulp_le: "double_ulp x \<le> \<bar>x\<bar> / 2 ^ 52 + 1 / 2 ^ 1074"
proof (cases "\<bar>x\<bar> < 2 powi (- 1022)")
  case True
  have "double_ulp x = 1 / 2 ^ 1074"
    by (simp add: double_ulp_def double_exponent_sub [OF True] power_int_minus_divide)
  moreover have "0 \<le> \<bar>x\<bar> / 2 ^ 52" by simp
  ultimately show ?thesis by (simp only: le_add_same_cancel2)
next
  case False
  moreover have "(0::real) < 2 powi (- 1022)" by simp
  ultimately have pos: "0 < \<bar>x\<bar>" by linarith
  define k where "k = \<lfloor>log 2 \<bar>x\<bar>\<rfloor>"
  have le: "2 powi k \<le> \<bar>x\<bar>" and less: "\<bar>x\<bar> < 2 powi (k + 1)"
    unfolding k_def by (rule floor_log2 [OF pos])+
  from False less have "(2::real) powi (- 1022) < 2 powi (k + 1)" by linarith
  then have "- 1022 < k + 1" by (rule powi2_less_imp)
  then have "double_exponent x = k" using pos by (simp add: double_exponent_def k_def)
  then have "double_ulp x = 2 powi k / 2 ^ 52"
    by (simp add: double_ulp_def power_int_diff)
  also have "\<dots> \<le> \<bar>x\<bar> / 2 ^ 52" using le by (simp only: divide_right_mono zero_le_power zero_le_numeral)
  also have "\<dots> \<le> \<bar>x\<bar> / 2 ^ 52 + 1 / 2 ^ 1074" by (simp only: le_add_same_cancel1 zero_le_divide_1_iff zero_le_power zero_le_numeral)
  finally show ?thesis .
qed

lemma double_round_error: "\<bar>double_round x - x\<bar> \<le> \<bar>x\<bar> / 2 ^ 53 + 1 / 2 ^ 1075"
proof (cases "x = 0")
  case True
  then show ?thesis by (simp add: double_round_def)
next
  case False
  define u where "u = double_ulp x"
  define n where "n = real_of_int (round_even (x / u))"
  have u: "0 < u" by (simp add: u_def double_ulp_pos)
  have "\<bar>n - x / u\<bar> \<le> 1 / 2" unfolding n_def by (rule round_even_error)
  then have "\<bar>n - x / u\<bar> * u \<le> 1 / 2 * u"
    using u by (simp only: mult_le_cancel_right_pos)
  moreover have "\<bar>n - x / u\<bar> * u = \<bar>n * u - x\<bar>"
  proof -
    have "\<bar>n - x / u\<bar> * u = \<bar>n - x / u\<bar> * \<bar>u\<bar>" using u by simp
    also have "\<dots> = \<bar>(n - x / u) * u\<bar>" by (simp only: abs_mult)
    also have "(n - x / u) * u = n * u - x" using u by (simp add: left_diff_distrib)
    finally show ?thesis .
  qed
  ultimately have a: "\<bar>double_round x - x\<bar> \<le> u / 2"
    using False by (simp add: double_round_def u_def n_def)
  have "u \<le> \<bar>x\<bar> / 2 ^ 52 + 1 / 2 ^ 1074" unfolding u_def by (rule double_ulp_le)
  then have "u / 2 \<le> (\<bar>x\<bar> / 2 ^ 52 + 1 / 2 ^ 1074) / 2" by (simp only: divide_right_mono zero_le_numeral)
  also have "\<dots> = \<bar>x\<bar> / 2 ^ 53 + 1 / 2 ^ 1075" by (simp add: add_divide_distrib)
  finally show ?thesis using a by (rule order_trans [rotated])
qed

lemma double_round_nonneg: "0 \<le> x \<Longrightarrow> 0 \<le> double_round x"
  by (simp add: double_round_def round_even_nonneg double_ulp_pos less_imp_le)

lemma double_round_bound:
  assumes "\<bar>x\<bar> \<le> b"
  shows "\<bar>double_round x\<bar> \<le> 2 * b + 1"
proof -
  have "\<bar>x\<bar> / 2 ^ 53 \<le> \<bar>x\<bar> / 1" by (rule divide_left_mono) simp_all
  moreover have "1 / 2 ^ 1075 \<le> (1::real)" by simp
  moreover note double_round_error [of x]
  ultimately show ?thesis using assms by linarith
qed

lemma to_double_finite:
  assumes "\<bar>x\<bar> \<le> 4"
  shows "to_double x = Num (double_round x)"
proof -
  have "\<bar>double_round x\<bar> \<le> 9" using double_round_bound [OF assms] by simp
  moreover have "(9::real) < 2 ^ 1024" by simp
  ultimately have "\<bar>double_round x\<bar> < 2 ^ 1024" by (rule le_less_trans)
  then have "\<not> 2 ^ 1024 \<le> \<bar>double_round x\<bar>" by (simp only: not_le)
  then show ?thesis by (simp only: to_double_def if_False)
qed


subsection \<open>The error of the rounded distance\<close>

text \<open>
  How an error propagates through a square and through a square root; then the six
  rounded operations of the distance computation, for landmarks no further than 1 apart
  along either axis: the rounded distance is within \<open>9 * 2 ^ -53\<close> of the Euclidean
  distance, relatively, up to an absolute \<open>2 ^ -533\<close> that covers the squares that
  underflow.
\<close>

lemma square_error:
  fixes a A h :: real
  assumes a: "\<bar>a\<bar> \<le> 1" and h: "0 \<le> h" "h \<le> 1 / 4"
    and err: "\<bar>A - a\<bar> \<le> \<bar>a\<bar> / 2 ^ 53 + h"
  shows "\<bar>A * A - a * a\<bar> \<le> 3 * (a * a) / 2 ^ 53 + 4 * h"
proof -
  define e where "e = A - a"
  define m where "m = \<bar>a\<bar>"
  define b where "b = m / 2 ^ 53 + h"
  have m: "0 \<le> m" "m \<le> 1" using a by (simp_all add: m_def)
  have mm: "m * m = a * a" by (simp add: m_def)
  have eb: "\<bar>e\<bar> \<le> b" using err by (simp add: e_def b_def m_def)
  have b0: "0 \<le> b" using eb by linarith
  have b1: "b \<le> 1"
  proof -
    have "m / 2 ^ 53 \<le> 1 / 2" using m by simp
    with h show ?thesis by (simp add: b_def)
  qed
  have mh: "m * h \<le> h" using m h by (simp add: mult_left_le_one_le)
  have mb: "m * b = m * m / 2 ^ 53 + m * h" by (simp add: b_def algebra_simps)
  have hb: "h * b \<le> h" using h b0 b1 by (simp add: mult_left_le)
  have "(m / 2 ^ 53 + h) * c = (m * c) / 2 ^ 53 + h * c" for c by (simp add: algebra_simps)
  from this [of b] have "b * b = (m * b) / 2 ^ 53 + h * b" by (simp only: b_def [symmetric])
  also have "m * b / 2 ^ 53 \<le> m * b" using m b0 by (simp add: divide_le_eq)
  finally have bb: "b * b \<le> m * b + h * b" by simp
  have "\<bar>2 * a * e\<bar> = 2 * (m * \<bar>e\<bar>)" by (simp add: abs_mult m_def)
  also have "m * \<bar>e\<bar> \<le> m * b" using eb m by (simp add: mult_left_mono)
  finally have t1: "\<bar>2 * a * e\<bar> \<le> 2 * (m * b)" by simp
  have "\<bar>e * e\<bar> = \<bar>e\<bar> * \<bar>e\<bar>" by (simp add: abs_mult)
  also have "\<dots> \<le> b * b" using eb by (intro mult_mono) simp_all
  finally have t2: "\<bar>e * e\<bar> \<le> b * b" .
  have "A * A - a * a = 2 * a * e + e * e" by (simp add: e_def algebra_simps)
  then have "\<bar>A * A - a * a\<bar> \<le> \<bar>2 * a * e\<bar> + \<bar>e * e\<bar>"
    by (simp only: abs_triangle_ineq)
  with t1 t2 bb have "\<bar>A * A - a * a\<bar> \<le> 3 * (m * b) + h * b" by linarith
  with mb mh hb have "\<bar>A * A - a * a\<bar> \<le> 3 * (m * m / 2 ^ 53) + 4 * h" by linarith
  then show ?thesis by (simp add: mm)
qed

lemma sqrt_perturb:
  fixes S D k b :: real
  assumes D: "0 \<le> D" and S: "0 \<le> S" and k: "0 \<le> k" "k \<le> 1" and b: "0 \<le> b"
    and err: "\<bar>S - D * D\<bar> \<le> k * (D * D) + b"
  shows "\<bar>sqrt S - D\<bar> \<le> k * D + sqrt b"
proof -
  have DD: "0 \<le> D * D" by simp
  have kDD: "0 \<le> k * (D * D)" using k by simp
  have upper: "sqrt S \<le> D + k * D + sqrt b"
  proof -
    have "k * (D * D) * k \<ge> 0" using kDD k by simp
    then have "D * D + k * (D * D) \<le> (D + k * D) * (D + k * D)"
      using kDD by (simp add: algebra_simps)
    with err have "S \<le> (D + k * D) * (D + k * D) + b" by linarith
    then have "sqrt S \<le> sqrt ((D + k * D) * (D + k * D) + b)" by simp
    also have "\<dots> \<le> sqrt ((D + k * D) * (D + k * D)) + sqrt b"
      by (rule sqrt_add_le_add_sqrt) (use b in simp_all)
    also have "sqrt ((D + k * D) * (D + k * D)) = D + k * D"
      using D k by (simp add: real_sqrt_mult)
    finally show ?thesis by simp
  qed
  have lower: "D - k * D - sqrt b \<le> sqrt S"
  proof (cases "D - k * D \<le> sqrt b")
    case True
    have "0 \<le> sqrt S" using S by simp
    with True show ?thesis by linarith
  next
    case False
    define x where "x = D - k * D"
    define y where "y = sqrt b"
    have y: "0 \<le> y" using b by (simp add: y_def)
    have yy: "y * y = b" using b by (simp add: y_def)
    have xy: "y < x" using False by (simp add: x_def y_def)
    have "y * y \<le> x * y" using xy y by (simp add: mult_right_mono)
    then have "(x - y) * (x - y) \<le> x * x - y * y" by (simp add: algebra_simps)
    also have "x * x \<le> D * D - k * (D * D)"
    proof -
      have "x * x = D * D - k * (D * D) - (k * (D * D) - k * (D * D) * k)"
        by (simp add: x_def algebra_simps)
      moreover have "k * (D * D) * k \<le> k * (D * D) * 1" using kDD k by (intro mult_left_mono) simp_all
      ultimately show ?thesis by linarith
    qed
    finally have "(x - y) * (x - y) \<le> S" using err yy by linarith
    then have "(x - y)\<^sup>2 \<le> S" by (simp add: power2_eq_square)
    then have "x - y \<le> sqrt S" by (rule real_le_rsqrt)
    then show ?thesis by (simp add: x_def y_def)
  qed
  from upper lower show ?thesis by linarith
qed

lemma tiny_numbers:
  "(0::real) < 1 / 2 ^ 1075" "(1::real) / 2 ^ 1075 \<le> 1 / 16"
  "sqrt (14 * (1 / 2 ^ 1075)) \<le> 1 / 2 ^ 535"
  "2 * (1 / 2 ^ 535) + 1 / 2 ^ 1075 \<le> (1::real) / 2 ^ 533"
proof -
  show "(0::real) < 1 / 2 ^ 1075" by simp
  show "(1::real) / 2 ^ 1075 \<le> 1 / 16" by simp
  show "sqrt (14 * (1 / 2 ^ 1075)) \<le> 1 / 2 ^ 535"
    by (rule real_le_lsqrt) (simp_all add: power2_eq_square)
  show "2 * (1 / 2 ^ 535) + 1 / 2 ^ 1075 \<le> (1::real) / 2 ^ 533" by simp
qed

lemma rounded_square:
  fixes a h :: real
  assumes a: "\<bar>a\<bar> \<le> 1" and h: "0 \<le> h" "h \<le> 1 / 16"
    and E: "\<And>x. \<bar>double_round x - x\<bar> \<le> \<bar>x\<bar> / 2 ^ 53 + h"
  defines "A \<equiv> double_round a"
  shows "\<bar>A\<bar> \<le> 2" and "\<bar>A * A\<bar> \<le> 4"
    and "0 \<le> double_round (A * A)"
    and "\<bar>double_round (A * A) - a * a\<bar> \<le> 5 * (a * a) / 2 ^ 53 + 6 * h"
proof -
  define s where "s = a * a"
  define q where "q = A * A"
  have eA: "\<bar>A - a\<bar> \<le> \<bar>a\<bar> / 2 ^ 53 + h" unfolding A_def by (rule E)
  show A2: "\<bar>A\<bar> \<le> 2" using eA a h by simp
  have s: "0 \<le> s" "s \<le> 1"
    using a by (simp_all add: s_def abs_le_square_iff [of a 1, simplified] power2_eq_square)
  have sq: "\<bar>q - s\<bar> \<le> 3 * s / 2 ^ 53 + 4 * h"
    unfolding q_def s_def using a h eA by (intro square_error) simp_all
  have q: "0 \<le> q" by (simp add: q_def)
  have "\<bar>q\<bar> \<le> 4" using sq s h q by simp
  then show "\<bar>A * A\<bar> \<le> 4" by (simp only: q_def)
  show "0 \<le> double_round (A * A)" by (rule double_round_nonneg) simp
  have "\<bar>double_round q - q\<bar> \<le> \<bar>q\<bar> / 2 ^ 53 + h" by (rule E)
  with sq s h q have "\<bar>double_round q - s\<bar> \<le> 5 * s / 2 ^ 53 + 6 * h" by simp
  then show "\<bar>double_round (A * A) - a * a\<bar> \<le> 5 * (a * a) / 2 ^ 53 + 6 * h"
    by (simp only: q_def s_def)
qed

lemma rounded_distance_error:
  fixes x1 y1 x2 y2 :: real
  assumes ax: "\<bar>x1 - x2\<bar> \<le> 1" and ay: "\<bar>y1 - y2\<bar> \<le> 1"
  defines "D \<equiv> sqrt ((x1 - x2) * (x1 - x2) + (y1 - y2) * (y1 - y2))"
  shows "double_sqrt (double_add (double_pow2 (double_sub (Num x1) (Num x2)))
                                 (double_pow2 (double_sub (Num y1) (Num y2))))
           = Num (rounded_distance x1 y1 x2 y2)"
    and "0 \<le> rounded_distance x1 y1 x2 y2" and "rounded_distance x1 y1 x2 y2 \<le> 2"
    and "\<bar>rounded_distance x1 y1 x2 y2 - D\<bar> \<le> 9 * D / 2 ^ 53 + 1 / 2 ^ 533"
proof -
  define h :: real where "h = 1 / 2 ^ 1075"
  define g :: real where "g = sqrt (14 * h)"
  define t :: real where "t = 1 / 2 ^ 533"
  have h: "0 \<le> h" "h \<le> 1 / 16" using tiny_numbers(1,2) by (simp_all only: h_def less_imp_le)
  have g: "0 \<le> g" "2 * g + h \<le> t" "t \<le> 1 / 16"
  proof -
    show "0 \<le> g" using h by (simp add: g_def)
    have "g \<le> 1 / 2 ^ 535" using tiny_numbers(3) by (simp only: g_def h_def)
    then have gh: "2 * g + h \<le> 2 * (1 / 2 ^ 535) + 1 / 2 ^ 1075" by (simp add: h_def)
    show "2 * g + h \<le> t" unfolding t_def by (rule order_trans [OF gh tiny_numbers(4)])
    show "t \<le> 1 / 16" by (simp add: t_def)
  qed
  have E: "\<bar>double_round x - x\<bar> \<le> \<bar>x\<bar> / 2 ^ 53 + h" for x
    unfolding h_def by (rule double_round_error)
  define a where "a = x1 - x2"
  define b where "b = y1 - y2"
  define A where "A = double_round a"
  define B where "B = double_round b"
  define A2 where "A2 = double_round (A * A)"
  define B2 where "B2 = double_round (B * B)"
  define S where "S = double_round (A2 + B2)"
  define R where "R = double_round (sqrt S)"
  define sa where "sa = a * a"
  define sb where "sb = b * b"
  have R_eq: "rounded_distance x1 y1 x2 y2 = R"
    by (simp add: rounded_distance_def Let_def R_def S_def A2_def B2_def A_def B_def a_def b_def)
  have a: "\<bar>a\<bar> \<le> 1" and b: "\<bar>b\<bar> \<le> 1" using ax ay by (simp_all add: a_def b_def)
  note ra = rounded_square [OF a h E, folded A_def, folded A2_def sa_def]
  note rb = rounded_square [OF b h E, folded B_def, folded B2_def sb_def]
  have s: "0 \<le> sa" "sa \<le> 1" "0 \<le> sb" "sb \<le> 1"
    using a b by (simp_all add: sa_def sb_def abs_le_square_iff [of _ 1, simplified] power2_eq_square)
  define DD where "DD = sa + sb"
  have DD: "0 \<le> DD" "DD \<le> 2" using s by (simp_all add: DD_def)
  have D: "D = sqrt DD" by (simp add: D_def DD_def sa_def sb_def a_def b_def)
  have D0: "0 \<le> D" using DD by (simp add: D)
  have D2: "D * D = DD" using DD by (simp add: D)
  have D1: "D \<le> 3 / 2"
  proof -
    have "DD \<le> (3 / 2)\<^sup>2" using DD by (simp add: power2_eq_square)
    then show ?thesis unfolding D by (rule real_le_lsqrt [rotated]) simp
  qed
  have p53: "(2::real) ^ 53 = 9007199254740992" by simp
  have S0a: "0 \<le> A2 + B2" using ra(3) rb(3) by simp
  have S0c: "\<bar>A2 + B2 - DD\<bar> \<le> 5 * DD / 2 ^ 53 + 12 * h"
    using ra(4) rb(4) unfolding DD_def p53 by argo
  have S0b: "\<bar>A2 + B2\<bar> \<le> 4"
    using S0c S0a DD h unfolding p53 by argo
  note S0 = S0a S0b S0c
  have S1: "0 \<le> S" unfolding S_def by (rule double_round_nonneg) (rule S0)
  have "\<bar>S - (A2 + B2)\<bar> \<le> \<bar>A2 + B2\<bar> / 2 ^ 53 + h" unfolding S_def by (rule E)
  with S0 DD h have S2: "\<bar>S - DD\<bar> \<le> 7 * DD / 2 ^ 53 + 14 * h" unfolding p53 by argo
  have S4: "S \<le> 4" using S2 DD h unfolding p53 by argo
  have r0: "0 \<le> sqrt S" using S1 by simp
  have r4: "sqrt S \<le> 2"
  proof -
    have "S \<le> 2\<^sup>2" using S4 by simp
    then show ?thesis by (rule real_le_lsqrt [rotated]) simp
  qed
  have "\<bar>sqrt S - D\<bar> \<le> 7 / 2 ^ 53 * D + sqrt (14 * h)"
    using D0 S1 h S2 by (intro sqrt_perturb) (simp_all add: D2)
  then have r1: "\<bar>sqrt S - D\<bar> \<le> 7 * D / 2 ^ 53 + g" by (simp add: g_def)
  have "\<bar>R - sqrt S\<bar> \<le> \<bar>sqrt S\<bar> / 2 ^ 53 + h" unfolding R_def by (rule E)
  with r1 r0 D0 g h have "\<bar>R - D\<bar> \<le> 9 * D / 2 ^ 53 + (2 * g + h)" unfolding p53 by argo
  with g have err: "\<bar>R - D\<bar> \<le> 9 * D / 2 ^ 53 + t" by argo
  show "0 \<le> rounded_distance x1 y1 x2 y2"
    unfolding R_eq R_def by (rule double_round_nonneg) (rule r0)
  show "rounded_distance x1 y1 x2 y2 \<le> 2" unfolding R_eq using err D0 D1 g unfolding p53 by argo
  show "\<bar>rounded_distance x1 y1 x2 y2 - D\<bar> \<le> 9 * D / 2 ^ 53 + 1 / 2 ^ 533"
    unfolding R_eq using err by (simp only: t_def)
  have c1: "double_sub (Num x1) (Num x2) = Num A"
    using a by (simp add: double_sub_def jsub_def to_double_finite A_def a_def)
  have c2: "double_sub (Num y1) (Num y2) = Num B"
    using b by (simp add: double_sub_def jsub_def to_double_finite B_def b_def)
  have c3: "double_pow2 (Num A) = Num A2"
    using ra(2) by (simp add: double_pow2_def double_mul_def to_double_finite A2_def)
  have c4: "double_pow2 (Num B) = Num B2"
    using rb(2) by (simp add: double_pow2_def double_mul_def to_double_finite B2_def)
  have c5: "double_add (Num A2) (Num B2) = Num S"
    using S0(2) by (simp add: double_add_def to_double_finite S_def)
  have c6: "double_sqrt (Num S) = Num R"
    using S1 r0 r4 by (simp add: double_sqrt_def to_double_finite R_def)
  show "double_sqrt (double_add (double_pow2 (double_sub (Num x1) (Num x2)))
                                 (double_pow2 (double_sub (Num y1) (Num y2))))
           = Num (rounded_distance x1 y1 x2 y2)"
    by (simp only: c1 c2 c3 c4 c5 c6 R_eq)
qed

subsection \<open>The gesture test away from its boundary\<close>

text \<open>
  Rounding a given value: it is enough to name the binade and the nearest multiple of the
  unit in the last place. The literal \<open>1.8\<close> is the double \<open>8106479329266893 / 2 ^ 52\<close>.
  With one more rounded product, the comparison of the gesture test is decided by the
  Euclidean distances as soon as they are a relative \<open>2 ^ -48\<close> and an absolute
  \<open>2 ^ -500\<close> away from equality.
\<close>

lemma double_round_eq:
  assumes "2 powi e \<le> \<bar>x\<bar>" and "\<bar>x\<bar> < 2 powi (e + 1)" and "- 1022 \<le> e"
    and "of_int m - 1 / 2 < x / 2 powi (e - 52)" and "x / 2 powi (e - 52) < of_int m + 1 / 2"
  shows "double_round x = of_int m * 2 powi (e - 52)"
proof -
  have "(0::real) < 2 powi e" by simp
  then have "0 < \<bar>x\<bar>" using assms(1) by (rule less_le_trans)
  then have "x \<noteq> 0" by simp
  moreover have "double_ulp x = 2 powi (e - 52)"
    by (simp only: double_ulp_def double_exponent_eq [OF assms(1-3)])
  moreover have "round_even (x / 2 powi (e - 52)) = m"
    using assms(4,5) by (rule round_even_nearest)
  ultimately show ?thesis by (simp add: double_round_def)
qed

lemma to_double_eq:
  assumes "2 powi e \<le> \<bar>x\<bar>" and "\<bar>x\<bar> < 2 powi (e + 1)" and "- 1022 \<le> e"
    and "of_int m - 1 / 2 < x / 2 powi (e - 52)" and "x / 2 powi (e - 52) < of_int m + 1 / 2"
    and "\<bar>x\<bar> \<le> 4"
  shows "to_double x = Num (of_int m * 2 powi (e - 52))"
  by (simp only: to_double_finite [OF assms(6)] double_round_eq [OF assms(1-5)])

lemma literal_1_8: "to_double (18 / 10) = Num (8106479329266893 / 4503599627370496)"
  using to_double_eq [of 0 "18 / 10" 8106479329266893] by (simp add: power_int_minus_divide)

lemma double_round_1_8: "double_round (18 / 10) = 8106479329266893 / 4503599627370496"
proof -
  have "to_double (18 / 10) = Num (double_round (18 / 10))" by (rule to_double_finite) simp
  then show ?thesis by (simp only: literal_1_8 jsnum.inject)
qed

lemma margin_numbers:
  "8 * ((1::real) / 2 ^ 533) + 4 * (1 / 2 ^ 1075) \<le> 1 / 2 ^ 500" "(0::real) < 1 / 2 ^ 500"
  by simp_all

lemma gesture_margin:
  fixes tx ty mx my wx wy :: real
  assumes c: "\<bar>tx - wx\<bar> \<le> 1" "\<bar>ty - wy\<bar> \<le> 1" "\<bar>mx - wx\<bar> \<le> 1" "\<bar>my - wy\<bar> \<le> 1"
  defines "dTip \<equiv> sqrt ((tx - wx) * (tx - wx) + (ty - wy) * (ty - wy))"
    and "dBase \<equiv> sqrt ((mx - wx) * (mx - wx) + (my - wy) * (my - wy))"
  shows "18 / 10 * dBase * (1 + 1 / 2 ^ 48) + 1 / 2 ^ 500 \<le> dTip \<Longrightarrow>
           jgt (Num (rounded_distance tx ty wx wy))
               (double_mul (Num (rounded_distance mx my wx wy)) (to_double (18 / 10)))"
    and "dTip \<le> 18 / 10 * dBase * (1 - 1 / 2 ^ 48) - 1 / 2 ^ 500 \<Longrightarrow>
           \<not> jgt (Num (rounded_distance tx ty wx wy))
               (double_mul (Num (rounded_distance mx my wx wy)) (to_double (18 / 10)))"
proof -
  define h :: real where "h = 1 / 2 ^ 1075"
  define t :: real where "t = 1 / 2 ^ 533"
  define T :: real where "T = 1 / 2 ^ 500"
  define R where "R = rounded_distance tx ty wx wy"
  define Q where "Q = rounded_distance mx my wx wy"
  define G where "G = Q * (8106479329266893 / 4503599627370496)"
  define P where "P = double_round G"
  have p: "(2::real) ^ 53 = 9007199254740992" "(2::real) ^ 48 = 281474976710656" by simp_all
  have h: "0 \<le> h" "0 \<le> t" "8 * t + 4 * h \<le> T" "0 < T"
    using margin_numbers by (simp_all add: h_def t_def T_def)
  have D: "0 \<le> dTip" "0 \<le> dBase" by (simp_all add: dTip_def dBase_def)
  have R: "0 \<le> R" "R \<le> 2" "\<bar>R - dTip\<bar> \<le> 9 * dTip / 2 ^ 53 + t"
    unfolding R_def dTip_def t_def by (rule rounded_distance_error [OF c(1,2)])+
  have Q: "0 \<le> Q" "Q \<le> 2" "\<bar>Q - dBase\<bar> \<le> 9 * dBase / 2 ^ 53 + t"
    unfolding Q_def dBase_def t_def by (rule rounded_distance_error [OF c(3,4)])+
  have Gfour: "\<bar>G\<bar> \<le> 4" using Q unfolding G_def by argo
  have Gpos: "0 \<le> G" using Q unfolding G_def by argo
  have "\<bar>P - G\<bar> \<le> \<bar>G\<bar> / 2 ^ 53 + h" unfolding P_def h_def by (rule double_round_error)
  then have E: "\<bar>P - G\<bar> \<le> G / 2 ^ 53 + h" using Gpos by simp
  have cmp: "jgt (Num R) (double_mul (Num Q) (to_double (18 / 10))) = (P < R)"
  proof -
    have "double_mul (Num Q) (to_double (18 / 10)) = to_double G"
      by (simp only: literal_1_8 double_mul_def jmul.simps js_round.simps G_def)
    also have "\<dots> = Num P" unfolding P_def using Gfour by (rule to_double_finite)
    finally show ?thesis by (simp add: jgt_def)
  qed
  {
    assume "18 / 10 * dBase * (1 + 1 / 2 ^ 48) + 1 / 2 ^ 500 \<le> dTip"
    then have "18 / 10 * dBase * (1 + 1 / 2 ^ 48) + T \<le> dTip" by (simp only: T_def)
    with R(3) Q(3) E h D have "P < R" unfolding p G_def by argo
    then show "jgt (Num (rounded_distance tx ty wx wy))
               (double_mul (Num (rounded_distance mx my wx wy)) (to_double (18 / 10)))"
      using cmp unfolding R_def Q_def by simp
  }
  {
    assume "dTip \<le> 18 / 10 * dBase * (1 - 1 / 2 ^ 48) - 1 / 2 ^ 500"
    then have "dTip \<le> 18 / 10 * dBase * (1 - 1 / 2 ^ 48) - T" by (simp only: T_def)
    with R(3) Q(3) E h D have "\<not> P < R" unfolding p G_def by argo
    then show "\<not> jgt (Num (rounded_distance tx ty wx wy))
               (double_mul (Num (rounded_distance mx my wx wy)) (to_double (18 / 10)))"
      using cmp unfolding R_def Q_def by simp
  }
qed

subsection \<open>Evaluating the rounding\<close>

lemma double_exponent_less:
  assumes "\<bar>x\<bar> < 2 powi j" and "- 1022 < j"
  shows "double_exponent x < j"
proof (cases "x = 0")
  case True
  with assms(2) show ?thesis by (simp add: double_exponent_def)
next
  case False
  then have pos: "0 < \<bar>x\<bar>" by simp
  have "2 powi \<lfloor>log 2 \<bar>x\<bar>\<rfloor> \<le> \<bar>x\<bar>" by (rule floor_log2 [OF pos])
  with assms(1) have "(2::real) powi \<lfloor>log 2 \<bar>x\<bar>\<rfloor> < 2 powi j" by linarith
  then have "\<lfloor>log 2 \<bar>x\<bar>\<rfloor> < j" by (rule powi2_less_imp)
  with assms(2) False show ?thesis by (simp add: double_exponent_def)
qed

text \<open>A dyadic number of at most 53 significant bits, not below the subnormal grid, is a double.\<close>

lemma double_round_dyadic:
  assumes n: "\<bar>n\<bar> < 2 ^ 53" and k: "k \<le> 1074"
  shows "double_round (of_int n / 2 ^ k) = of_int n / 2 ^ k"
proof (cases "n = 0")
  case True
  then show ?thesis by (simp add: double_round_def)
next
  case False
  define x :: real where "x = of_int n / 2 ^ k"
  define e where "e = double_exponent x"
  define j where "j = 52 - e - int k"
  have x0: "x \<noteq> 0" using False by (simp add: x_def)
  have "\<bar>x\<bar> = real_of_int \<bar>n\<bar> / 2 ^ k" by (simp add: x_def)
  also have "\<dots> < 2 ^ 53 / 2 ^ k"
  proof -
    have "real_of_int \<bar>n\<bar> < real_of_int (2 ^ 53)" using n by (simp only: of_int_less_iff)
    then show ?thesis by (simp add: divide_strict_right_mono)
  qed
  also have "\<dots> = 2 powi (53 - int k)" by (simp add: power_int_diff)
  finally have "\<bar>x\<bar> < 2 powi (53 - int k)" .
  then have "e < 53 - int k" unfolding e_def using k by (intro double_exponent_less) simp_all
  then have j: "0 \<le> j" by (simp add: j_def)
  have ulp: "double_ulp x = 2 powi (e - 52)" by (simp add: double_ulp_def e_def)
  have "x / 2 powi (e - 52) = of_int n * 2 powi j"
    by (simp add: x_def j_def power_int_diff power_int_add field_simps)
  then have "x / double_ulp x = of_int n * 2 powi j" by (simp only: ulp)
  also have "\<dots> = of_int (n * 2 ^ nat j)" using j by (simp add: power_int_def)
  finally have "x / double_ulp x = of_int (n * 2 ^ nat j)" .
  then have "of_int (round_even (x / double_ulp x)) * double_ulp x = x / double_ulp x * double_ulp x"
    by (simp only: round_even_of_int)
  also have "\<dots> = x" using double_ulp_pos [of x] by simp
  finally show ?thesis using x0 by (simp add: double_round_def x_def)
qed

lemma double_round_sqrt:
  assumes q: "0 \<le> q" and lo: "(2 powi e)\<^sup>2 \<le> q" and hi: "q < (2 powi (e + 1))\<^sup>2"
    and e: "- 1022 \<le> e"
    and below: "((of_int m - 1 / 2) * 2 powi (e - 52))\<^sup>2 < q"
    and above: "q < ((of_int m + 1 / 2) * 2 powi (e - 52))\<^sup>2"
    and m: "0 < m"
  shows "double_round (sqrt q) = of_int m * 2 powi (e - 52)"
proof (rule double_round_eq)
  have s: "0 \<le> sqrt q" using q by simp
  have u: "(0::real) < 2 powi (e - 52)" by simp
  show "2 powi e \<le> \<bar>sqrt q\<bar>" using lo s by (simp add: real_le_rsqrt)
  show "\<bar>sqrt q\<bar> < 2 powi (e + 1)" using hi s by (simp add: real_less_lsqrt)
  show "- 1022 \<le> e" by (rule e)
  have "(of_int m - 1 / 2) * 2 powi (e - 52) < sqrt q" using below by (rule real_less_rsqrt)
  then show "of_int m - 1 / 2 < sqrt q / 2 powi (e - 52)" using u by (simp add: pos_less_divide_eq)
  have "0 \<le> (real_of_int m + 1 / 2) * 2 powi (e - 52)" using m by simp
  then have "sqrt q < (of_int m + 1 / 2) * 2 powi (e - 52)" using above by (rule real_less_lsqrt)
  then show "sqrt q / 2 powi (e - 52) < of_int m + 1 / 2" using u by (simp add: pos_divide_less_eq)
qed

text \<open>
  A frame on the boundary of the gesture test: wrist at the origin, base knuckle at
  \<open>(5, 60) / 1024\<close>, tip at \<open>(9, 108) / 1024\<close>, so that the tip is at exactly 1.8 times the
  distance of the base knuckle. The rounded tip distance is \<open>7626166995655627 / 2 ^ 56\<close>,
  the rounded product of the base distance and 1.8 is one unit in the last place less.
\<close>

lemma boundary_tip:
  "rounded_distance (9 / 1024) (108 / 1024) 0 0 = 7626166995655627 / 2 ^ 56"
proof -
  define q :: real where "q = 11745 / 1048576"
  have r1: "double_round (9 / 1024) = 9 / 1024"
    using double_round_dyadic [of 9 10] by simp
  have r2: "double_round (27 / 256) = 27 / 256"
    using double_round_dyadic [of 27 8] by simp
  have r3: "double_round (81 / 1048576) = 81 / 1048576"
    using double_round_dyadic [of 81 20] by simp
  have r4: "double_round (729 / 65536) = 729 / 65536"
    using double_round_dyadic [of 729 16] by simp
  have r5: "double_round q = q"
    using double_round_dyadic [of 11745 20] by (simp add: q_def)
  have r6: "double_round (sqrt q) = 7626166995655627 / 2 ^ 56"
    using double_round_sqrt [of q "- 4" 7626166995655627]
    by (simp add: q_def power_int_minus_divide power2_eq_square)
  show ?thesis
    by (simp add: rounded_distance_def Let_def r1 r2 r3 r4 r5 [unfolded q_def] r6 [unfolded q_def])
qed

lemma boundary_base:
  "rounded_distance (5 / 1024) (60 / 1024) 0 0 = 8473518884061807 / 2 ^ 57"
proof -
  define q :: real where "q = 3625 / 1048576"
  have r1: "double_round (5 / 1024) = 5 / 1024"
    using double_round_dyadic [of 5 10] by simp
  have r2: "double_round (15 / 256) = 15 / 256"
    using double_round_dyadic [of 15 8] by simp
  have r3: "double_round (25 / 1048576) = 25 / 1048576"
    using double_round_dyadic [of 25 20] by simp
  have r4: "double_round (225 / 65536) = 225 / 65536"
    using double_round_dyadic [of 225 16] by simp
  have r5: "double_round q = q"
    using double_round_dyadic [of 3625 20] by (simp add: q_def)
  have r6: "double_round (sqrt q) = 8473518884061807 / 2 ^ 57"
    using double_round_sqrt [of q "- 5" 8473518884061807]
    by (simp add: q_def power_int_minus_divide power2_eq_square)
  show ?thesis
    by (simp add: rounded_distance_def Let_def r1 r2 r3 r4 r5 [unfolded q_def] r6 [unfolded q_def])
qed

lemma boundary_product:
  "double_round (8473518884061807 / 2 ^ 57 * (8106479329266893 / 4503599627370496))
     = 7626166995655626 / 2 ^ 56"
  using double_round_eq [of "- 4" "8473518884061807 / 2 ^ 57 * (8106479329266893 / 4503599627370496)"
      7626166995655626]
  by (simp add: power_int_minus_divide)

lemma boundary_exact:
  "sqrt ((9 / 1024 - 0) * (9 / 1024 - 0) + (108 / 1024 - 0) * (108 / 1024 - 0)) =
   18 / 10 * sqrt ((5 / 1024 - 0) * (5 / 1024 - 0) + (60 / 1024 - 0) * (60 / 1024 - 0))"
proof -
  define r :: real where "r = sqrt (3625 / 1048576)"
  have r: "0 \<le> r" "r * r = 3625 / 1048576" by (simp_all add: r_def)
  have "(18 / 10 * r)\<^sup>2 = 324 / 100 * (r * r)" by (simp add: power2_eq_square)
  also have "\<dots> = 11745 / 1048576" by (simp add: r(2))
  finally have "sqrt (11745 / 1048576) = 18 / 10 * r"
    using r(1) by (intro real_sqrt_unique) simp_all
  then show ?thesis by (simp add: r_def)
qed

section \<open>Properties of the Landmark Interpreter\<close>

lemma sum2_squares_not_neg [simp]: "\<not> a * a + b * b < (0::real)"
  by (simp add: not_less)

lemma sum4_squares_not_neg [simp]: "\<not> a * a + b * b + c * c + d * d < (0::real)"
  by (simp add: not_less)

lemma hand_of_simps [simp]:
  "length (hand_of W M T) = 21" "hand_of W M T ! 0 = W" "hand_of W M T ! 9 = M"
  "hand_of W M T ! 12 = T"
  by (simp_all add: hand_of_def)

lemma frame_of_shape:
  "multiHandLandmarks (frame_of W M T) = Some (hand_of W M T # [])"
  "12 < length (hand_of W M T)"
  by (simp_all add: frame_of_def)

text \<open>What \<open>onResults\<close> delivers for a frame whose first hand has its landmarks.\<close>

lemma onResults_hand:
  assumes "multiHandLandmarks results = Some (lms # rest)" and "12 < length lms"
  shows "onResults eps results =
    Inr (Some \<lparr>position = \<lparr>vx = jsub (jmul (jsub (Num 1) (lx (lms ! 0))) (Num 2)) (Num 1),
                            vy = jneg (jsub (jmul (ly (lms ! 0)) (Num 2)) (Num 1)),
                            vz = Num 0\<rparr>,
               rotation = Quaternion_setFromUnitVectors eps \<lparr>vx = Num 0, vy = Num 1, vz = Num 0\<rparr>
                 (Vector3_normalize
                   \<lparr>vx = jsub (jsub (Num 1) (lx (lms ! 9))) (jsub (Num 1) (lx (lms ! 0))),
                    vy = jneg (jsub (ly (lms ! 9)) (ly (lms ! 0))),
                    vz = Num 0\<rparr>),
               gesture =
                 (if jgt (double_sqrt
                            (double_add (double_pow2 (double_sub (lx (lms ! 12)) (lx (lms ! 0))))
                                        (double_pow2 (double_sub (ly (lms ! 12)) (ly (lms ! 0))))))
                         (double_mul
                            (double_sqrt
                               (double_add (double_pow2 (double_sub (lx (lms ! 9)) (lx (lms ! 0))))
                                           (double_pow2 (double_sub (ly (lms ! 9)) (ly (lms ! 0))))))
                            (to_double (18 / 10)))
                  then OPEN else FIST)\<rparr>)"
proof -
  from assms(2) have "lms \<noteq> []" "9 < length lms" by auto
  with assms show ?thesis
    by (simp add: onResults_def js_index_def Let_def)
qed

lemma normalize_finite:
  "Vector3_normalize \<lparr>vx = Num a, vy = Num b, vz = Num 0\<rparr> =
     (if a = 0 \<and> b = 0 then \<lparr>vx = Num 0, vy = Num 0, vz = Num 0\<rparr>
      else \<lparr>vx = Num (a * (1 / sqrt (a * a + b * b))),
            vy = Num (b * (1 / sqrt (a * a + b * b))), vz = Num 0\<rparr>)"
  by (auto simp: Vector3_normalize_def Vector3_divideScalar_def Vector3_multiplyScalar_def
       Vector3_length_def js_or_def)

lemma Quaternion_length_Num:
  "Quaternion_length \<lparr>qx = Num a, qy = Num b, qz = Num c, qw = Num d\<rparr> =
     Num (sqrt (a * a + b * b + c * c + d * d))"
  by (simp add: Quaternion_length_def)

lemma Quaternion_normalize_Num:
  "Quaternion_normalize \<lparr>qx = Num a, qy = Num b, qz = Num c, qw = Num d\<rparr> =
     (if a * a + b * b + c * c + d * d = 0 then Quaternion_identity
      else \<lparr>qx = Num (a * (1 / sqrt (a * a + b * b + c * c + d * d))),
            qy = Num (b * (1 / sqrt (a * a + b * b + c * c + d * d))),
            qz = Num (c * (1 / sqrt (a * a + b * b + c * c + d * d))),
            qw = Num (d * (1 / sqrt (a * a + b * b + c * c + d * d)))\<rparr>)"
proof (cases "a * a + b * b + c * c + d * d = 0")
  case True
  then have "sqrt (a * a + b * b + c * c + d * d) = 0" by (simp only: real_sqrt_zero)
  then show ?thesis
    unfolding Quaternion_normalize_def Quaternion_length_Num Let_def strict_eq_def
    by (simp only: True if_True jsnum.simps simp_thms)
next
  case False
  then have "sqrt (a * a + b * b + c * c + d * d) \<noteq> 0"
    by (simp only: real_sqrt_eq_zero_cancel_iff not_False_eq_True)
  then show ?thesis
    unfolding Quaternion_normalize_def Quaternion_length_Num Let_def strict_eq_def
    by (simp add: False del: real_sqrt_eq_zero_cancel_iff)
qed

lemma scaled_unit:
  fixes a b c d :: real
  assumes "a * a + b * b + c * c + d * d \<noteq> 0"
  defines "k \<equiv> 1 / sqrt (a * a + b * b + c * c + d * d)"
  shows "a * k * (a * k) + b * k * (b * k) + c * k * (c * k) + d * k * (d * k) = 1"
proof -
  let ?s = "a * a + b * b + c * c + d * d"
  have "0 \<le> ?s" by simp
  with assms(1) have pos: "0 < ?s" by argo
  then have kk: "k * k = 1 / ?s" by (simp add: k_def)
  have "a * k * (a * k) + b * k * (b * k) + c * k * (c * k) + d * k * (d * k) = ?s * (k * k)"
    by (simp add: algebra_simps)
  also have "\<dots> = 1" using pos by (simp add: kk)
  finally show ?thesis .
qed

lemma Quaternion_normalize_unit:
  "Quaternion_length (Quaternion_normalize \<lparr>qx = Num a, qy = Num b, qz = Num c, qw = Num d\<rparr>)
     = Num 1 \<and>
   Quaternion_finite (Quaternion_normalize \<lparr>qx = Num a, qy = Num b, qz = Num c, qw = Num d\<rparr>)"
proof (cases "a * a + b * b + c * c + d * d = 0")
  case True
  then show ?thesis
    by (simp add: Quaternion_normalize_Num Quaternion_identity_def Quaternion_length_Num
          Quaternion_finite_def)
next
  case False
  show ?thesis
    unfolding Quaternion_normalize_Num if_not_P [OF False] Quaternion_length_Num
      scaled_unit [OF False]
    by (simp add: Quaternion_finite_def)
qed

lemma setFromUnitVectors_up_finite:
  "\<exists>a b c d. Quaternion_setFromUnitVectors eps \<lparr>vx = Num 0, vy = Num 1, vz = Num 0\<rparr>
       \<lparr>vx = Num p, vy = Num q, vz = Num 0\<rparr>
     = Quaternion_normalize \<lparr>qx = Num a, qy = Num b, qz = Num c, qw = Num d\<rparr>"
  by (cases "q + 1 < eps")
     (auto simp: Quaternion_setFromUnitVectors_def Let_def Vector3_dot_def jgt_def jsub_def)

lemma setFromUnitVectors_up_unit:
  "Quaternion_length (Quaternion_setFromUnitVectors eps \<lparr>vx = Num 0, vy = Num 1, vz = Num 0\<rparr>
       \<lparr>vx = Num p, vy = Num q, vz = Num 0\<rparr>) = Num 1 \<and>
   Quaternion_finite (Quaternion_setFromUnitVectors eps \<lparr>vx = Num 0, vy = Num 1, vz = Num 0\<rparr>
       \<lparr>vx = Num p, vy = Num q, vz = Num 0\<rparr>)"
proof -
  obtain a b c d where
    "Quaternion_setFromUnitVectors eps \<lparr>vx = Num 0, vy = Num 1, vz = Num 0\<rparr>
       \<lparr>vx = Num p, vy = Num q, vz = Num 0\<rparr>
     = Quaternion_normalize \<lparr>qx = Num a, qy = Num b, qz = Num c, qw = Num d\<rparr>"
    using setFromUnitVectors_up_finite by blast
  then show ?thesis by (simp only: Quaternion_normalize_unit)
qed

lemma setFromUnitVectors_up_zero:
  "eps \<le> 1 \<Longrightarrow> Quaternion_setFromUnitVectors eps \<lparr>vx = Num 0, vy = Num 1, vz = Num 0\<rparr>
       \<lparr>vx = Num 0, vy = Num 0, vz = Num 0\<rparr> = Quaternion_identity"
  by (simp add: Quaternion_setFromUnitVectors_def Let_def Vector3_dot_def jsub_def
        Quaternion_normalize_Num Quaternion_identity_def)

lemma setFromUnitVectors_up_up:
  "eps \<le> 1 \<Longrightarrow> Quaternion_setFromUnitVectors eps \<lparr>vx = Num 0, vy = Num 1, vz = Num 0\<rparr>
       \<lparr>vx = Num 0, vy = Num 1, vz = Num 0\<rparr> = Quaternion_identity"
  by (simp add: Quaternion_setFromUnitVectors_def Let_def Vector3_dot_def jsub_def
        Quaternion_normalize_Num Quaternion_identity_def)

text \<open>
  The gesture of a hand of finite coordinates, none of the three landmarks further than 1
  from the wrist along either axis: the comparison of the rounded distances.
\<close>

lemma onResults_gesture:
  assumes "multiHandLandmarks results = Some (lms # rest)" and "12 < length lms"
    and "lx (lms ! 0) = Num wx" and "ly (lms ! 0) = Num wy"
    and "lx (lms ! 9) = Num mx" and "ly (lms ! 9) = Num my"
    and "lx (lms ! 12) = Num tx" and "ly (lms ! 12) = Num ty"
    and "\<bar>tx - wx\<bar> \<le> 1" and "\<bar>ty - wy\<bar> \<le> 1" and "\<bar>mx - wx\<bar> \<le> 1" and "\<bar>my - wy\<bar> \<le> 1"
  shows "\<exists>h. onResults eps results = Inr (Some h) \<and>
           gesture h =
             (if jgt (Num (rounded_distance tx ty wx wy))
                     (double_mul (Num (rounded_distance mx my wx wy)) (to_double (18 / 10)))
              then OPEN else FIST)"
  by (simp only: onResults_hand [OF assms(1,2)] assms(3-8)
        rounded_distance_error(1) [OF assms(9,10)] rounded_distance_error(1) [OF assms(11,12)]
        HandData.simps sum.inject option.inject simp_thms ex_simps)

lemma rounded_product:
  assumes "\<bar>x1 - x2\<bar> \<le> 1" and "\<bar>y1 - y2\<bar> \<le> 1"
  shows "double_mul (Num (rounded_distance x1 y1 x2 y2)) (to_double (18 / 10)) =
         Num (double_round (rounded_distance x1 y1 x2 y2 * (8106479329266893 / 4503599627370496)))"
proof -
  let ?Q = "rounded_distance x1 y1 x2 y2"
  have "0 \<le> ?Q" "?Q \<le> 2" by (rule rounded_distance_error [OF assms])+
  then have "\<bar>?Q * (8106479329266893 / 4503599627370496)\<bar> \<le> 4" by argo
  then have "to_double (?Q * (8106479329266893 / 4503599627370496)) =
             Num (double_round (?Q * (8106479329266893 / 4503599627370496)))"
    by (rule to_double_finite)
  then show ?thesis by (simp only: literal_1_8 double_mul_def jmul.simps js_round.simps)
qed

text \<open>
  The end-to-end scenario of the specification: a straight hand pointing up with the
  fingers extended, at the centre of the frame.
\<close>

lemma example_observation:
  "onResults (1 / 1000000)
     (frame_of (landmark_at (1/2) (1/2)) (landmark_at (1/2) (3/10)) (landmark_at (1/2) (1/20)))
   = Inr (Some \<lparr>position = \<lparr>vx = Num 0, vy = Num 0, vz = Num 0\<rparr>,
                rotation = Quaternion_identity, gesture = OPEN\<rparr>)"
proof -
  have s1: "sqrt (1 / 25) = 1 / 5" using real_sqrt_abs2 [of "1 / 5"] by simp
  have s2: "sqrt (81 / 400) = 9 / 20" using real_sqrt_abs2 [of "9 / 20"] by simp
  have e1: "double_sqrt
               (double_add (double_pow2 (double_sub (Num (1/2)) (Num (1/2))))
                           (double_pow2 (double_sub (Num (1/20)) (Num (1/2)))))
             = Num (rounded_distance (1/2) (1/20) (1/2) (1/2))"
    by (rule rounded_distance_error(1)) simp_all
  have e2: "double_sqrt
               (double_add (double_pow2 (double_sub (Num (1/2)) (Num (1/2))))
                           (double_pow2 (double_sub (Num (3/10)) (Num (1/2)))))
             = Num (rounded_distance (1/2) (3/10) (1/2) (1/2))"
    by (rule rounded_distance_error(1)) simp_all
  have "jgt (Num (rounded_distance (1/2) (1/20) (1/2) (1/2)))
            (double_mul (Num (rounded_distance (1/2) (3/10) (1/2) (1/2))) (to_double (18 / 10)))"
    by (rule gesture_margin(1)) (simp_all add: s1 s2)
  then have g: "jgt (double_sqrt
                  (double_add (double_pow2 (double_sub (Num (1/2)) (Num (1/2))))
                              (double_pow2 (double_sub (Num (1/20)) (Num (1/2))))))
               (double_mul
                  (double_sqrt
                     (double_add (double_pow2 (double_sub (Num (1/2)) (Num (1/2))))
                                 (double_pow2 (double_sub (Num (3/10)) (Num (1/2))))))
                  (to_double (18 / 10)))"
    by (simp only: e1 e2)
  then show ?thesis
    by (simp add: onResults_hand [OF frame_of_shape] landmark_at_def jsub_def
          normalize_finite Quaternion_setFromUnitVectors_def Vector3_dot_def
          Quaternion_normalize_Num Quaternion_identity_def s1)
qed

text \<open>Squares in the gesture test: of a rounded value of magnitude at most 1, and of the special values.\<close>

lemma double_pow2_rounded:
  assumes "\<bar>a\<bar> \<le> 1"
  shows "double_pow2 (Num (double_round a)) = Num (double_round (double_round a * double_round a))"
proof -
  have "\<bar>double_round a * double_round a\<bar> \<le> 4"
    by (rule rounded_square(2) [OF assms _ _ double_round_error]) simp_all
  then show ?thesis by (simp add: double_pow2_def double_mul_def to_double_finite)
qed

lemma double_pow2_special:
  "double_pow2 PosInf = PosInf" "double_pow2 NegInf = PosInf" "double_pow2 NaN = NaN"
  by (simp_all add: double_pow2_def double_mul_def)

lemmas gesture_special =
  double_sub_def double_add_def double_mul_def double_sqrt_def jsub_def jgt_def signed_inf_def
  to_double_finite double_pow2_rounded double_pow2_special literal_1_8 [simplified]

lemma ndc_x_not_finite:
  "\<not> is_finite a \<Longrightarrow> \<not> is_finite (jsub (jmul (jsub (Num 1) a) (Num 2)) (Num 1))"
  by (cases a) (simp_all add: jsub_def signed_inf_def)

lemma ndc_y_not_finite:
  "\<not> is_finite a \<Longrightarrow> \<not> is_finite (jneg (jsub (jmul a (Num 2)) (Num 1)))"
  by (cases a) (simp_all add: jsub_def signed_inf_def)

lemma double_round_tiny:
  assumes "\<bar>x\<bar> < 1 / 2 ^ 1075"
  shows "double_round x = 0"
proof (cases "x = 0")
  case True
  then show ?thesis by (simp add: double_round_def)
next
  case False
  have "(1::real) / 2 ^ 1075 < 2 powi (- 1022)" by (simp add: power_int_minus_divide)
  with assms have "\<bar>x\<bar> < 2 powi (- 1022)" by (rule less_trans)
  then have ulp: "double_ulp x = 1 / 2 ^ 1074"
    by (simp add: double_ulp_def double_exponent_sub power_int_minus_divide)
  have "\<bar>x / (1 / 2 ^ 1074)\<bar> = \<bar>x\<bar> * 2 ^ 1074" by (simp add: abs_mult)
  also have "\<dots> < 1 / 2 ^ 1075 * 2 ^ 1074" using assms by (simp only: mult_strict_right_mono zero_less_power zero_less_numeral)
  also have "\<dots> = 1 / 2" by simp
  finally have "\<bar>x / double_ulp x\<bar> < 1 / 2" by (simp only: ulp)
  then have "of_int 0 - 1 / 2 < x / double_ulp x" "x / double_ulp x < of_int 0 + 1 / 2"
    by linarith+
  then have "round_even (x / double_ulp x) = 0" by (rule round_even_nearest)
  then show ?thesis by (simp add: double_round_def)
qed

text \<open>
  A frame in which both distances underflow: the base knuckle at \<open>2 ^ -600\<close> and the tip
  at \<open>2 ^ -599\<close> from the wrist. Every square rounds to zero.
\<close>

lemma underflow_distance:
  "rounded_distance (1 / 2 ^ 599) 0 0 0 = 0" "rounded_distance (1 / 2 ^ 600) 0 0 0 = 0"
proof -
  have z: "double_round 0 = 0" by (simp add: double_round_def)
  have a: "double_round (1 / 2 ^ 599) = 1 / 2 ^ 599" using double_round_dyadic [of 1 599] by simp
  have b: "double_round (1 / 2 ^ 600) = 1 / 2 ^ 600" using double_round_dyadic [of 1 600] by simp
  have c: "double_round (1 / 2 ^ 599 * (1 / 2 ^ 599)) = 0" by (rule double_round_tiny) simp
  have d: "double_round (1 / 2 ^ 600 * (1 / 2 ^ 600)) = 0" by (rule double_round_tiny) simp
  show "rounded_distance (1 / 2 ^ 599) 0 0 0 = 0"
    by (simp only: rounded_distance_def Let_def diff_zero a c z mult_zero_left add_0 real_sqrt_zero)
  show "rounded_distance (1 / 2 ^ 600) 0 0 0 = 0"
    by (simp only: rounded_distance_def Let_def diff_zero b d z mult_zero_left add_0 real_sqrt_zero)
qed

text \<open>
  C1, as the code has it. The distances are computed in double precision, so the test
  is the strict comparison of two rounded values: for a hand with coordinates in the unit
  square, the gesture is OPEN exactly when the rounded distance from tip to wrist exceeds
  the rounded product of the rounded distance from base knuckle to wrist and the double
  nearest to 1.8. Measured with the Euclidean distances \<open>dTip\<close> and \<open>dBase\<close> over the reals,
  the gesture is OPEN whenever \<open>dTip \<ge> 1.8 * dBase * (1 + 2 ^ -48) + 2 ^ -500\<close> and FIST
  whenever \<open>dTip \<le> 1.8 * dBase * (1 - 2 ^ -48) - 2 ^ -500\<close>. In the narrow band between,
  which holds the equality \<open>dTip = 1.8 * dBase\<close>, either gesture occurs.
\<close>

theorem classify_with_margin:
  assumes "multiHandLandmarks results = Some (lms # rest)" and "12 < length lms"
    and "lx (lms ! 0) = Num wx" and "ly (lms ! 0) = Num wy"
    and "lx (lms ! 9) = Num mx" and "ly (lms ! 9) = Num my"
    and "lx (lms ! 12) = Num tx" and "ly (lms ! 12) = Num ty"
    and "0 \<le> wx" and "wx \<le> 1" and "0 \<le> wy" and "wy \<le> 1"
    and "0 \<le> mx" and "mx \<le> 1" and "0 \<le> my" and "my \<le> 1"
    and "0 \<le> tx" and "tx \<le> 1" and "0 \<le> ty" and "ty \<le> 1"
  shows "\<exists>h. onResults eps results = Inr (Some h) \<and>
           gesture h =
             (if double_round (rounded_distance mx my wx wy * double_round (18 / 10))
                   < rounded_distance tx ty wx wy
              then OPEN else FIST) \<and>
           (18 / 10 * sqrt ((mx - wx)\<^sup>2 + (my - wy)\<^sup>2) * (1 + 1 / 2 ^ 48) + 1 / 2 ^ 500
              \<le> sqrt ((tx - wx)\<^sup>2 + (ty - wy)\<^sup>2) \<longrightarrow> gesture h = OPEN) \<and>
           (sqrt ((tx - wx)\<^sup>2 + (ty - wy)\<^sup>2)
              \<le> 18 / 10 * sqrt ((mx - wx)\<^sup>2 + (my - wy)\<^sup>2) * (1 - 1 / 2 ^ 48) - 1 / 2 ^ 500
              \<longrightarrow> gesture h = FIST)"
proof -
  have c: "\<bar>tx - wx\<bar> \<le> 1" "\<bar>ty - wy\<bar> \<le> 1" "\<bar>mx - wx\<bar> \<le> 1" "\<bar>my - wy\<bar> \<le> 1"
    using assms(9-) by simp_all
  let ?test = "jgt (Num (rounded_distance tx ty wx wy))
                   (double_mul (Num (rounded_distance mx my wx wy)) (to_double (18 / 10)))"
  from onResults_gesture [OF assms(1-8) c]
  obtain h where h: "onResults eps results = Inr (Some h)"
    and g: "gesture h = (if ?test then OPEN else FIST)"
    by blast
  have t: "?test = (double_round (rounded_distance mx my wx wy * double_round (18 / 10))
                      < rounded_distance tx ty wx wy)"
    by (simp only: rounded_product [OF c(3,4)] jgt_def jlt.simps double_round_1_8)
  have "18 / 10 * sqrt ((mx - wx)\<^sup>2 + (my - wy)\<^sup>2) * (1 + 1 / 2 ^ 48) + 1 / 2 ^ 500
          \<le> sqrt ((tx - wx)\<^sup>2 + (ty - wy)\<^sup>2) \<Longrightarrow> ?test"
    unfolding power2_eq_square by (rule gesture_margin(1) [OF c])
  moreover have "sqrt ((tx - wx)\<^sup>2 + (ty - wy)\<^sup>2)
          \<le> 18 / 10 * sqrt ((mx - wx)\<^sup>2 + (my - wy)\<^sup>2) * (1 - 1 / 2 ^ 48) - 1 / 2 ^ 500
          \<Longrightarrow> \<not> ?test"
    unfolding power2_eq_square by (rule gesture_margin(2) [OF c])
  ultimately have "(18 / 10 * sqrt ((mx - wx)\<^sup>2 + (my - wy)\<^sup>2) * (1 + 1 / 2 ^ 48) + 1 / 2 ^ 500
              \<le> sqrt ((tx - wx)\<^sup>2 + (ty - wy)\<^sup>2) \<longrightarrow> gesture h = OPEN) \<and>
           (sqrt ((tx - wx)\<^sup>2 + (ty - wy)\<^sup>2)
              \<le> 18 / 10 * sqrt ((mx - wx)\<^sup>2 + (my - wy)\<^sup>2) * (1 - 1 / 2 ^ 48) - 1 / 2 ^ 500
              \<longrightarrow> gesture h = FIST)"
    using g by simp
  moreover have "gesture h =
             (if double_round (rounded_distance mx my wx wy * double_round (18 / 10))
                   < rounded_distance tx ty wx wy
              then OPEN else FIST)"
    using g by (simp only: t)
  ultimately show ?thesis using h by blast
qed

text \<open>
  The two scenarios of the specification: base knuckle at distance 0.2 from the wrist, the
  tip at distance 0.45 (OPEN) and at distance 0.05 (FIST); and a frame between the two
  bounds, with the tip at exactly 1.8 times the base distance, where the rounded
  comparison gives OPEN.
\<close>

theorem classify_with_margin_witness:
  "(\<exists>h. onResults (1 / 1000000)
          (frame_of (landmark_at (1/2) (1/2)) (landmark_at (1/2) (3/10)) (landmark_at (1/2) (1/20)))
        = Inr (Some h) \<and> gesture h = OPEN) \<and>
   (\<exists>h. onResults (1 / 1000000)
          (frame_of (landmark_at (1/2) (1/2)) (landmark_at (1/2) (3/10)) (landmark_at (1/2) (9/20)))
        = Inr (Some h) \<and> gesture h = FIST) \<and>
   (\<exists>h. onResults (1 / 1000000)
          (frame_of (landmark_at 0 0) (landmark_at (5 / 1024) (60 / 1024))
             (landmark_at (9 / 1024) (108 / 1024)))
        = Inr (Some h) \<and> gesture h = OPEN)"
proof -
  let ?W = "landmark_at (1/2) (1/2)" and ?M = "landmark_at (1/2) (3/10)"
  have sh: "multiHandLandmarks (frame_of W M T) = Some (hand_of W M T # [])"
    "12 < length (hand_of W M T)" for W M T
    by (rule frame_of_shape)+
  have s1: "sqrt (1 / 25) = 1 / 5" using real_sqrt_abs2 [of "1 / 5"] by simp
  have s2: "sqrt (81 / 400) = 9 / 20" using real_sqrt_abs2 [of "9 / 20"] by simp
  have s3: "sqrt (1 / 400) = 1 / 20" using real_sqrt_abs2 [of "1 / 20"] by simp
  from classify_with_margin [OF sh [of ?W ?M "landmark_at (1/2) (1/20)"],
      of "1/2" "1/2" "1/2" "3/10" "1/2" "1/20" "1 / 1000000"]
  have a: "\<exists>h. onResults (1 / 1000000) (frame_of ?W ?M (landmark_at (1/2) (1/20))) = Inr (Some h)
             \<and> gesture h = OPEN"
    by (auto simp add: landmark_at_def power2_eq_square s1 s2)
  from classify_with_margin [OF sh [of ?W ?M "landmark_at (1/2) (9/20)"],
      of "1/2" "1/2" "1/2" "3/10" "1/2" "9/20" "1 / 1000000"]
  have b: "\<exists>h. onResults (1 / 1000000) (frame_of ?W ?M (landmark_at (1/2) (9/20))) = Inr (Some h)
             \<and> gesture h = FIST"
    by (auto simp add: landmark_at_def power2_eq_square s1 s3)
  have l: "lx (hand_of (landmark_at 0 0) (landmark_at m n) (landmark_at p q) ! 0) = Num 0"
    "ly (hand_of (landmark_at 0 0) (landmark_at m n) (landmark_at p q) ! 0) = Num 0"
    "lx (hand_of (landmark_at 0 0) (landmark_at m n) (landmark_at p q) ! 9) = Num m"
    "ly (hand_of (landmark_at 0 0) (landmark_at m n) (landmark_at p q) ! 9) = Num n"
    "lx (hand_of (landmark_at 0 0) (landmark_at m n) (landmark_at p q) ! 12) = Num p"
    "ly (hand_of (landmark_at 0 0) (landmark_at m n) (landmark_at p q) ! 12) = Num q" for m n p q
    by (simp_all add: landmark_at_def)
  have r: "(0::real) \<le> 0" "(0::real) \<le> 1" "(0::real) \<le> 5 / 1024" "(5 / 1024 ::real) \<le> 1"
    "(0::real) \<le> 60 / 1024" "(60 / 1024 ::real) \<le> 1" "(0::real) \<le> 9 / 1024" "(9 / 1024 ::real) \<le> 1"
    "(0::real) \<le> 108 / 1024" "(108 / 1024 ::real) \<le> 1"
    by simp_all
  from classify_with_margin [OF sh l r(1,2,1,2) r(3-), of "1 / 1000000"]
  obtain h where h: "onResults (1 / 1000000)
          (frame_of (landmark_at 0 0) (landmark_at (5 / 1024) (60 / 1024))
             (landmark_at (9 / 1024) (108 / 1024))) = Inr (Some h)"
    and g: "gesture h =
             (if double_round (rounded_distance (5 / 1024) (60 / 1024) 0 0 * double_round (18 / 10))
                   < rounded_distance (9 / 1024) (108 / 1024) 0 0
              then OPEN else FIST)"
    by blast
  have cmp: "(7626166995655626 / 2 ^ 56 :: real) < 7626166995655627 / 2 ^ 56" by simp
  have "gesture h = OPEN"
    by (simp only: g double_round_1_8 boundary_base boundary_product boundary_tip cmp if_True)
  with h have c: "\<exists>h. onResults (1 / 1000000)
          (frame_of (landmark_at 0 0) (landmark_at (5 / 1024) (60 / 1024))
             (landmark_at (9 / 1024) (108 / 1024))) = Inr (Some h) \<and> gesture h = OPEN"
    by blast
  from a b c show ?thesis by blast
qed

text \<open>
  Two frames inside the unit square on which the rule over the reals fails. On the first
  the tip is at exactly 1.8 times the base distance and the gesture is OPEN: the rounded
  tip distance is one unit in the last place above the rounded product. On the second
  the tip is at twice the base distance and the gesture is FIST: both distances underflow
  to zero.
\<close>

theorem boundary_frame_open:
  "map_sum id (map_option gesture)
     (onResults (1 / 1000000)
        (frame_of (landmark_at 0 0) (landmark_at (5 / 1024) (60 / 1024))
           (landmark_at (9 / 1024) (108 / 1024))))
   = Inr (Some OPEN) \<and>
   sqrt ((9 / 1024 - 0)\<^sup>2 + (108 / 1024 - 0)\<^sup>2)
     = 18 / 10 * sqrt ((5 / 1024 - 0)\<^sup>2 + (60 / 1024 - 0)\<^sup>2) \<and>
   map_sum id (map_option gesture)
     (onResults (1 / 1000000)
        (frame_of (landmark_at 0 0) (landmark_at (1 / 2 ^ 600) 0) (landmark_at (1 / 2 ^ 599) 0)))
   = Inr (Some FIST) \<and>
   sqrt ((1 / 2 ^ 599 - 0)\<^sup>2 + (0 - 0)\<^sup>2) > 18 / 10 * sqrt ((1 / 2 ^ 600 - 0)\<^sup>2 + (0 - 0)\<^sup>2)"
proof -
  have sh: "multiHandLandmarks (frame_of W M T) = Some (hand_of W M T # [])"
    "12 < length (hand_of W M T)" for W M T
    by (rule frame_of_shape)+
  have l: "lx (hand_of (landmark_at 0 0) (landmark_at a b) (landmark_at c d) ! 0) = Num 0"
    "ly (hand_of (landmark_at 0 0) (landmark_at a b) (landmark_at c d) ! 0) = Num 0"
    "lx (hand_of (landmark_at 0 0) (landmark_at a b) (landmark_at c d) ! 9) = Num a"
    "ly (hand_of (landmark_at 0 0) (landmark_at a b) (landmark_at c d) ! 9) = Num b"
    "lx (hand_of (landmark_at 0 0) (landmark_at a b) (landmark_at c d) ! 12) = Num c"
    "ly (hand_of (landmark_at 0 0) (landmark_at a b) (landmark_at c d) ! 12) = Num d" for a b c d
    by (simp_all add: landmark_at_def)
  have r: "\<bar>5 / 1024 - 0\<bar> \<le> (1::real)" "\<bar>60 / 1024 - 0\<bar> \<le> (1::real)"
    "\<bar>9 / 1024 - 0\<bar> \<le> (1::real)" "\<bar>108 / 1024 - 0\<bar> \<le> (1::real)"
    "\<bar>1 / 2 ^ 600 - 0\<bar> \<le> (1::real)" "\<bar>1 / 2 ^ 599 - 0\<bar> \<le> (1::real)" "\<bar>0 - 0\<bar> \<le> (1::real)"
    by simp_all
  from onResults_gesture [OF sh l r(3,4,1,2), of "1 / 1000000"]
  obtain h where h: "onResults (1 / 1000000)
        (frame_of (landmark_at 0 0) (landmark_at (5 / 1024) (60 / 1024))
           (landmark_at (9 / 1024) (108 / 1024))) = Inr (Some h)"
    and g: "gesture h =
             (if jgt (Num (rounded_distance (9 / 1024) (108 / 1024) 0 0))
                     (double_mul (Num (rounded_distance (5 / 1024) (60 / 1024) 0 0))
                        (to_double (18 / 10)))
              then OPEN else FIST)"
    by blast
  have "double_mul (Num (rounded_distance (5 / 1024) (60 / 1024) 0 0)) (to_double (18 / 10))
          = Num (double_round (rounded_distance (5 / 1024) (60 / 1024) 0 0 *
                                (8106479329266893 / 4503599627370496)))"
    by (rule rounded_product [OF r(1,2)])
  also have "\<dots> = Num (7626166995655626 / 2 ^ 56)"
    by (simp only: boundary_base boundary_product)
  finally have prod: "double_mul (Num (rounded_distance (5 / 1024) (60 / 1024) 0 0))
      (to_double (18 / 10)) = Num (7626166995655626 / 2 ^ 56)" .
  have cmp: "(7626166995655626 / 2 ^ 56 :: real) < 7626166995655627 / 2 ^ 56" by simp
  have "gesture h = OPEN"
    by (simp only: g prod boundary_tip jgt_def jlt.simps cmp if_True)
  with h have a: "map_sum id (map_option gesture)
     (onResults (1 / 1000000)
        (frame_of (landmark_at 0 0) (landmark_at (5 / 1024) (60 / 1024))
           (landmark_at (9 / 1024) (108 / 1024))))
     = Inr (Some OPEN)"
    by simp
  from onResults_gesture [OF sh l r(6,7,5,7), of "1 / 1000000"]
  obtain k where k: "onResults (1 / 1000000)
        (frame_of (landmark_at 0 0) (landmark_at (1 / 2 ^ 600) 0) (landmark_at (1 / 2 ^ 599) 0))
        = Inr (Some k)"
    and f: "gesture k =
             (if jgt (Num (rounded_distance (1 / 2 ^ 599) 0 0 0))
                     (double_mul (Num (rounded_distance (1 / 2 ^ 600) 0 0 0)) (to_double (18 / 10)))
              then OPEN else FIST)"
    by blast
  have "double_mul (Num (rounded_distance (1 / 2 ^ 600) 0 0 0)) (to_double (18 / 10))
          = Num (double_round (rounded_distance (1 / 2 ^ 600) 0 0 0 *
                                (8106479329266893 / 4503599627370496)))"
    by (rule rounded_product [OF r(5,7)])
  also have "\<dots> = Num (double_round 0)"
    by (simp only: underflow_distance mult_zero_left)
  also have "\<dots> = Num 0"
    by (simp add: double_round_def)
  finally have prod0: "double_mul (Num (rounded_distance (1 / 2 ^ 600) 0 0 0))
      (to_double (18 / 10)) = Num 0" .
  have "gesture k = FIST"
    by (simp only: f prod0 [unfolded underflow_distance] underflow_distance jgt_def jlt.simps
          less_irrefl if_False)
  with k have b: "map_sum id (map_option gesture)
     (onResults (1 / 1000000)
        (frame_of (landmark_at 0 0) (landmark_at (1 / 2 ^ 600) 0) (landmark_at (1 / 2 ^ 599) 0)))
     = Inr (Some FIST)"
    by simp
  have c: "sqrt ((9 / 1024 - 0)\<^sup>2 + (108 / 1024 - 0)\<^sup>2)
     = 18 / 10 * sqrt ((5 / 1024 - 0)\<^sup>2 + (60 / 1024 - 0)\<^sup>2)"
    unfolding power2_eq_square by (rule boundary_exact)
  have d: "sqrt ((1 / 2 ^ 599 - 0)\<^sup>2 + (0 - 0)\<^sup>2) > 18 / 10 * sqrt ((1 / 2 ^ 600 - 0)\<^sup>2 + (0 - 0)\<^sup>2)"
    by simp
  from a c b d show ?thesis by blast
qed

text \<open>
  C3, as the code has it. A frame with NaN or Infinity in its landmarks is not rejected.
  No observation (\<open>None\<close>) is delivered exactly when no hand is present: no landmark list,
  or an empty one. Whenever the first hand has its landmarks (at least 13 of them, so
  that the indices 0, 9 and 12 exist), an observation is delivered whatever the
  coordinates are, and a wrist coordinate that is not finite gives a position component
  that is not finite. A first hand with fewer landmarks makes \<open>onResults\<close> throw a
  TypeError.
\<close>

theorem nonfinite_frame_delivered:
  "(onResults eps results = Inr None \<longleftrightarrow>
      multiHandLandmarks results = None \<or> multiHandLandmarks results = Some []) \<and>
   (\<forall>lms rest. multiHandLandmarks results = Some (lms # rest) \<longrightarrow>
      (if 12 < length lms
       then \<exists>h. onResults eps results = Inr (Some h) \<and>
              (\<not> is_finite (lx (lms ! 0)) \<longrightarrow> \<not> is_finite (vx (position h))) \<and>
              (\<not> is_finite (ly (lms ! 0)) \<longrightarrow> \<not> is_finite (vy (position h)))
       else onResults eps results = Inl TypeError))"
proof -
  have none: "onResults eps results = Inr None \<longleftrightarrow>
      multiHandLandmarks results = None \<or> multiHandLandmarks results = Some []"
    by (auto simp: onResults_def Let_def split: option.splits if_splits)
  have some: "\<exists>h. onResults eps results = Inr (Some h) \<and>
              (\<not> is_finite (lx (lms ! 0)) \<longrightarrow> \<not> is_finite (vx (position h))) \<and>
              (\<not> is_finite (ly (lms ! 0)) \<longrightarrow> \<not> is_finite (vy (position h)))"
    if "multiHandLandmarks results = Some (lms # rest)" and "12 < length lms" for lms rest
    by (simp add: onResults_hand [OF that] ndc_x_not_finite ndc_y_not_finite)
  have short: "onResults eps results = Inl TypeError"
    if "multiHandLandmarks results = Some (lms # rest)" and "\<not> 12 < length lms" for lms rest
    using that by (simp add: onResults_def js_index_def Let_def split: option.splits)
  show ?thesis
  proof (intro conjI allI impI)
    show "onResults eps results = Inr None \<longleftrightarrow>
      multiHandLandmarks results = None \<or> multiHandLandmarks results = Some []"
      by (rule none)
  next
    fix lms rest
    assume m: "multiHandLandmarks results = Some (lms # rest)"
    show "if 12 < length lms
       then \<exists>h. onResults eps results = Inr (Some h) \<and>
              (\<not> is_finite (lx (lms ! 0)) \<longrightarrow> \<not> is_finite (vx (position h))) \<and>
              (\<not> is_finite (ly (lms ! 0)) \<longrightarrow> \<not> is_finite (vy (position h)))
       else onResults eps results = Inl TypeError"
    proof (cases "12 < length lms")
      case True
      with some [OF m True] show ?thesis by (simp only: if_True)
    next
      case False
      with short [OF m False] show ?thesis by (simp only: if_False)
    qed
  qed
qed

theorem nonfinite_frame_delivered_witness:
  "(\<exists>h. onResults (1 / 1000000)
          (frame_of \<lparr>lx = NaN, ly = PosInf, lz = Num 0\<rparr> (landmark_at (1/2) (3/10))
             (landmark_at (1/2) (1/20)))
        = Inr (Some h) \<and> \<not> is_finite (vx (position h)) \<and> \<not> is_finite (vy (position h))) \<and>
   onResults (1 / 1000000) \<lparr>multiHandLandmarks = Some [[landmark_at (1/2) (1/2)]]\<rparr>
     = Inl TypeError \<and>
   onResults (1 / 1000000) \<lparr>multiHandLandmarks = None\<rparr> = Inr None"
proof -
  let ?W = "\<lparr>lx = NaN, ly = PosInf, lz = Num 0\<rparr>" and ?M = "landmark_at (1/2) (3/10)"
    and ?T = "landmark_at (1/2) (1/20)"
  from nonfinite_frame_delivered [of "1 / 1000000" "frame_of ?W ?M ?T", THEN conjunct2,
      THEN spec, THEN spec, THEN mp, OF frame_of_shape(1)]
  have a: "\<exists>h. onResults (1 / 1000000) (frame_of ?W ?M ?T) = Inr (Some h) \<and>
             \<not> is_finite (vx (position h)) \<and> \<not> is_finite (vy (position h))"
    by simp
  from nonfinite_frame_delivered [of "1 / 1000000"
      "\<lparr>multiHandLandmarks = Some [[landmark_at (1/2) (1/2)]]\<rparr>", THEN conjunct2,
      THEN spec, THEN spec, of "[landmark_at (1/2) (1/2)]" "[]"]
  have b: "onResults (1 / 1000000) \<lparr>multiHandLandmarks = Some [[landmark_at (1/2) (1/2)]]\<rparr>
     = Inl TypeError"
    by simp
  from nonfinite_frame_delivered [of "1 / 1000000" "\<lparr>multiHandLandmarks = None\<rparr>",
      THEN conjunct1]
  have c: "onResults (1 / 1000000) \<lparr>multiHandLandmarks = None\<rparr> = Inr None" by simp
  from a b c show ?thesis by blast
qed

text \<open>
  The frame of the end-to-end scenario with an infinite wrist abscissa: an observation is
  delivered, with an infinite position and an orientation of NaNs.
\<close>

theorem infinite_wrist_not_rejected:
  "onResults (1 / 1000000)
     (frame_of \<lparr>lx = PosInf, ly = Num (1/2), lz = Num 0\<rparr> (landmark_at (1/2) (3/10))
        (landmark_at (1/2) (1/20)))
   = Inr (Some \<lparr>position = \<lparr>vx = NegInf, vy = Num 0, vz = Num 0\<rparr>,
                rotation = \<lparr>qx = NaN, qy = NaN, qz = NaN, qw = NaN\<rparr>, gesture = FIST\<rparr>)"
  by (simp add: onResults_hand [OF frame_of_shape] landmark_at_def gesture_special
        Vector3_normalize_def Vector3_divideScalar_def
        Vector3_multiplyScalar_def Vector3_length_def js_or_def Quaternion_setFromUnitVectors_def
        Vector3_dot_def Quaternion_normalize_def Quaternion_length_def strict_eq_def Let_def)

text \<open>
  C4, as the code has it. For a hand whose wrist and base knuckle have their coordinates
  in the unit interval, the orientation has length 1 (so within 1e-6 of 1) and four
  finite components; and when wrist and knuckle coincide it is the identity, which is
  also what aligning the up axis (0,1,0) with itself gives. The threshold of
  \<open>setFromUnitVectors\<close> is at most 1 in every release of the library. For a coordinate that
  is not a number the property does not hold.
\<close>

theorem orientation_unit:
  assumes "multiHandLandmarks results = Some (lms # rest)" and "12 < length lms"
    and "lx (lms ! 0) = Num wx" and "ly (lms ! 0) = Num wy"
    and "lx (lms ! 9) = Num mx" and "ly (lms ! 9) = Num my"
    and "0 \<le> wx" and "wx \<le> 1" and "0 \<le> wy" and "wy \<le> 1"
    and "0 \<le> mx" and "mx \<le> 1" and "0 \<le> my" and "my \<le> 1"
  shows "\<exists>h. onResults eps results = Inr (Some h) \<and>
           Quaternion_length (rotation h) = Num 1 \<and> Quaternion_finite (rotation h) \<and>
           (mx = wx \<and> my = wy \<and> eps \<le> 1 \<longrightarrow>
              rotation h = Quaternion_identity \<and>
              rotation h = Quaternion_setFromUnitVectors eps \<lparr>vx = Num 0, vy = Num 1, vz = Num 0\<rparr>
                             \<lparr>vx = Num 0, vy = Num 1, vz = Num 0\<rparr>)"
  using assms(3-6)
  by (simp add: onResults_hand [OF assms(1,2)] jsub_def normalize_finite
        setFromUnitVectors_up_unit setFromUnitVectors_up_zero setFromUnitVectors_up_up)

theorem orientation_unit_witness:
  "\<exists>h. onResults (1 / 1000000)
          (frame_of (landmark_at (1/2) (1/2)) (landmark_at (1/2) (1/2)) (landmark_at (1/2) (1/20)))
        = Inr (Some h) \<and>
       Quaternion_length (rotation h) = Num 1 \<and> Quaternion_finite (rotation h) \<and>
       rotation h = Quaternion_identity"
proof -
  let ?W = "landmark_at (1/2) (1/2)" and ?T = "landmark_at (1/2) (1/20)"
  have sh: "multiHandLandmarks (frame_of ?W ?W ?T) = Some (hand_of ?W ?W ?T # [])"
    "12 < length (hand_of ?W ?W ?T)"
    by (rule frame_of_shape)+
  from orientation_unit [OF sh, of "1/2" "1/2" "1/2" "1/2" "1 / 1000000"]
  show ?thesis by (auto simp add: landmark_at_def)
qed

text \<open>
  The frame of the end-to-end scenario with a NaN wrist abscissa produces an observation
  whose orientation is four NaNs: neither of unit length nor free of NaN.
\<close>

theorem nan_wrist_orientation:
  "onResults (1 / 1000000)
     (frame_of \<lparr>lx = NaN, ly = Num (1/2), lz = Num 0\<rparr> (landmark_at (1/2) (3/10))
        (landmark_at (1/2) (1/20)))
   = Inr (Some \<lparr>position = \<lparr>vx = NaN, vy = Num 0, vz = Num 0\<rparr>,
                rotation = \<lparr>qx = NaN, qy = NaN, qz = NaN, qw = NaN\<rparr>, gesture = FIST\<rparr>)"
  by (simp add: onResults_hand [OF frame_of_shape] landmark_at_def gesture_special
        Vector3_normalize_def Vector3_divideScalar_def Vector3_multiplyScalar_def
        Vector3_length_def js_or_def Quaternion_setFromUnitVectors_def Vector3_dot_def
        Quaternion_normalize_def Quaternion_length_def strict_eq_def Let_def)

text \<open>
  C5. For a wrist with coordinates in the unit square the position is
  \<open>((1 - W.x) * 2 - 1, - (W.y * 2 - 1), 0)\<close>: abscissa 0 maps to 1, abscissa 1 to -1,
  abscissa 1/2 to 0, and the third component is always 0.
\<close>

theorem position_mapping:
  assumes "multiHandLandmarks results = Some (lms # rest)" and "12 < length lms"
    and "lx (lms ! 0) = Num wx" and "ly (lms ! 0) = Num wy"
    and "0 \<le> wx" and "wx \<le> 1" and "0 \<le> wy" and "wy \<le> 1"
  shows "\<exists>h. onResults eps results = Inr (Some h) \<and>
           position h = \<lparr>vx = Num ((1 - wx) * 2 - 1), vy = Num (- (wy * 2 - 1)), vz = Num 0\<rparr>"
  using assms(3,4) by (simp add: onResults_hand [OF assms(1,2)] jsub_def)

theorem position_mapping_witness:
  "(\<exists>h. onResults (1 / 1000000) (frame_of (landmark_at 0 0) (landmark_at 0 0) (landmark_at 0 0))
          = Inr (Some h) \<and> position h = \<lparr>vx = Num 1, vy = Num 1, vz = Num 0\<rparr>) \<and>
   (\<exists>h. onResults (1 / 1000000) (frame_of (landmark_at 1 1) (landmark_at 0 0) (landmark_at 0 0))
          = Inr (Some h) \<and> position h = \<lparr>vx = Num (- 1), vy = Num (- 1), vz = Num 0\<rparr>) \<and>
   (\<exists>h. onResults (1 / 1000000)
          (frame_of (landmark_at (1/2) (1/2)) (landmark_at 0 0) (landmark_at 0 0))
          = Inr (Some h) \<and> position h = \<lparr>vx = Num 0, vy = Num 0, vz = Num 0\<rparr>)"
proof -
  let ?O = "landmark_at 0 0"
  have sh: "multiHandLandmarks (frame_of W ?O ?O) = Some (hand_of W ?O ?O # [])"
    "12 < length (hand_of W ?O ?O)" for W
    by (rule frame_of_shape)+
  from position_mapping [OF sh, of "landmark_at 0 0" 0 0 "1 / 1000000"]
    position_mapping [OF sh, of "landmark_at 1 1" 1 1 "1 / 1000000"]
    position_mapping [OF sh, of "landmark_at (1/2) (1/2)" "1/2" "1/2" "1 / 1000000"]
  show ?thesis by (auto simp add: landmark_at_def)
qed

text \<open>
  C9. Whatever the frame, a delivered observation carries the gesture OPEN or FIST,
  never UNKNOWN; and a frame without a hand (no landmark list, or an empty one) delivers
  no observation at all.
\<close>

theorem gesture_open_or_fist:
  "(onResults eps results = Inr (Some h) \<longrightarrow> gesture h = OPEN \<or> gesture h = FIST) \<and>
   (multiHandLandmarks results = None \<or> multiHandLandmarks results = Some [] \<longrightarrow>
      onResults eps results = Inr None)"
  by (auto simp: onResults_def Let_def split: option.splits if_splits)

theorem gesture_open_or_fist_witness:
  "(\<exists>h. onResults (1 / 1000000)
           (frame_of (landmark_at (1/2) (1/2)) (landmark_at (1/2) (3/10))
              (landmark_at (1/2) (1/20)))
         = Inr (Some h) \<and> (gesture h = OPEN \<or> gesture h = FIST)) \<and>
   onResults (1 / 1000000) \<lparr>multiHandLandmarks = None\<rparr> = Inr None \<and>
   onResults (1 / 1000000) \<lparr>multiHandLandmarks = Some []\<rparr> = Inr None"
proof -
  let ?F = "frame_of (landmark_at (1/2) (1/2)) (landmark_at (1/2) (3/10)) (landmark_at (1/2) (1/20))"
  let ?h = "\<lparr>position = \<lparr>vx = Num 0, vy = Num 0, vz = Num 0\<rparr>,
             rotation = Quaternion_identity, gesture = OPEN\<rparr>"
  have ex: "onResults (1 / 1000000) ?F = Inr (Some ?h)"
    by (rule example_observation)
  from gesture_open_or_fist [of "1 / 1000000" ?F ?h] ex
  have a: "gesture ?h = OPEN \<or> gesture ?h = FIST" by blast
  from gesture_open_or_fist [of "1 / 1000000" "\<lparr>multiHandLandmarks = None\<rparr>"]
  have b: "onResults (1 / 1000000) \<lparr>multiHandLandmarks = None\<rparr> = Inr None" by simp
  from gesture_open_or_fist [of "1 / 1000000" "\<lparr>multiHandLandmarks = Some []\<rparr>"]
  have c: "onResults (1 / 1000000) \<lparr>multiHandLandmarks = Some []\<rparr> = Inr None" by simp
  from ex a b c show ?thesis by blast
qed

section \<open>Properties of the Pose Stabilizer\<close>

lemma Vector3_lerp_Num:
  "Vector3_lerp \<lparr>vx = Num a, vy = Num b, vz = Num c\<rparr> \<lparr>vx = Num a', vy = Num b', vz = Num c'\<rparr> (Num k)
     = \<lparr>vx = Num (a + (a' - a) * k), vy = Num (b + (b' - b) * k), vz = Num (c + (c' - c) * k)\<rparr>"
  by (simp add: Vector3_lerp_def jsub_def)

lemma rig_tick_absent:
  "handData t = None \<or> (\<exists>h. handData t = Some h \<and> gesture h \<noteq> OPEN) \<Longrightarrow>
   rig (render_tick t s) = rig s"
  by (auto simp: render_tick_def CreateRig_useFrame_def split: option.splits)

lemma shield_tick_inactive:
  assumes "groupRef sh = Some g" and "g_scale g = \<lparr>vx = Num a, vy = Num b, vz = Num c\<rparr>"
  shows "Shield_useFrame False e d sh =
     (if a * (9 / 10) < 1 / 100
      then sh\<lparr>groupRef := Some (g\<lparr>g_scale := \<lparr>vx = Num (a * (9 / 10)), vy = Num (b * (9 / 10)), vz = Num (c * (9 / 10))\<rparr>,
                                  g_visible := False\<rparr>)\<rparr>
      else sh\<lparr>groupRef := Some (g\<lparr>g_scale := \<lparr>vx = Num (a * (9 / 10)), vy = Num (b * (9 / 10)), vz = Num (c * (9 / 10))\<rparr>,
                                  g_visible := True\<rparr>),
              innerRef := map_option
                   (\<lambda>p. p\<lparr>rotation_z := jsub (rotation_z p) (jmul d (Num (5 / 10)))\<rparr>)
                   (innerRef sh),
              middleRef := map_option
                   (\<lambda>p. p\<lparr>rotation_z := jadd (rotation_z p) (jmul d (Num (3 / 10)))\<rparr>)
                   (middleRef sh),
              outerRef := map_option
                   (\<lambda>p. p\<lparr>rotation_z := jsub (rotation_z p) (jmul d (Num (1 / 10))),
                         rotation_x := jmul (Math_sin e) (Num (1 / 10))\<rparr>)
                   (outerRef sh)\<rparr>)"
proof -
  have "a + (0 - a) * (1 / 10) = a * (9 / 10)" "b + (0 - b) * (1 / 10) = b * (9 / 10)"
    "c + (0 - c) * (1 / 10) = c * (9 / 10)" by simp_all
  then show ?thesis using assms
    by (simp add: Shield_useFrame_def Let_def Vector3_lerp_Num)
qed

lemma shield_tick_inactive_group:
  assumes "groupRef sh = Some g" and "g_scale g = \<lparr>vx = Num a, vy = Num b, vz = Num c\<rparr>"
  shows "\<exists>g'. groupRef (Shield_useFrame False e d sh) = Some g' \<and>
           g_scale g' = \<lparr>vx = Num (a * (9 / 10)), vy = Num (b * (9 / 10)), vz = Num (c * (9 / 10))\<rparr> \<and>
           g_visible g' = (\<not> a * (9 / 10) < 1 / 100) \<and>
           g_position g' = g_position g \<and> g_quaternion g' = g_quaternion g"
  by (simp add: shield_tick_inactive [OF assms])

lemma geometric_small:
  fixes a e r :: real
  assumes "0 < e" and "0 \<le> r" and "r < 1"
  shows "\<exists>N. \<forall>n\<ge>N. \<bar>a * r ^ n\<bar> < e"
proof -
  have "0 < e / (\<bar>a\<bar> + 1)" using assms(1) by simp
  then obtain N where N: "r ^ N < e / (\<bar>a\<bar> + 1)"
    using real_arch_pow_inv [of "e / (\<bar>a\<bar> + 1)" r] assms(3) by auto
  have "\<bar>a * r ^ n\<bar> < e" if "N \<le> n" for n
  proof -
    have "r ^ n \<le> r ^ N"
      using that assms(2,3) by (intro power_decreasing) simp_all
    then have "r ^ n < e / (\<bar>a\<bar> + 1)" using N by linarith
    then have "(\<bar>a\<bar> + 1) * r ^ n < e"
      by (simp add: pos_less_divide_eq mult.commute)
    moreover have "\<bar>a\<bar> * r ^ n \<le> (\<bar>a\<bar> + 1) * r ^ n"
      using assms(2) by (intro mult_right_mono) simp_all
    ultimately have "\<bar>a\<bar> * r ^ n < e" by linarith
    then show ?thesis using assms(2) by (simp add: abs_mult)
  qed
  then show ?thesis by blast
qed

lemma absent_ticks:
  assumes "\<forall>t\<in>set ts. handData t = None \<and> \<not> visibleProp t"
    and "groupRef (shield s) = Some g"
    and "g_scale g = \<lparr>vx = Num a, vy = Num b, vz = Num c\<rparr>"
  shows "rig (render_ticks ts s) = rig s \<and>
         (\<exists>g'. groupRef (shield (render_ticks ts s)) = Some g' \<and>
            g_scale g' = \<lparr>vx = Num (a * (9 / 10) ^ length ts), vy = Num (b * (9 / 10) ^ length ts),
                          vz = Num (c * (9 / 10) ^ length ts)\<rparr> \<and>
            (ts \<noteq> [] \<longrightarrow> g_visible g' = (\<not> a * (9 / 10) ^ length ts < 1 / 100)) \<and>
            g_position g' = g_position g \<and> g_quaternion g' = g_quaternion g)"
  using assms
proof (induction ts arbitrary: s g a b c)
  case Nil
  then show ?case by simp
next
  case (Cons t ts)
  let ?s1 = "render_tick t s"
  from Cons.prems(1) have none: "handData t = None" and hid: "\<not> visibleProp t"
    and rest: "\<forall>t\<in>set ts. handData t = None \<and> \<not> visibleProp t"
    by simp_all
  have rig1: "rig ?s1 = rig s" using none by (simp add: rig_tick_absent)
  have sh1: "shield ?s1 = Shield_useFrame False (elapsedTime t) (delta t) (shield s)"
    using hid by (simp add: render_tick_def)
  from shield_tick_inactive_group [OF Cons.prems(2,3), of "elapsedTime t" "delta t"]
  obtain g1 where g1: "groupRef (shield ?s1) = Some g1"
    "g_scale g1 = \<lparr>vx = Num (a * (9 / 10)), vy = Num (b * (9 / 10)), vz = Num (c * (9 / 10))\<rparr>"
    "g_visible g1 = (\<not> a * (9 / 10) < 1 / 100)"
    "g_position g1 = g_position g" "g_quaternion g1 = g_quaternion g"
    unfolding sh1 by blast
  from Cons.IH [OF rest g1(1,2)]
  obtain g' where g': "rig (render_ticks ts ?s1) = rig ?s1"
    "groupRef (shield (render_ticks ts ?s1)) = Some g'"
    "g_scale g' = \<lparr>vx = Num (a * (9 / 10) * (9 / 10) ^ length ts),
                    vy = Num (b * (9 / 10) * (9 / 10) ^ length ts),
                    vz = Num (c * (9 / 10) * (9 / 10) ^ length ts)\<rparr>"
    "ts \<noteq> [] \<longrightarrow> g_visible g' = (\<not> a * (9 / 10) * (9 / 10) ^ length ts < 1 / 100)"
    "g_position g' = g_position g1" "g_quaternion g' = g_quaternion g1"
    by blast
  have vis: "g_visible g' = (\<not> a * (9 / 10) * (9 / 10) ^ length ts < 1 / 100)"
  proof (cases ts)
    case Nil
    with g'(2) g1(1,3) show ?thesis by simp
  next
    case (Cons u us)
    with g'(4) show ?thesis by simp
  qed
  show ?case
    using g'(1,2,3,5,6) g1(4,5) rig1 vis by (simp add: mult.assoc)
qed

lemma rig_absent_ticks:
  "\<forall>t\<in>set ts. handData t = None \<Longrightarrow> rig (render_ticks ts s) = rig s"
  by (induction ts arbitrary: s) (simp_all add: rig_tick_absent)

lemma slerp_identity_identity:
  "Quaternion_slerp Quaternion_identity Quaternion_identity (Num (1 / 10)) = Quaternion_identity"
  by (simp add: Quaternion_slerp_def Quaternion_identity_def Quaternion_dot_def strict_eq_def
        Let_def jge_def)

lemma open_tick_initial:
  "rig (render_tick open_tick initial_scene) =
     \<lparr>shieldGroupRef = Some \<lparr>g_visible = True,
                             g_position = \<lparr>vx = Num (1 / 2), vy = Num (19 / 50), vz = Num 0\<rparr>,
                             g_quaternion = Quaternion_identity, g_scale = Vector3_one\<rparr>,
      smoothedPosition = \<lparr>vx = Num (1 / 2), vy = Num (19 / 50), vz = Num 0\<rparr>,
      smoothedRotation = Quaternion_identity\<rparr>"
  by (simp add: render_tick_def open_tick_def initial_scene_def CreateRig_useFrame_def Let_def
        example_viewport_def Vector3_zero_def Vector3_lerp_Num slerp_identity_identity)

text \<open>
  After one tick with an open hand at the corner of the frame, a thousand ticks without
  a hand leave the smoothed position where it was: it does not approach the origin.
\<close>

theorem absent_hand_position_stays:
  "smoothedPosition (rig (render_ticks (replicate 1000 absent_tick)
                            (render_tick open_tick initial_scene)))
     = \<lparr>vx = Num (1 / 2), vy = Num (19 / 50), vz = Num 0\<rparr>"
  by (simp add: rig_absent_ticks absent_tick_def open_tick_initial)

lemma power_44_small: "p \<le> 1 \<Longrightarrow> 44 \<le> n \<Longrightarrow> p * (9 / 10) ^ n < (1 / 100 :: real)"
proof -
  assume p: "p \<le> 1" and n: "44 \<le> n"
  have "(9 / 10 :: real) ^ n \<le> (9 / 10) ^ 44"
    using n by (intro power_decreasing) simp_all
  moreover have "(9 / 10 :: real) ^ 44 < 1 / 100" by (simp add: power_divide)
  moreover have "p * (9 / 10) ^ n \<le> 1 * (9 / 10) ^ n"
    using p by (intro mult_right_mono) simp_all
  ultimately show ?thesis by linarith
qed

text \<open>
  C2, as the code has it. Over ticks without a hand the smoothed position
  and the smoothed orientation stay exactly what they were (so they never diverge, and
  they are at the origin and the identity only if they were there already), while the
  shield's scale, the activation, is multiplied by 9/10 on every tick: from a scale of at
  most 1 it is under the cutoff 0.01, with the shield hidden, after 44 ticks, and it
  comes under any positive bound after finitely many ticks.
\<close>

theorem absent_hand_ticks:
  assumes "groupRef (shield s) = Some g"
    and "g_scale g = \<lparr>vx = Num a, vy = Num b, vz = Num c\<rparr>"
  shows "(\<forall>ts. (\<forall>t\<in>set ts. hand_absent t) \<longrightarrow>
            smoothedPosition (rig (render_ticks ts s)) = smoothedPosition (rig s) \<and>
            smoothedRotation (rig (render_ticks ts s)) = smoothedRotation (rig s) \<and>
            (\<exists>g'. groupRef (shield (render_ticks ts s)) = Some g' \<and>
               g_scale g' = \<lparr>vx = Num (a * (9 / 10) ^ length ts),
                             vy = Num (b * (9 / 10) ^ length ts),
                             vz = Num (c * (9 / 10) ^ length ts)\<rparr> \<and>
               (a \<le> 1 \<and> 44 \<le> length ts \<longrightarrow>
                  a * (9 / 10) ^ length ts < 1 / 100 \<and> \<not> g_visible g'))) \<and>
         (\<forall>e>0. \<exists>N. \<forall>ts. (\<forall>t\<in>set ts. hand_absent t) \<and> N \<le> length ts \<longrightarrow>
            (\<exists>g' x. groupRef (shield (render_ticks ts s)) = Some g' \<and>
               vx (g_scale g') = Num x \<and> \<bar>x\<bar> < e))"
proof (intro conjI allI impI)
  fix ts :: "Tick list" assume "\<forall>t\<in>set ts. hand_absent t"
  then have none: "\<forall>t\<in>set ts. handData t = None \<and> \<not> visibleProp t"
    by (simp add: hand_absent_def Shield_visible_prop_def)
  from absent_ticks [OF none assms]
  obtain g' where g': "rig (render_ticks ts s) = rig s"
    "groupRef (shield (render_ticks ts s)) = Some g'"
    "g_scale g' = \<lparr>vx = Num (a * (9 / 10) ^ length ts), vy = Num (b * (9 / 10) ^ length ts),
                    vz = Num (c * (9 / 10) ^ length ts)\<rparr>"
    "ts \<noteq> [] \<longrightarrow> g_visible g' = (\<not> a * (9 / 10) ^ length ts < 1 / 100)"
    by blast
  show "smoothedPosition (rig (render_ticks ts s)) = smoothedPosition (rig s)"
    and "smoothedRotation (rig (render_ticks ts s)) = smoothedRotation (rig s)"
    using g'(1) by simp_all
  have "a * (9 / 10) ^ length ts < 1 / 100 \<and> \<not> g_visible g'"
    if "a \<le> 1 \<and> 44 \<le> length ts"
  proof -
    from that have small: "a * (9 / 10) ^ length ts < 1 / 100"
      using power_44_small [of a "length ts"] by blast
    from that have "ts \<noteq> []" by auto
    with g'(4) small show ?thesis by simp
  qed
  with g'(2,3)
  show "\<exists>g'. groupRef (shield (render_ticks ts s)) = Some g' \<and>
               g_scale g' = \<lparr>vx = Num (a * (9 / 10) ^ length ts),
                             vy = Num (b * (9 / 10) ^ length ts),
                             vz = Num (c * (9 / 10) ^ length ts)\<rparr> \<and>
               (a \<le> 1 \<and> 44 \<le> length ts \<longrightarrow>
                  a * (9 / 10) ^ length ts < 1 / 100 \<and> \<not> g_visible g')"
    by blast
next
  fix e :: real assume "0 < e"
  then obtain N where N: "\<forall>n\<ge>N. \<bar>a * (9 / 10) ^ n\<bar> < e"
    using geometric_small [of e "9 / 10" a] by auto
  have "\<exists>g' x. groupRef (shield (render_ticks ts s)) = Some g' \<and> vx (g_scale g') = Num x \<and> \<bar>x\<bar> < e"
    if "(\<forall>t\<in>set ts. hand_absent t) \<and> N \<le> length ts" for ts :: "Tick list"
  proof -
    from that have none: "\<forall>t\<in>set ts. handData t = None \<and> \<not> visibleProp t"
      and len: "N \<le> length ts"
      by (simp_all add: hand_absent_def Shield_visible_prop_def)
    from absent_ticks [OF none assms]
    obtain g' where "groupRef (shield (render_ticks ts s)) = Some g'"
      "vx (g_scale g') = Num (a * (9 / 10) ^ length ts)"
      by auto
    with N len show ?thesis by blast
  qed
  then show "\<exists>N. \<forall>ts. (\<forall>t\<in>set ts. hand_absent t) \<and> N \<le> length ts \<longrightarrow>
            (\<exists>g' x. groupRef (shield (render_ticks ts s)) = Some g' \<and>
               vx (g_scale g') = Num x \<and> \<bar>x\<bar> < e)"
    by blast
qed

theorem absent_hand_ticks_witness:
  "smoothedPosition (rig (render_ticks (replicate 44 absent_tick) initial_scene)) = Vector3_zero \<and>
   smoothedRotation (rig (render_ticks (replicate 44 absent_tick) initial_scene))
     = Quaternion_identity \<and>
   (\<exists>g'. groupRef (shield (render_ticks (replicate 44 absent_tick) initial_scene)) = Some g' \<and>
      g_scale g' = \<lparr>vx = Num ((9 / 10) ^ 44), vy = Num ((9 / 10) ^ 44), vz = Num ((9 / 10) ^ 44)\<rparr> \<and>
      \<not> g_visible g')"
proof -
  let ?g = "\<lparr>g_visible = True, g_position = Vector3_zero, g_quaternion = Quaternion_identity,
             g_scale = Vector3_one\<rparr>"
  have m: "groupRef (shield initial_scene) = Some ?g"
    and sc: "g_scale ?g = \<lparr>vx = Num 1, vy = Num 1, vz = Num 1\<rparr>"
    by (simp_all add: initial_scene_def Vector3_one_def)
  have none: "\<forall>t\<in>set (replicate 44 absent_tick). hand_absent t"
    by (simp add: absent_tick_def hand_absent_def Shield_visible_prop_def)
  have p0: "smoothedPosition (rig initial_scene) = Vector3_zero"
    and r0: "smoothedRotation (rig initial_scene) = Quaternion_identity"
    by (simp_all add: initial_scene_def)
  from absent_hand_ticks [OF m sc, THEN conjunct1, THEN spec, THEN mp, OF none]
  show ?thesis unfolding p0 r0 by auto
qed

text \<open>
  C10, as the code has it. On a tick whose observation is absent or a FIST, the rig is
  exactly what it was: the smoothed position, the smoothed orientation and the rig's
  group. The shield's group keeps its position and quaternion. The scale is not all that
  the tick writes: the \<open>Shield\<close> callback takes the scale one lerp step towards the
  target that its prop gives, sets the group's visible flag (to false when the x
  component of the new scale is under 0.01 and the prop is false, to true otherwise)
  and, unless it has just hidden the group, turns the three rings. With no shield group mounted, the shield is left as
  it was.
\<close>

theorem inactive_tick_keeps_pose:
  assumes "handData t = None \<or> (\<exists>h. handData t = Some h \<and> gesture h = FIST)"
  shows "smoothedPosition (rig (render_tick t s)) = smoothedPosition (rig s) \<and>
         smoothedRotation (rig (render_tick t s)) = smoothedRotation (rig s) \<and>
         shieldGroupRef (rig (render_tick t s)) = shieldGroupRef (rig s) \<and>
         (groupRef (shield s) = None \<longrightarrow> shield (render_tick t s) = shield s) \<and>
         (\<forall>g. groupRef (shield s) = Some g \<longrightarrow>
            (let scaled = Vector3_lerp (g_scale g)
                            (if visibleProp t then Vector3_one else Vector3_zero) (Num (1 / 10));
                 hidden = (jlt (vx scaled) (Num (1 / 100)) \<and> \<not> visibleProp t)
             in groupRef (shield (render_tick t s)) =
                  Some \<lparr>g_visible = \<not> hidden, g_position = g_position g,
                        g_quaternion = g_quaternion g, g_scale = scaled\<rparr> \<and>
                (hidden \<longrightarrow>
                   innerRef (shield (render_tick t s)) = innerRef (shield s) \<and>
                   middleRef (shield (render_tick t s)) = middleRef (shield s) \<and>
                   outerRef (shield (render_tick t s)) = outerRef (shield s)) \<and>
                (\<not> hidden \<longrightarrow>
                   innerRef (shield (render_tick t s)) =
                     map_option
                       (\<lambda>p. p\<lparr>rotation_z := jsub (rotation_z p) (jmul (delta t) (Num (5 / 10)))\<rparr>)
                       (innerRef (shield s)) \<and>
                   middleRef (shield (render_tick t s)) =
                     map_option
                       (\<lambda>p. p\<lparr>rotation_z := jadd (rotation_z p) (jmul (delta t) (Num (3 / 10)))\<rparr>)
                       (middleRef (shield s)) \<and>
                   outerRef (shield (render_tick t s)) =
                     map_option
                       (\<lambda>p. p\<lparr>rotation_z := jsub (rotation_z p) (jmul (delta t) (Num (1 / 10))),
                             rotation_x := jmul (Math_sin (elapsedTime t)) (Num (1 / 10))\<rparr>)
                       (outerRef (shield s)))))"
proof -
  from assms have "handData t = None \<or> (\<exists>h. handData t = Some h \<and> gesture h \<noteq> OPEN)"
    by auto
  then have r: "rig (render_tick t s) = rig s" by (rule rig_tick_absent)
  have n: "groupRef (shield s) = None \<longrightarrow> shield (render_tick t s) = shield s"
    by (simp add: render_tick_def Shield_useFrame_def)
  have m: "let scaled = Vector3_lerp (g_scale g)
                            (if visibleProp t then Vector3_one else Vector3_zero) (Num (1 / 10));
                 hidden = (jlt (vx scaled) (Num (1 / 100)) \<and> \<not> visibleProp t)
             in groupRef (shield (render_tick t s)) =
                  Some \<lparr>g_visible = \<not> hidden, g_position = g_position g,
                        g_quaternion = g_quaternion g, g_scale = scaled\<rparr> \<and>
                (hidden \<longrightarrow>
                   innerRef (shield (render_tick t s)) = innerRef (shield s) \<and>
                   middleRef (shield (render_tick t s)) = middleRef (shield s) \<and>
                   outerRef (shield (render_tick t s)) = outerRef (shield s)) \<and>
                (\<not> hidden \<longrightarrow>
                   innerRef (shield (render_tick t s)) =
                     map_option
                       (\<lambda>p. p\<lparr>rotation_z := jsub (rotation_z p) (jmul (delta t) (Num (5 / 10)))\<rparr>)
                       (innerRef (shield s)) \<and>
                   middleRef (shield (render_tick t s)) =
                     map_option
                       (\<lambda>p. p\<lparr>rotation_z := jadd (rotation_z p) (jmul (delta t) (Num (3 / 10)))\<rparr>)
                       (middleRef (shield s)) \<and>
                   outerRef (shield (render_tick t s)) =
                     map_option
                       (\<lambda>p. p\<lparr>rotation_z := jsub (rotation_z p) (jmul (delta t) (Num (1 / 10))),
                             rotation_x := jmul (Math_sin (elapsedTime t)) (Num (1 / 10))\<rparr>)
                       (outerRef (shield s)))"
    if "groupRef (shield s) = Some g" for g
    using that
    by (cases g)
       (simp add: render_tick_def Shield_useFrame_def Let_def Vector3_zero_def Vector3_one_def)
  from r n m show ?thesis by simp
qed

text \<open>
  A FIST tick and a tick without a hand, after an OPEN tick on the scene as mounted:
  the smoothed pose stays where the OPEN tick put it, the scale goes from 1 to 0.9 and
  the rings turn.
\<close>

theorem inactive_tick_keeps_pose_witness:
  "smoothedPosition (rig (render_tick fist_tick (render_tick open_tick initial_scene))) =
     \<lparr>vx = Num (1 / 2), vy = Num (19 / 50), vz = Num 0\<rparr> \<and>
   smoothedRotation (rig (render_tick fist_tick (render_tick open_tick initial_scene))) =
     Quaternion_identity \<and>
   smoothedPosition (rig (render_tick absent_tick (render_tick open_tick initial_scene))) =
     \<lparr>vx = Num (1 / 2), vy = Num (19 / 50), vz = Num 0\<rparr> \<and>
   smoothedRotation (rig (render_tick absent_tick (render_tick open_tick initial_scene))) =
     Quaternion_identity \<and>
   groupRef (shield (render_tick absent_tick initial_scene)) =
     Some \<lparr>g_visible = True, g_position = Vector3_zero, g_quaternion = Quaternion_identity,
           g_scale = \<lparr>vx = Num (9 / 10), vy = Num (9 / 10), vz = Num (9 / 10)\<rparr>\<rparr> \<and>
   middleRef (shield (render_tick absent_tick initial_scene)) =
     Some \<lparr>rotation_x = Num 0, rotation_z = Num (1 / 200)\<rparr>"
proof -
  let ?g = "\<lparr>g_visible = True, g_position = Vector3_zero, g_quaternion = Quaternion_identity,
             g_scale = Vector3_one\<rparr>"
  have f: "handData fist_tick = None \<or> (\<exists>h. handData fist_tick = Some h \<and> gesture h = FIST)"
    by (simp add: fist_tick_def)
  have a: "handData absent_tick = None \<or> (\<exists>h. handData absent_tick = Some h \<and> gesture h = FIST)"
    by (simp add: absent_tick_def)
  have g: "groupRef (shield initial_scene) = Some ?g" by (simp add: initial_scene_def)
  from inactive_tick_keeps_pose [OF f, of "render_tick open_tick initial_scene"]
    inactive_tick_keeps_pose [OF a, of "render_tick open_tick initial_scene"]
  have p: "smoothedPosition (rig (render_tick fist_tick (render_tick open_tick initial_scene))) =
     \<lparr>vx = Num (1 / 2), vy = Num (19 / 50), vz = Num 0\<rparr> \<and>
   smoothedRotation (rig (render_tick fist_tick (render_tick open_tick initial_scene))) =
     Quaternion_identity \<and>
   smoothedPosition (rig (render_tick absent_tick (render_tick open_tick initial_scene))) =
     \<lparr>vx = Num (1 / 2), vy = Num (19 / 50), vz = Num 0\<rparr> \<and>
   smoothedRotation (rig (render_tick absent_tick (render_tick open_tick initial_scene))) =
     Quaternion_identity"
    by (simp add: open_tick_initial)
  from inactive_tick_keeps_pose [OF a, of initial_scene, THEN conjunct2, THEN conjunct2,
      THEN conjunct2, THEN conjunct2, THEN spec, THEN mp, OF g]
  have "groupRef (shield (render_tick absent_tick initial_scene)) =
     Some \<lparr>g_visible = True, g_position = Vector3_zero, g_quaternion = Quaternion_identity,
           g_scale = \<lparr>vx = Num (9 / 10), vy = Num (9 / 10), vz = Num (9 / 10)\<rparr>\<rparr> \<and>
   middleRef (shield (render_tick absent_tick initial_scene)) =
     Some \<lparr>rotation_x = Num 0, rotation_z = Num (1 / 200)\<rparr>"
    by (simp add: Let_def absent_tick_def initial_scene_def Vector3_one_def Vector3_zero_def
          Vector3_lerp_def jsub_def)
  with p show ?thesis by simp
qed

text \<open>
  On the scene as mounted, a tick without a hand turns the inner ring (and the other
  two): the scale is not the only value that such a tick updates.
\<close>

theorem absent_tick_turns_rings:
  "handData absent_tick = None \<and>
   innerRef (shield initial_scene) = Some \<lparr>rotation_x = Num 0, rotation_z = Num 0\<rparr> \<and>
   innerRef (shield (render_tick absent_tick initial_scene)) =
     Some \<lparr>rotation_x = Num 0, rotation_z = Num (- (1 / 120))\<rparr>"
  by (simp add: absent_tick_def initial_scene_def render_tick_def Shield_useFrame_def Let_def
        Vector3_one_def Vector3_lerp_def jsub_def)

text \<open>
  C7, as the code has it. On a tick where the scale is under 0.01 and the target is not
  active (the prop being as rendered from the slot), the shield's group is hidden and
  the three rings are left as they were;
  the scale itself still takes its lerp step towards zero, as on every tick, the
  threshold being tested after that step.
\<close>

theorem cutoff_tick:
  assumes "groupRef (shield s) = Some g" and "vx (g_scale g) = Num a" and "a < 1 / 100"
    and "\<not> Shield_visible_prop (handData t)"
    and "visibleProp t = Shield_visible_prop (handData t)"
  shows "\<exists>g'. groupRef (shield (render_tick t s)) = Some g' \<and> \<not> g_visible g' \<and>
           innerRef (shield (render_tick t s)) = innerRef (shield s) \<and>
           middleRef (shield (render_tick t s)) = middleRef (shield s) \<and>
           outerRef (shield (render_tick t s)) = outerRef (shield s) \<and>
           g_scale g' = Vector3_lerp (g_scale g) Vector3_zero (Num (1 / 10)) \<and>
           vx (g_scale g') = Num (a * (9 / 10))"
proof -
  have "a + (0 - a) * (1 / 10) = a * (9 / 10)" by simp
  moreover from assms(3) have "a * (9 / 10) < 1 / 100" by linarith
  ultimately show ?thesis using assms(1,2,4,5)
    by (simp add: render_tick_def Shield_useFrame_def Let_def Vector3_zero_def Vector3_lerp_def
          jsub_def)
qed

lemma absent_ticks_initial:
  "0 < n \<Longrightarrow> groupRef (shield (render_ticks (replicate n absent_tick) initial_scene)) =
     Some \<lparr>g_visible = (\<not> (9 / 10) ^ n < (1 / 100 :: real)), g_position = Vector3_zero,
           g_quaternion = Quaternion_identity,
           g_scale = \<lparr>vx = Num ((9 / 10) ^ n), vy = Num ((9 / 10) ^ n), vz = Num ((9 / 10) ^ n)\<rparr>\<rparr>"
proof -
  assume n: "0 < n"
  let ?g = "\<lparr>g_visible = True, g_position = Vector3_zero, g_quaternion = Quaternion_identity,
             g_scale = Vector3_one\<rparr>"
  have m: "groupRef (shield initial_scene) = Some ?g"
    and sc: "g_scale ?g = \<lparr>vx = Num 1, vy = Num 1, vz = Num 1\<rparr>"
    by (simp_all add: initial_scene_def Vector3_one_def)
  have none: "\<forall>t\<in>set (replicate n absent_tick). handData t = None \<and> \<not> visibleProp t"
    by (simp add: absent_tick_def)
  from absent_ticks [OF none m sc] n
  obtain g' where g': "groupRef (shield (render_ticks (replicate n absent_tick) initial_scene)) = Some g'"
    "g_scale g' = \<lparr>vx = Num ((9 / 10) ^ n), vy = Num ((9 / 10) ^ n), vz = Num ((9 / 10) ^ n)\<rparr>"
    "g_visible g' = (\<not> (9 / 10) ^ n < (1 / 100 :: real))"
    "g_position g' = Vector3_zero" "g_quaternion g' = Quaternion_identity"
    by auto
  then show ?thesis by (cases g') simp
qed

theorem cutoff_tick_witness:
  "\<exists>g'. groupRef (shield (render_tick absent_tick
              (render_ticks (replicate 44 absent_tick) initial_scene))) = Some g' \<and>
        \<not> g_visible g' \<and> vx (g_scale g') = Num ((9 / 10) ^ 44 * (9 / 10)) \<and>
        innerRef (shield (render_tick absent_tick
              (render_ticks (replicate 44 absent_tick) initial_scene))) =
        innerRef (shield (render_ticks (replicate 44 absent_tick) initial_scene))"
proof -
  let ?s = "render_ticks (replicate 44 absent_tick) initial_scene"
  let ?g = "\<lparr>g_visible = (\<not> (9 / 10) ^ 44 < (1 / 100 :: real)), g_position = Vector3_zero,
           g_quaternion = Quaternion_identity,
           g_scale = \<lparr>vx = Num ((9 / 10) ^ 44), vy = Num ((9 / 10) ^ 44), vz = Num ((9 / 10) ^ 44)\<rparr>\<rparr>"
  have m: "groupRef (shield ?s) = Some ?g" by (rule absent_ticks_initial) simp
  have x: "vx (g_scale ?g) = Num ((9 / 10) ^ 44)" by simp
  have small: "(9 / 10 :: real) ^ 44 < 1 / 100" by (simp add: power_divide)
  have v: "\<not> Shield_visible_prop (handData absent_tick)"
    and c: "visibleProp absent_tick = Shield_visible_prop (handData absent_tick)"
    by (simp_all add: absent_tick_def Shield_visible_prop_def)
  from cutoff_tick [OF m x small v c] show ?thesis by blast
qed

text \<open>
  From the mounted scene, 44 ticks without a hand bring the scale to \<open>(9/10)^44\<close>, under
  the cutoff, and hide the shield; the 45th tick still changes the scale, to \<open>(9/10)^45\<close>.
\<close>

theorem cutoff_scale_still_smoothed:
  "groupRef (shield (render_ticks (replicate 44 absent_tick) initial_scene)) =
     Some \<lparr>g_visible = False, g_position = Vector3_zero, g_quaternion = Quaternion_identity,
           g_scale = \<lparr>vx = Num ((9 / 10) ^ 44), vy = Num ((9 / 10) ^ 44), vz = Num ((9 / 10) ^ 44)\<rparr>\<rparr> \<and>
   (9 / 10 :: real) ^ 44 < 1 / 100 \<and>
   groupRef (shield (render_ticks (replicate 45 absent_tick) initial_scene)) =
     Some \<lparr>g_visible = False, g_position = Vector3_zero, g_quaternion = Quaternion_identity,
           g_scale = \<lparr>vx = Num ((9 / 10) ^ 45), vy = Num ((9 / 10) ^ 45), vz = Num ((9 / 10) ^ 45)\<rparr>\<rparr> \<and>
   (9 / 10 :: real) ^ 45 \<noteq> (9 / 10) ^ 44"
proof -
  have s44: "(9 / 10 :: real) ^ 44 < 1 / 100" by (simp add: power_divide)
  have s45: "(9 / 10 :: real) ^ 45 < 1 / 100" by (simp add: power_divide)
  have ne: "(9 / 10 :: real) ^ 45 \<noteq> (9 / 10) ^ 44" by (simp add: power_divide)
  show ?thesis
    using absent_ticks_initial [of 44] absent_ticks_initial [of 45] s44 s45 ne
    by simp
qed

section \<open>Convergence of the smoothing steps\<close>

lemma arctan_le_self:
  fixes x :: real
  assumes "0 \<le> x"
  shows "arctan x \<le> x"
proof -
  have "0 - arctan 0 \<le> x - arctan x"
  proof (rule DERIV_nonneg_imp_nondecreasing [of 0 x "\<lambda>u. u - arctan u"])
    show "0 \<le> x" by fact
  next
    fix u :: real
    have "((\<lambda>u. u - arctan u) has_real_derivative (1 - inverse (1 + u\<^sup>2))) (at u)"
      by (auto intro!: derivative_eq_intros)
    moreover have "inverse (1 + u\<^sup>2) \<le> 1"
      by (simp add: inverse_le_1_iff)
    ultimately show "\<exists>y. ((\<lambda>u. u - arctan u) has_real_derivative y) (at u) \<and> 0 \<le> y"
      by (intro exI [of _ "1 - inverse (1 + u\<^sup>2)"]) simp
  qed
  then show ?thesis by simp
qed

lemma half_angle_facts:
  assumes "0 \<le> C" and "C < 1"
  shows "0 < half_angle C" and "half_angle C \<le> pi / 2"
    and "cos (half_angle C) = C" and "sin (half_angle C) = sqrt (1 - C * C)"
proof -
  let ?S = "sqrt (1 - C * C)"
  have "C * C \<le> C * 1" using assms by (intro mult_left_mono) simp_all
  then have CC: "C * C < 1" using assms by linarith
  then have Spos: "0 < ?S" by simp
  have S2: "?S * ?S = 1 - C * C" using CC by simp
  show "0 < half_angle C" "half_angle C \<le> pi / 2"
    "cos (half_angle C) = C" "sin (half_angle C) = ?S"
  proof -
    consider "C = 0" | "0 < C" using assms(1) by fastforce
    then have "0 < half_angle C \<and> half_angle C \<le> pi / 2 \<and>
       cos (half_angle C) = C \<and> sin (half_angle C) = ?S"
    proof cases
      case 1
      then show ?thesis by (simp add: half_angle_def atan2_real_def)
    next
      case 2
      have h: "half_angle C = arctan (?S / C)"
        using 2 assms(2) by (simp add: half_angle_def atan2_real_def)
      have "1 + (?S / C)\<^sup>2 = 1 / (C * C)"
        using 2 S2 by (simp add: power2_eq_square field_simps)
      then have "sqrt (1 + (?S / C)\<^sup>2) = 1 / C"
        using 2 by (simp add: real_sqrt_divide real_sqrt_mult)
      then have c: "cos (arctan (?S / C)) = C" and s: "sin (arctan (?S / C)) = ?S"
        using 2 by (simp_all add: cos_arctan sin_arctan)
      have "0 < ?S / C" using Spos 2 by simp
      then have "0 < arctan (?S / C)" by simp
      moreover have "arctan (?S / C) \<le> pi / 2" using arctan_ubound [of "?S / C"] by simp
      ultimately show ?thesis using h c s by simp
    qed
    then show "0 < half_angle C" "half_angle C \<le> pi / 2"
      "cos (half_angle C) = C" "sin (half_angle C) = ?S" by simp_all
  qed
qed

lemma chord_le_angle:
  assumes "0 \<le> C" and "C \<le> 1"
  shows "2 - 2 * C \<le> (half_angle C)\<^sup>2"
proof (cases "C = 1")
  case True
  then show ?thesis by (simp add: half_angle_def)
next
  case False
  with assms have lt: "C < 1" by simp
  let ?t = "half_angle C"
  have "C = cos (2 * (?t / 2))" using half_angle_facts(3) [OF assms(1) lt] by simp
  also have "\<dots> = 1 - 2 * (sin (?t / 2))\<^sup>2" by (rule cos_double_sin)
  finally have "2 - 2 * C = 4 * (sin (?t / 2))\<^sup>2" by simp
  moreover have "(sin (?t / 2))\<^sup>2 \<le> (?t / 2)\<^sup>2"
    using abs_sin_x_le_abs_x [of "?t / 2"] by (simp only: abs_le_square_iff)
  ultimately show ?thesis by (simp add: power2_eq_square)
qed

lemma trig_blend_unit:
  fixes su cu sv cv :: real
  assumes "su * su + cu * cu = 1" and "sv * sv + cv * cv = 1"
  shows "su * su + sv * sv + 2 * su * sv * (cu * cv - su * sv) = (su * cv + cu * sv) * (su * cv + cu * sv)"
proof -
  have cu: "cu * cu = 1 - su * su" and cv: "cv * cv = 1 - sv * sv" using assms by simp_all
  have "(su * cv + cu * sv) * (su * cv + cu * sv)
      = su * su * (cv * cv) + (cu * cu) * (sv * sv) + 2 * su * sv * (cu * cv)"
    by (simp add: algebra_simps)
  also have "\<dots> = su * su * (1 - sv * sv) + (1 - su * su) * (sv * sv) + 2 * su * sv * (cu * cv)"
    by (simp only: cu cv)
  also have "\<dots> = su * su + sv * sv + 2 * su * sv * (cu * cv - su * sv)"
    by (simp add: algebra_simps)
  finally show ?thesis by simp
qed

lemma slerp_ratios_trig:
  assumes "0 \<le> C" and "C < 1" and "\<not> 1 - C * C \<le> 1 / 2 ^ 52"
  defines "t \<equiv> half_angle C"
  shows "slerp_ratios C = (sin (9 / 10 * t) / sin t, sin (1 / 10 * t) / sin t)"
    and "0 < sin t" and "cos t = C" and "0 < t" and "t \<le> pi / 2"
  using assms half_angle_facts [OF assms(1,2)]
  by (simp_all add: slerp_ratios_def)

lemma slerp_cos_trig:
  assumes "0 \<le> C" and "C < 1" and "\<not> 1 - C * C \<le> 1 / 2 ^ 52"
  shows "slerp_cos C = cos (9 / 10 * half_angle C)"
proof -
  let ?t = "half_angle C"
  note f = slerp_ratios_trig [OF assms]
  have "sin (1 / 10 * ?t) = sin (?t - 9 / 10 * ?t)" by simp
  also have "\<dots> = sin ?t * cos (9 / 10 * ?t) - cos ?t * sin (9 / 10 * ?t)"
    by (rule sin_diff)
  finally have e: "sin (1 / 10 * ?t) = sin ?t * cos (9 / 10 * ?t) - C * sin (9 / 10 * ?t)"
    using f(3) by simp
  have "slerp_cos C = (sin (9 / 10 * ?t) * C + sin (1 / 10 * ?t)) / sin ?t"
    by (simp add: slerp_cos_def f(1) add_divide_distrib)
  also have "\<dots> = (sin ?t * cos (9 / 10 * ?t)) / sin ?t"
  proof -
    have "sin (9 / 10 * ?t) * C + sin (1 / 10 * ?t) = sin ?t * cos (9 / 10 * ?t)"
      unfolding e by (simp add: algebra_simps)
    then show ?thesis by (simp only:)
  qed
  also have "\<dots> = cos (9 / 10 * ?t)" using f(2) by simp
  finally show ?thesis .
qed

lemma slerp_ratios_nlerp:
  assumes "0 \<le> C" and "C < 1" and "1 - C * C \<le> 1 / 2 ^ 52"
  defines "N \<equiv> sqrt (82 / 100 + 18 / 100 * C)"
  shows "slerp_ratios C = (9 / 10 * (1 / N), 1 / 10 * (1 / N))"
    and "0 < N" and "N \<le> 1" and "N * N = 82 / 100 + 18 / 100 * C" and "89 / 90 \<le> C"
proof -
  show "slerp_ratios C = (9 / 10 * (1 / N), 1 / 10 * (1 / N))"
    using assms by (simp add: slerp_ratios_def)
  have pos: "0 < 82 / 100 + 18 / 100 * C" using assms(1) by simp
  then show "0 < N" by (simp add: N_def)
  have "82 / 100 + 18 / 100 * C \<le> 1" using assms(2) by simp
  then have "N \<le> sqrt 1" unfolding N_def by (rule real_sqrt_le_mono)
  then show "N \<le> 1" by simp
  show "N * N = 82 / 100 + 18 / 100 * C" using pos by (simp add: N_def)
  have "C * C \<le> C * 1" using assms(1,2) by (intro mult_left_mono) simp_all
  moreover have "(1 / 2 ^ 52 :: real) \<le> 1 / 90" by simp
  ultimately show "89 / 90 \<le> C" using assms(3) by linarith
qed

lemma slerp_ratios_nonneg:
  assumes "0 \<le> C"
  shows "0 \<le> fst (slerp_ratios C) \<and> 0 \<le> snd (slerp_ratios C)"
proof -
  consider "1 \<le> C" | "C < 1" "1 - C * C \<le> 1 / 2 ^ 52" | "C < 1" "\<not> 1 - C * C \<le> 1 / 2 ^ 52"
    by fastforce
  then show ?thesis
  proof cases
    case 1
    then show ?thesis by (simp add: slerp_ratios_def)
  next
    case 2
    from slerp_ratios_nlerp(1,2) [OF assms 2] show ?thesis by simp
  next
    case 3
    note f = slerp_ratios_trig [OF assms 3]
    let ?t = "half_angle C"
    have "pi / 2 \<le> pi" by simp
    have "0 \<le> sin (9 / 10 * ?t)" using f(4,5) pi_gt_zero by (intro sin_ge_zero) linarith+
    moreover have "0 \<le> sin (1 / 10 * ?t)" using f(4,5) pi_gt_zero by (intro sin_ge_zero) linarith+
    ultimately show ?thesis using f(2) by (simp add: f(1))
  qed
qed

lemma slerp_ratios_unit:
  assumes "0 \<le> C"
  defines "A \<equiv> fst (slerp_ratios C)" and "B \<equiv> snd (slerp_ratios C)"
  shows "A * A + B * B + 2 * A * B * C = 1"
proof -
  consider "1 \<le> C" | "C < 1" "1 - C * C \<le> 1 / 2 ^ 52" | "C < 1" "\<not> 1 - C * C \<le> 1 / 2 ^ 52"
    by fastforce
  then show ?thesis
  proof cases
    case 1
    then show ?thesis by (simp add: A_def B_def slerp_ratios_def)
  next
    case 2
    note f = slerp_ratios_nlerp [OF assms(1) 2]
    define k where "k = 1 / sqrt (82 / 100 + 18 / 100 * C)"
    have kk: "k * k = 1 / (82 / 100 + 18 / 100 * C)"
      using f(2,4) by (simp add: k_def)
    have ab: "A = 9 / 10 * k" "B = 1 / 10 * k" by (simp_all add: A_def B_def f(1) k_def)
    have "A * A + B * B + 2 * A * B * C = (82 / 100 + 18 / 100 * C) * (k * k)"
      unfolding ab by (simp add: algebra_simps)
    also have "\<dots> = 1" using f(2,4) by (simp add: kk)
    finally show ?thesis .
  next
    case 3
    note f = slerp_ratios_trig [OF assms(1) 3]
    let ?t = "half_angle C"
    let ?su = "sin (9 / 10 * ?t)" and ?cu = "cos (9 / 10 * ?t)"
    let ?sv = "sin (1 / 10 * ?t)" and ?cv = "cos (1 / 10 * ?t)"
    have sum: "9 / 10 * ?t + 1 / 10 * ?t = ?t" by simp
    have st: "sin ?t = ?su * ?cv + ?cu * ?sv"
      using sin_add [of "9 / 10 * ?t" "1 / 10 * ?t"] by (simp only: sum)
    have ct: "C = ?cu * ?cv - ?su * ?sv"
      using cos_add [of "9 / 10 * ?t" "1 / 10 * ?t"] f(3) by (simp only: sum)
    have "?su * ?su + ?sv * ?sv + 2 * ?su * ?sv * (?cu * ?cv - ?su * ?sv)
        = (?su * ?cv + ?cu * ?sv) * (?su * ?cv + ?cu * ?sv)"
      by (rule trig_blend_unit)
         (simp_all only: sin_cos_squared_add [unfolded power2_eq_square])
    then have num: "?su * ?su + ?sv * ?sv + 2 * ?su * ?sv * C = sin ?t * sin ?t"
      by (simp only: st [symmetric] ct [symmetric])
    define k where "k = 1 / sin ?t"
    have kk: "sin ?t * sin ?t * (k * k) = 1" using f(2) by (simp add: k_def)
    have ab: "A = ?su * k" "B = ?sv * k" by (simp_all add: A_def B_def f(1) k_def)
    have "A * A + B * B + 2 * A * B * C = (?su * ?su + ?sv * ?sv + 2 * ?su * ?sv * C) * (k * k)"
      unfolding ab by (simp add: algebra_simps)
    also have "\<dots> = 1" by (simp only: num kk)
    finally show ?thesis .
  qed
qed

lemma slerp_cos_mono:
  assumes "0 \<le> C" and "C \<le> 1"
  shows "C \<le> slerp_cos C"
proof -
  consider "1 \<le> C" | "C < 1" "1 - C * C \<le> 1 / 2 ^ 52" | "C < 1" "\<not> 1 - C * C \<le> 1 / 2 ^ 52"
    by fastforce
  then show ?thesis
  proof cases
    case 1
    then show ?thesis by (simp add: slerp_cos_def slerp_ratios_def)
  next
    case 2
    note f = slerp_ratios_nlerp [OF assms(1) 2]
    let ?N = "sqrt (82 / 100 + 18 / 100 * C)"
    have c: "slerp_cos C = (9 / 10 * C + 1 / 10) / ?N"
      by (simp add: slerp_cos_def f(1) add_divide_distrib)
    have "0 \<le> 9 / 10 * C + 1 / 10" using assms(1) by simp
    then have "(9 / 10 * C + 1 / 10) / 1 \<le> (9 / 10 * C + 1 / 10) / ?N"
      using f(2,3) by (intro divide_left_mono) simp_all
    then show ?thesis using assms(2) unfolding c by simp
  next
    case 3
    note f = slerp_ratios_trig [OF assms(1) 3]
    have "cos (half_angle C) \<le> cos (9 / 10 * half_angle C)"
      using f(4,5) pi_gt_zero by (intro cos_monotone_0_pi_le) linarith+
    then show ?thesis by (simp only: slerp_cos_trig [OF assms(1) 3] f(3))
  qed
qed

lemma half_angle_cos:
  assumes "0 < u" and "u < pi / 2"
  shows "half_angle (cos u) = u"
proof -
  have s: "0 < sin u" using assms by (rule sin_gt_zero2)
  have c: "0 < cos u" using assms by (intro cos_gt_zero_pi) linarith+
  have sq: "1 - cos u * cos u = sin u * sin u"
    using sin_cos_squared_add [of u] by (simp add: power2_eq_square)
  have "cos u < 1"
  proof (rule ccontr)
    assume "\<not> cos u < 1"
    then have "1 * 1 \<le> cos u * cos u" by (intro mult_mono) simp_all
    moreover have "0 < sin u * sin u" using s by simp
    ultimately show False using sq by linarith
  qed
  moreover have "sqrt (sin u * sin u) = sin u" using s by simp
  moreover have "arctan (sin u / cos u) = u"
    using arctan_tan [of u] assms by (simp add: tan_def)
  ultimately show ?thesis using c by (simp add: half_angle_def atan2_real_def sq)
qed

lemma half_angle_nonneg: "0 \<le> C \<Longrightarrow> 0 \<le> half_angle C"
  using half_angle_facts(1) [of C] by (cases "C < 1") (simp_all add: half_angle_def)

lemma half_angle_contract:
  assumes "0 \<le> C" and "C \<le> 1"
  shows "half_angle (slerp_cos C) \<le> 10 / 11 * half_angle C"
proof -
  consider "1 \<le> C" | "C < 1" "1 - C * C \<le> 1 / 2 ^ 52" | "C < 1" "\<not> 1 - C * C \<le> 1 / 2 ^ 52"
    by fastforce
  then show ?thesis
  proof cases
    case 1
    then show ?thesis by (simp add: slerp_cos_def slerp_ratios_def half_angle_def)
  next
    case 2
    note f = slerp_ratios_nlerp [OF assms(1) 2]
    note h = half_angle_facts [OF assms(1) 2(1)]
    let ?N = "sqrt (82 / 100 + 18 / 100 * C)"
    let ?S = "sqrt (1 - C * C)"
    let ?t = "half_angle C"
    let ?C' = "slerp_cos C"
    have c: "?C' = (9 / 10 * C + 1 / 10) / ?N"
      by (simp add: slerp_cos_def f(1) add_divide_distrib)
    have num: "99 / 100 \<le> 9 / 10 * C + 1 / 10" using f(5) by simp
    then have cpos: "0 < ?C'" unfolding c using f(2) by simp
    have St: "?S \<le> ?t" using sin_x_le_x [of ?t] h(1,4) by simp
    have "C * C \<le> 1 * 1" using assms by (intro mult_mono) simp_all
    then have S0: "0 \<le> ?S" by simp
    show ?thesis
    proof (cases "1 \<le> ?C'")
      case True
      then show ?thesis using h(1) by (simp add: half_angle_def)
    next
      case False
      have "1 - ?C' * ?C' = (?N * ?N - (9 / 10 * C + 1 / 10) * (9 / 10 * C + 1 / 10)) / (?N * ?N)"
        unfolding c using f(2) by (simp add: field_simps)
      also have "?N * ?N - (9 / 10 * C + 1 / 10) * (9 / 10 * C + 1 / 10) = 81 / 100 * (1 - C * C)"
        unfolding f(4) by (simp add: algebra_simps)
      finally have e1: "1 - ?C' * ?C' = 81 / 100 * (1 - C * C) / (?N * ?N)" .
      have SS: "?S * ?S = 1 - C * C" using \<open>C * C \<le> 1 * 1\<close> by simp
      have "(9 / 10 * ?S / ?N) * (9 / 10 * ?S / ?N) = 81 / 100 * (?S * ?S) / (?N * ?N)"
        by (simp add: algebra_simps)
      then have rr: "1 - ?C' * ?C' = (9 / 10 * ?S / ?N) * (9 / 10 * ?S / ?N)"
        by (simp only: e1 SS)
      define r where "r = 9 / 10 * ?S / ?N"
      have "0 \<le> r" using S0 f(2) by (simp add: r_def)
      then have "sqrt (r * r) = r" by simp
      then have S': "sqrt (1 - ?C' * ?C') = 9 / 10 * ?S / ?N"
        unfolding rr r_def .
      have "sqrt (1 - ?C' * ?C') / ?C' = (9 / 10 * ?S / ?N) / ?C'" by (simp only: S')
      also have "\<dots> = (9 / 10 * ?S / ?N) / ((9 / 10 * C + 1 / 10) / ?N)" by (simp only: c)
      also have "\<dots> = 9 / 10 * ?S / (9 / 10 * C + 1 / 10)" using f(2) by simp
      finally have ratio: "sqrt (1 - ?C' * ?C') / ?C' = 9 / 10 * ?S / (9 / 10 * C + 1 / 10)" .
      have "half_angle ?C' = arctan (sqrt (1 - ?C' * ?C') / ?C')"
        using False cpos by (simp add: half_angle_def atan2_real_def)
      also have "\<dots> \<le> sqrt (1 - ?C' * ?C') / ?C'"
      proof (rule arctan_le_self)
        have "0 \<le> sqrt (1 - ?C' * ?C')" unfolding S' using S0 f(2) by simp
        then show "0 \<le> sqrt (1 - ?C' * ?C') / ?C'" using cpos by simp
      qed
      also have "\<dots> = 9 / 10 * ?S / (9 / 10 * C + 1 / 10)" by (rule ratio)
      also have "\<dots> \<le> 9 / 10 * ?S / (99 / 100)"
        using num S0 by (intro divide_left_mono) simp_all
      also have "\<dots> = 10 / 11 * ?S" by simp
      also have "\<dots> \<le> 10 / 11 * ?t" using St by simp
      finally show ?thesis .
    qed
  next
    case 3
    note f = slerp_ratios_trig [OF assms(1) 3]
    let ?t = "half_angle C"
    have "half_angle (cos (9 / 10 * ?t)) = 9 / 10 * ?t"
      using f(4,5) by (intro half_angle_cos) linarith+
    then have "half_angle (slerp_cos C) = 9 / 10 * ?t"
      by (simp only: slerp_cos_trig [OF assms(1) 3])
    then show ?thesis using f(4) by simp
  qed
qed

lemma blend_norm:
  fixes x y z w a b c d :: real
  assumes "x * x + y * y + z * z + w * w = 1" and "a * a + b * b + c * c + d * d = 1"
  shows "(x * A + a * B) * (x * A + a * B) + (y * A + b * B) * (y * A + b * B)
       + (z * A + c * B) * (z * A + c * B) + (w * A + d * B) * (w * A + d * B)
       = A * A + B * B + 2 * A * B * (w * d + x * a + y * b + z * c)"
proof -
  have "(x * A + a * B) * (x * A + a * B) + (y * A + b * B) * (y * A + b * B)
       + (z * A + c * B) * (z * A + c * B) + (w * A + d * B) * (w * A + d * B)
       = (x * x + y * y + z * z + w * w) * (A * A) + (a * a + b * b + c * c + d * d) * (B * B)
         + 2 * A * B * (w * d + x * a + y * b + z * c)"
    by (simp add: algebra_simps)
  then show ?thesis by (simp only: assms mult_1)
qed

lemma slerp_step_pos:
  assumes q: "x * x + y * y + z * z + w * w = 1" and p: "a * a + b * b + c * c + d * d = 1"
    and C: "0 \<le> w * d + x * a + y * b + z * c"
  defines "A \<equiv> fst (slerp_ratios (w * d + x * a + y * b + z * c))"
    and "B \<equiv> snd (slerp_ratios (w * d + x * a + y * b + z * c))"
  shows "Quaternion_slerp (quat x y z w) (quat a b c d) (Num (1 / 10)) =
           quat (x * A + a * B) (y * A + b * B) (z * A + c * B) (w * A + d * B)"
proof -
  define K where "K = w * d + x * a + y * b + z * c"
  have dot: "Quaternion_dot (quat x y z w) (quat a b c d) = Num K"
    by (simp add: Quaternion_dot_def quat_def K_def)
  have K0: "0 \<le> K" using C by (simp add: K_def)
  have AB: "A = fst (slerp_ratios K)" "B = snd (slerp_ratios K)"
    by (simp_all add: A_def B_def K_def)
  consider "1 \<le> K" | "K < 1" "1 - K * K \<le> 1 / 2 ^ 52" | "K < 1" "\<not> 1 - K * K \<le> 1 / 2 ^ 52"
    by fastforce
  then show ?thesis
  proof cases
    case 1
    then have "A = 1" "B = 0" by (simp_all add: AB slerp_ratios_def)
    then show ?thesis using 1 K0
      by (simp add: Quaternion_slerp_def dot strict_eq_def Let_def jge_def)
  next
    case 2
    note f = slerp_ratios_nlerp [OF K0 2]
    define k where "k = 1 / sqrt (82 / 100 + 18 / 100 * K)"
    have ab: "A = 9 / 10 * k" "B = 1 / 10 * k" by (simp_all add: AB f(1) k_def)
    have n: "(x * (9 / 10) + a * (1 / 10)) * (x * (9 / 10) + a * (1 / 10))
           + (y * (9 / 10) + b * (1 / 10)) * (y * (9 / 10) + b * (1 / 10))
           + (z * (9 / 10) + c * (1 / 10)) * (z * (9 / 10) + c * (1 / 10))
           + (w * (9 / 10) + d * (1 / 10)) * (w * (9 / 10) + d * (1 / 10))
           = 82 / 100 + 18 / 100 * K"
      unfolding blend_norm [OF q p] K_def by simp
    have nz: "82 / 100 + 18 / 100 * K \<noteq> 0" using K0 by simp
    have blend: "Quaternion_blend (quat x y z w) (Num (9 / 10)) (quat a b c d) (Num (1 / 10))
        = \<lparr>qx = Num (x * (9 / 10) + a * (1 / 10)), qy = Num (y * (9 / 10) + b * (1 / 10)),
           qz = Num (z * (9 / 10) + c * (1 / 10)), qw = Num (w * (9 / 10) + d * (1 / 10))\<rparr>"
      by (simp add: Quaternion_blend_def quat_def)
    have "Quaternion_slerp (quat x y z w) (quat a b c d) (Num (1 / 10)) =
        Quaternion_normalize
          (Quaternion_blend (quat x y z w) (Num (9 / 10)) (quat a b c d) (Num (1 / 10)))"
      using 2 K0
      by (simp add: Quaternion_slerp_def dot strict_eq_def Let_def jge_def jsub_def
            Number_EPSILON_def)
    also have "\<dots> = Quaternion_normalize
           \<lparr>qx = Num (x * (9 / 10) + a * (1 / 10)), qy = Num (y * (9 / 10) + b * (1 / 10)),
            qz = Num (z * (9 / 10) + c * (1 / 10)), qw = Num (w * (9 / 10) + d * (1 / 10))\<rparr>"
      by (simp only: blend)
    also have "\<dots> = quat ((x * (9 / 10) + a * (1 / 10)) * k) ((y * (9 / 10) + b * (1 / 10)) * k)
                          ((z * (9 / 10) + c * (1 / 10)) * k) ((w * (9 / 10) + d * (1 / 10)) * k)"
      by (simp only: Quaternion_normalize_Num n if_not_P [OF nz] k_def quat_def)
    also have "\<dots> = quat (x * A + a * B) (y * A + b * B) (z * A + c * B) (w * A + d * B)"
      unfolding ab by (simp add: algebra_simps)
    finally show ?thesis .
  next
    case 3
    note f = slerp_ratios_trig [OF K0 3]
    have S: "sqrt (1 - K * K) = sin (half_angle K)"
      using half_angle_facts(4) [OF K0 3(1)] by simp
    have h: "atan2_real (sqrt (1 - K * K)) K = half_angle K"
      using 3(1) by (simp add: half_angle_def)
    have h': "atan2_real (sin (half_angle K)) K = half_angle K"
      using h by (simp only: S)
    have pos: "\<not> 1 - K * K < 0" using 3(2) by simp
    have "Quaternion_slerp (quat x y z w) (quat a b c d) (Num (1 / 10)) =
        Quaternion_blend (quat x y z w) (Num (sin (9 / 10 * half_angle K) / sin (half_angle K)))
          (quat a b c d) (Num (sin (1 / 10 * half_angle K) / sin (half_angle K)))"
      using 3 K0 f(2) pos
      by (simp add: Quaternion_slerp_def dot strict_eq_def Let_def jge_def jsub_def
            Number_EPSILON_def h h' S)
    also have "\<dots> = quat (x * A + a * B) (y * A + b * B) (z * A + c * B) (w * A + d * B)"
      by (simp add: Quaternion_blend_def quat_def AB f(1))
    finally show ?thesis .
  qed
qed

lemma slerp_step_neg:
  assumes "w * d + x * a + y * b + z * c < 0"
  shows "Quaternion_slerp (quat x y z w) (quat a b c d) (Num (1 / 10)) =
         Quaternion_slerp (quat x y z w) (quat (- a) (- b) (- c) (- d)) (Num (1 / 10))"
proof -
  define K where "K = w * d + x * a + y * b + z * c"
  have dot: "Quaternion_dot (quat x y z w) (quat a b c d) = Num K"
    by (simp add: Quaternion_dot_def quat_def K_def)
  have dotn: "Quaternion_dot (quat x y z w) (quat (- a) (- b) (- c) (- d)) = Num (- K)"
    by (simp add: Quaternion_dot_def quat_def K_def)
  have neg: "Quaternion_negate (quat a b c d) = quat (- a) (- b) (- c) (- d)"
    by (simp add: Quaternion_negate_def quat_def)
  have K: "K < 0" using assms by (simp add: K_def)
  then have nK: "\<not> - K < 0" by simp
  have nK': "\<not> 0 < K" using K by simp
  show ?thesis
    unfolding Quaternion_slerp_def dot dotn neg Let_def
    by (simp add: strict_eq_def K nK')
qed

lemma slerp_step:
  assumes q: "x * x + y * y + z * z + w * w = 1" and p: "a * a + b * b + c * c + d * d = 1"
    and s: "(s = 1 \<and> 0 \<le> w * d + x * a + y * b + z * c) \<or>
            (s = - 1 \<and> w * d + x * a + y * b + z * c < 0)"
  defines "A \<equiv> fst (slerp_ratios (s * (w * d + x * a + y * b + z * c)))"
    and "B \<equiv> snd (slerp_ratios (s * (w * d + x * a + y * b + z * c)))"
  shows "Quaternion_slerp (quat x y z w) (quat a b c d) (Num (1 / 10)) =
           quat (x * A + s * a * B) (y * A + s * b * B) (z * A + s * c * B) (w * A + s * d * B)"
  using s
proof
  assume "s = 1 \<and> 0 \<le> w * d + x * a + y * b + z * c"
  then show ?thesis using slerp_step_pos [OF q p] by (simp add: A_def B_def)
next
  assume n: "s = - 1 \<and> w * d + x * a + y * b + z * c < 0"
  have p': "(- a) * (- a) + (- b) * (- b) + (- c) * (- c) + (- d) * (- d) = 1"
    using p by simp
  have e: "w * (- d) + x * (- a) + y * (- b) + z * (- c) = s * (w * d + x * a + y * b + z * c)"
    using n by simp
  have C: "0 \<le> w * (- d) + x * (- a) + y * (- b) + z * (- c)"
    unfolding e using n by simp
  have "Quaternion_slerp (quat x y z w) (quat a b c d) (Num (1 / 10)) =
        Quaternion_slerp (quat x y z w) (quat (- a) (- b) (- c) (- d)) (Num (1 / 10))"
    using n by (intro slerp_step_neg) simp
  also have "\<dots> = quat (x * A + (- a) * B) (y * A + (- b) * B) (z * A + (- c) * B)
                        (w * A + (- d) * B)"
    unfolding A_def B_def e [symmetric] by (rule slerp_step_pos [OF q p' C])
  finally show ?thesis using n by simp
qed



lemma chord_sq:
  fixes x y z w a b c d s :: real
  assumes "x * x + y * y + z * z + w * w = 1" and "a * a + b * b + c * c + d * d = 1"
    and "s * s = 1"
  shows "(x - s * a) * (x - s * a) + (y - s * b) * (y - s * b) + (z - s * c) * (z - s * c)
       + (w - s * d) * (w - s * d) = 2 - 2 * (s * (w * d + x * a + y * b + z * c))"
proof -
  have "(x - s * a) * (x - s * a) + (y - s * b) * (y - s * b) + (z - s * c) * (z - s * c)
       + (w - s * d) * (w - s * d)
     = (x * x + y * y + z * z + w * w) + (s * s) * (a * a + b * b + c * c + d * d)
       - 2 * (s * (w * d + x * a + y * b + z * c))"
    by (simp add: algebra_simps)
  then show ?thesis by (simp only: assms mult_1)
qed

lemma dot_le_one:
  fixes x y z w a b c d s :: real
  assumes "x * x + y * y + z * z + w * w = 1" and "a * a + b * b + c * c + d * d = 1"
    and "s * s = 1"
  shows "s * (w * d + x * a + y * b + z * c) \<le> 1"
proof -
  have "0 \<le> (x - s * a) * (x - s * a) + (y - s * b) * (y - s * b) + (z - s * c) * (z - s * c)
       + (w - s * d) * (w - s * d)"
    by (intro add_nonneg_nonneg) simp_all
  then show ?thesis unfolding chord_sq [OF assms] by simp
qed

lemma slerp_tick_facts:
  assumes q: "x * x + y * y + z * z + w * w = 1" and p: "a * a + b * b + c * c + d * d = 1"
    and s: "(s = 1 \<and> 0 \<le> w * d + x * a + y * b + z * c) \<or>
            (s = - 1 \<and> w * d + x * a + y * b + z * c < 0)"
  defines "K \<equiv> s * (w * d + x * a + y * b + z * c)"
  defines "A \<equiv> fst (slerp_ratios K)" and "B \<equiv> snd (slerp_ratios K)"
  defines "x' \<equiv> x * A + s * a * B" and "y' \<equiv> y * A + s * b * B"
    and "z' \<equiv> z * A + s * c * B" and "w' \<equiv> w * A + s * d * B"
  shows "Quaternion_slerp (quat x y z w) (quat a b c d) (Num (1 / 10)) = quat x' y' z' w'"
    and "0 \<le> A" and "0 \<le> B"
    and "x' * x' + y' * y' + z' * z' + w' * w' = 1"
    and "s * (w' * d + x' * a + y' * b + z' * c) = slerp_cos K"
    and "0 \<le> K" and "K \<le> 1"
proof -
  have ss: "s * s = 1" using s by auto
  show K0: "0 \<le> K" using s by (auto simp: K_def)
  show "K \<le> 1" unfolding K_def by (rule dot_le_one [OF q p ss])
  show "Quaternion_slerp (quat x y z w) (quat a b c d) (Num (1 / 10)) = quat x' y' z' w'"
    unfolding x'_def y'_def z'_def w'_def A_def B_def K_def by (rule slerp_step [OF q p s])
  show "0 \<le> A" "0 \<le> B" using slerp_ratios_nonneg [OF K0] by (simp_all add: A_def B_def)
  have sp: "(s * a) * (s * a) + (s * b) * (s * b) + (s * c) * (s * c) + (s * d) * (s * d) = 1"
  proof -
    have "(s * a) * (s * a) + (s * b) * (s * b) + (s * c) * (s * c) + (s * d) * (s * d)
        = (s * s) * (a * a + b * b + c * c + d * d)" by (simp add: algebra_simps)
    then show ?thesis by (simp only: ss p mult_1)
  qed
  have e: "w * (s * d) + x * (s * a) + y * (s * b) + z * (s * c) = K"
    by (simp add: K_def algebra_simps)
  have "x' * x' + y' * y' + z' * z' + w' * w' = A * A + B * B + 2 * A * B * K"
    unfolding x'_def y'_def z'_def w'_def using blend_norm [OF q sp, of A B]
    by (simp only: e mult.assoc)
  also have "\<dots> = 1" unfolding A_def B_def by (rule slerp_ratios_unit [OF K0])
  finally show "x' * x' + y' * y' + z' * z' + w' * w' = 1" .
  have "s * (w' * d + x' * a + y' * b + z' * c)
      = A * (s * (w * d + x * a + y * b + z * c)) + (s * s) * B * (a * a + b * b + c * c + d * d)"
    unfolding x'_def y'_def z'_def w'_def by (simp add: algebra_simps)
  also have "\<dots> = A * K + B" by (simp only: ss p K_def mult_1 mult_1_right)
  finally show "s * (w' * d + x' * a + y' * b + z' * c) = slerp_cos K"
    by (simp add: slerp_cos_def A_def B_def)
qed

lemma sign_kept:
  fixes K0 K s :: real
  assumes "s = (if K0 < 0 then - 1 else 1)" and "s * K0 \<le> s * K"
  shows "(s = 1 \<and> 0 \<le> K) \<or> (s = - 1 \<and> K < 0)"
proof (cases "K0 < 0")
  case True
  then have "s = - 1" using assms(1) by simp
  moreover from this assms(2) True have "K < 0" by simp
  ultimately show ?thesis by simp
next
  case False
  then have "s = 1" using assms(1) by simp
  moreover from this assms(2) False have "0 \<le> K" by simp
  ultimately show ?thesis by simp
qed

lemma slerp_ticks_invariant:
  assumes q0: "x0 * x0 + y0 * y0 + z0 * z0 + w0 * w0 = 1"
    and p: "a * a + b * b + c * c + d * d = 1"
    and s: "s = (if w0 * d + x0 * a + y0 * b + z0 * c < 0 then - 1 else 1)"
  shows "\<exists>x y z w. slerp_ticks n (quat x0 y0 z0 w0) (quat a b c d) = quat x y z w \<and>
           x * x + y * y + z * z + w * w = 1 \<and>
           s * (w0 * d + x0 * a + y0 * b + z0 * c) \<le> s * (w * d + x * a + y * b + z * c) \<and>
           half_angle (s * (w * d + x * a + y * b + z * c))
             \<le> (10 / 11) ^ n * half_angle (s * (w0 * d + x0 * a + y0 * b + z0 * c))"
proof (induction n)
  case 0
  show ?case using q0 by (intro exI [of _ x0] exI [of _ y0] exI [of _ z0] exI [of _ w0]) simp
next
  case (Suc n)
  let ?I = "w0 * d + x0 * a + y0 * b + z0 * c"
  from Suc.IH obtain x y z w where
    qn: "slerp_ticks n (quat x0 y0 z0 w0) (quat a b c d) = quat x y z w"
    and u: "x * x + y * y + z * z + w * w = 1"
    and mono: "s * ?I \<le> s * (w * d + x * a + y * b + z * c)"
    and ang: "half_angle (s * (w * d + x * a + y * b + z * c)) \<le> (10 / 11) ^ n * half_angle (s * ?I)"
    by blast
  let ?K = "w * d + x * a + y * b + z * c"
  have sgn: "(s = 1 \<and> 0 \<le> ?K) \<or> (s = - 1 \<and> ?K < 0)"
    using s mono by (rule sign_kept)
  note f = slerp_tick_facts [OF u p sgn]
  let ?A = "fst (slerp_ratios (s * ?K))" and ?B = "snd (slerp_ratios (s * ?K))"
  let ?x = "x * ?A + s * a * ?B" and ?y = "y * ?A + s * b * ?B"
  let ?z = "z * ?A + s * c * ?B" and ?w = "w * ?A + s * d * ?B"
  have step: "slerp_ticks (Suc n) (quat x0 y0 z0 w0) (quat a b c d) = quat ?x ?y ?z ?w"
    by (simp only: slerp_ticks.simps qn f(1))
  have m: "s * ?K \<le> slerp_cos (s * ?K)" using f(6,7) by (rule slerp_cos_mono)
  have "half_angle (slerp_cos (s * ?K)) \<le> 10 / 11 * half_angle (s * ?K)"
    using f(6,7) by (rule half_angle_contract)
  also have "\<dots> \<le> 10 / 11 * ((10 / 11) ^ n * half_angle (s * ?I))"
    using ang by simp
  finally have a': "half_angle (slerp_cos (s * ?K)) \<le> (10 / 11) ^ Suc n * half_angle (s * ?I)"
    by simp
  have "slerp_ticks (Suc n) (quat x0 y0 z0 w0) (quat a b c d) = quat ?x ?y ?z ?w \<and>
        ?x * ?x + ?y * ?y + ?z * ?z + ?w * ?w = 1 \<and>
        s * ?I \<le> s * (?w * d + ?x * a + ?y * b + ?z * c) \<and>
        half_angle (s * (?w * d + ?x * a + ?y * b + ?z * c)) \<le> (10 / 11) ^ Suc n * half_angle (s * ?I)"
  proof (intro conjI)
    show "slerp_ticks (Suc n) (quat x0 y0 z0 w0) (quat a b c d) = quat ?x ?y ?z ?w" by (rule step)
    show "?x * ?x + ?y * ?y + ?z * ?z + ?w * ?w = 1" by (rule f(4))
    show "s * ?I \<le> s * (?w * d + ?x * a + ?y * b + ?z * c)"
      unfolding f(5) using mono m by linarith
    show "half_angle (s * (?w * d + ?x * a + ?y * b + ?z * c)) \<le> (10 / 11) ^ Suc n * half_angle (s * ?I)"
      unfolding f(5) by (rule a')
  qed
  then show ?case by (intro exI)
qed

lemma slerp_ticks_step:
  assumes q0: "x0 * x0 + y0 * y0 + z0 * z0 + w0 * w0 = 1"
    and p: "a * a + b * b + c * c + d * d = 1"
    and s: "s = (if w0 * d + x0 * a + y0 * b + z0 * c < 0 then - 1 else 1)"
  shows "\<exists>x y z w x' y' z' w' A B.
           slerp_ticks n (quat x0 y0 z0 w0) (quat a b c d) = quat x y z w \<and>
           x\<^sup>2 + y\<^sup>2 + z\<^sup>2 + w\<^sup>2 = 1 \<and>
           slerp_ticks (Suc n) (quat x0 y0 z0 w0) (quat a b c d) = quat x' y' z' w' \<and>
           x'\<^sup>2 + y'\<^sup>2 + z'\<^sup>2 + w'\<^sup>2 = 1 \<and>
           0 \<le> A \<and> 0 \<le> B \<and>
           x' = A * x + B * (s * a) \<and> y' = A * y + B * (s * b) \<and>
           z' = A * z + B * (s * c) \<and> w' = A * w + B * (s * d) \<and>
           (x' - s * a)\<^sup>2 + (y' - s * b)\<^sup>2 + (z' - s * c)\<^sup>2 + (w' - s * d)\<^sup>2
             \<le> (x - s * a)\<^sup>2 + (y - s * b)\<^sup>2 + (z - s * c)\<^sup>2 + (w - s * d)\<^sup>2"
proof -
  let ?I = "w0 * d + x0 * a + y0 * b + z0 * c"
  from slerp_ticks_invariant [OF q0 p s, of n] obtain x y z w where
    qn: "slerp_ticks n (quat x0 y0 z0 w0) (quat a b c d) = quat x y z w"
    and u: "x * x + y * y + z * z + w * w = 1"
    and mono: "s * ?I \<le> s * (w * d + x * a + y * b + z * c)"
    by blast
  let ?K = "w * d + x * a + y * b + z * c"
  have ss: "s * s = 1" using s by simp
  have sgn: "(s = 1 \<and> 0 \<le> ?K) \<or> (s = - 1 \<and> ?K < 0)"
    using s mono by (rule sign_kept)
  note f = slerp_tick_facts [OF u p sgn]
  let ?A = "fst (slerp_ratios (s * ?K))" and ?B = "snd (slerp_ratios (s * ?K))"
  let ?x = "x * ?A + s * a * ?B" and ?y = "y * ?A + s * b * ?B"
  let ?z = "z * ?A + s * c * ?B" and ?w = "w * ?A + s * d * ?B"
  have step: "slerp_ticks (Suc n) (quat x0 y0 z0 w0) (quat a b c d) = quat ?x ?y ?z ?w"
    by (simp only: slerp_ticks.simps qn f(1))
  have m: "s * ?K \<le> slerp_cos (s * ?K)" using f(6,7) by (rule slerp_cos_mono)
  have "(?x - s * a) * (?x - s * a) + (?y - s * b) * (?y - s * b) + (?z - s * c) * (?z - s * c)
          + (?w - s * d) * (?w - s * d) = 2 - 2 * slerp_cos (s * ?K)"
    by (simp only: chord_sq [OF f(4) p ss] f(5))
  moreover have "(x - s * a) * (x - s * a) + (y - s * b) * (y - s * b) + (z - s * c) * (z - s * c)
          + (w - s * d) * (w - s * d) = 2 - 2 * (s * ?K)"
    by (rule chord_sq [OF u p ss])
  ultimately have dist: "(?x - s * a)\<^sup>2 + (?y - s * b)\<^sup>2 + (?z - s * c)\<^sup>2 + (?w - s * d)\<^sup>2
             \<le> (x - s * a)\<^sup>2 + (y - s * b)\<^sup>2 + (z - s * c)\<^sup>2 + (w - s * d)\<^sup>2"
    using m by (simp only: power2_eq_square)
  have "slerp_ticks n (quat x0 y0 z0 w0) (quat a b c d) = quat x y z w \<and>
           x\<^sup>2 + y\<^sup>2 + z\<^sup>2 + w\<^sup>2 = 1 \<and>
           slerp_ticks (Suc n) (quat x0 y0 z0 w0) (quat a b c d) = quat ?x ?y ?z ?w \<and>
           ?x\<^sup>2 + ?y\<^sup>2 + ?z\<^sup>2 + ?w\<^sup>2 = 1 \<and>
           0 \<le> ?A \<and> 0 \<le> ?B \<and>
           ?x = ?A * x + ?B * (s * a) \<and> ?y = ?A * y + ?B * (s * b) \<and>
           ?z = ?A * z + ?B * (s * c) \<and> ?w = ?A * w + ?B * (s * d) \<and>
           (?x - s * a)\<^sup>2 + (?y - s * b)\<^sup>2 + (?z - s * c)\<^sup>2 + (?w - s * d)\<^sup>2
             \<le> (x - s * a)\<^sup>2 + (y - s * b)\<^sup>2 + (z - s * c)\<^sup>2 + (w - s * d)\<^sup>2"
  proof (intro conjI)
    show "slerp_ticks n (quat x0 y0 z0 w0) (quat a b c d) = quat x y z w" by (rule qn)
    show "x\<^sup>2 + y\<^sup>2 + z\<^sup>2 + w\<^sup>2 = 1" by (simp only: power2_eq_square u)
    show "slerp_ticks (Suc n) (quat x0 y0 z0 w0) (quat a b c d) = quat ?x ?y ?z ?w" by (rule step)
    show "?x\<^sup>2 + ?y\<^sup>2 + ?z\<^sup>2 + ?w\<^sup>2 = 1" by (simp only: power2_eq_square f(4))
    show "0 \<le> ?A" by (rule f(2))
    show "0 \<le> ?B" by (rule f(3))
    show "?x = ?A * x + ?B * (s * a)" "?y = ?A * y + ?B * (s * b)"
      "?z = ?A * z + ?B * (s * c)" "?w = ?A * w + ?B * (s * d)"
      by (simp_all only: mult.commute)
    show "(?x - s * a)\<^sup>2 + (?y - s * b)\<^sup>2 + (?z - s * c)\<^sup>2 + (?w - s * d)\<^sup>2
             \<le> (x - s * a)\<^sup>2 + (y - s * b)\<^sup>2 + (z - s * c)\<^sup>2 + (w - s * d)\<^sup>2"
      by (rule dist)
  qed
  then show ?thesis by (intro exI)
qed

lemma slerp_ticks_converge:
  assumes q0: "x0 * x0 + y0 * y0 + z0 * z0 + w0 * w0 = 1"
    and p: "a * a + b * b + c * c + d * d = 1"
    and s: "s = (if w0 * d + x0 * a + y0 * b + z0 * c < 0 then - 1 else 1)"
    and e: "0 < e"
  shows "\<exists>N. \<forall>n\<ge>N. \<exists>x y z w.
           slerp_ticks n (quat x0 y0 z0 w0) (quat a b c d) = quat x y z w \<and>
           sqrt ((x - s * a)\<^sup>2 + (y - s * b)\<^sup>2 + (z - s * c)\<^sup>2 + (w - s * d)\<^sup>2) < e"
proof -
  let ?I = "w0 * d + x0 * a + y0 * b + z0 * c"
  have ss: "s * s = 1" using s by simp
  have I0: "0 \<le> s * ?I" using s by simp
  obtain N where N: "\<forall>n\<ge>N. \<bar>half_angle (s * ?I) * (10 / 11) ^ n\<bar> < e"
    using geometric_small [OF e, of "10 / 11" "half_angle (s * ?I)"] by auto
  have "\<exists>x y z w. slerp_ticks n (quat x0 y0 z0 w0) (quat a b c d) = quat x y z w \<and>
           sqrt ((x - s * a)\<^sup>2 + (y - s * b)\<^sup>2 + (z - s * c)\<^sup>2 + (w - s * d)\<^sup>2) < e"
    if n: "N \<le> n" for n
  proof -
    from slerp_ticks_invariant [OF q0 p s, of n] obtain x y z w where
      qn: "slerp_ticks n (quat x0 y0 z0 w0) (quat a b c d) = quat x y z w"
      and u: "x * x + y * y + z * z + w * w = 1"
      and mono: "s * ?I \<le> s * (w * d + x * a + y * b + z * c)"
      and ang: "half_angle (s * (w * d + x * a + y * b + z * c))
                  \<le> (10 / 11) ^ n * half_angle (s * ?I)"
      by blast
    let ?K = "s * (w * d + x * a + y * b + z * c)"
    have K0: "0 \<le> ?K" using I0 mono by linarith
    have K1: "?K \<le> 1" by (rule dot_le_one [OF u p ss])
    have h0: "0 \<le> half_angle ?K" using K0 by (rule half_angle_nonneg)
    have "(x - s * a)\<^sup>2 + (y - s * b)\<^sup>2 + (z - s * c)\<^sup>2 + (w - s * d)\<^sup>2 = 2 - 2 * ?K"
      using chord_sq [OF u p ss] by (simp only: power2_eq_square)
    also have "\<dots> \<le> (half_angle ?K)\<^sup>2" using K0 K1 by (rule chord_le_angle)
    finally have "sqrt ((x - s * a)\<^sup>2 + (y - s * b)\<^sup>2 + (z - s * c)\<^sup>2 + (w - s * d)\<^sup>2)
        \<le> sqrt ((half_angle ?K)\<^sup>2)"
      by (rule real_sqrt_le_mono)
    also have "\<dots> = half_angle ?K" using h0 by simp
    also have "\<dots> \<le> (10 / 11) ^ n * half_angle (s * ?I)" by (rule ang)
    also have "\<dots> \<le> \<bar>half_angle (s * ?I) * (10 / 11) ^ n\<bar>" by (simp add: mult.commute)
    also have "\<dots> < e" using N n by blast
    finally show ?thesis using qn by blast
  qed
  then show ?thesis by blast
qed

lemma Vector3_lerp_vec:
  "Vector3_lerp (vec a b c) (vec a' b' c') (Num k)
     = vec (a + (a' - a) * k) (b + (b' - b) * k) (c + (c' - c) * k)"
  by (simp add: Vector3_lerp_def jsub_def vec_def)

lemma lerp_ticks_vec:
  "lerp_ticks n (vec u1 u2 u3) (vec t1 t2 t3)
     = vec (t1 + (u1 - t1) * (9 / 10) ^ n) (t2 + (u2 - t2) * (9 / 10) ^ n)
           (t3 + (u3 - t3) * (9 / 10) ^ n)"
proof (induction n)
  case 0
  show ?case by simp
next
  case (Suc n)
  have a: "t + (u - t) * (9 / 10) ^ n + (t - (t + (u - t) * (9 / 10) ^ n)) * (1 / 10)
      = t + (u - t) * (9 / 10) ^ Suc n"
    for t u :: real by (simp add: field_simps)
  show ?case unfolding lerp_ticks.simps Suc.IH Vector3_lerp_vec by (simp only: a)
qed

lemma lerp_between:
  fixes p t :: real
  defines "n \<equiv> p + (t - p) * (1 / 10)"
  shows "min p t \<le> n \<and> n \<le> max p t \<and> \<bar>n - t\<bar> \<le> \<bar>p - t\<bar>"
proof -
  have n: "n = 9 / 10 * p + 1 / 10 * t" by (simp add: n_def field_simps)
  have "min p t \<le> n" "n \<le> max p t" unfolding n by (cases "p \<le> t"; simp)+
  moreover have "\<bar>n - t\<bar> \<le> \<bar>p - t\<bar>" unfolding n by (cases "p \<le> t") simp_all
  ultimately show ?thesis by simp
qed

lemma lerp_ticks_step:
  "\<exists>p1 p2 p3 n1 n2 n3.
     lerp_ticks n (vec u1 u2 u3) (vec t1 t2 t3) = vec p1 p2 p3 \<and>
     lerp_ticks (Suc n) (vec u1 u2 u3) (vec t1 t2 t3) = vec n1 n2 n3 \<and>
     min p1 t1 \<le> n1 \<and> n1 \<le> max p1 t1 \<and> \<bar>n1 - t1\<bar> \<le> \<bar>p1 - t1\<bar> \<and>
     min p2 t2 \<le> n2 \<and> n2 \<le> max p2 t2 \<and> \<bar>n2 - t2\<bar> \<le> \<bar>p2 - t2\<bar> \<and>
     min p3 t3 \<le> n3 \<and> n3 \<le> max p3 t3 \<and> \<bar>n3 - t3\<bar> \<le> \<bar>p3 - t3\<bar>"
proof -
  let ?p1 = "t1 + (u1 - t1) * (9 / 10) ^ n" and ?p2 = "t2 + (u2 - t2) * (9 / 10) ^ n"
    and ?p3 = "t3 + (u3 - t3) * (9 / 10) ^ n"
  let ?n1 = "?p1 + (t1 - ?p1) * (1 / 10)" and ?n2 = "?p2 + (t2 - ?p2) * (1 / 10)"
    and ?n3 = "?p3 + (t3 - ?p3) * (1 / 10)"
  have a: "lerp_ticks n (vec u1 u2 u3) (vec t1 t2 t3) = vec ?p1 ?p2 ?p3"
    by (rule lerp_ticks_vec)
  have b: "lerp_ticks (Suc n) (vec u1 u2 u3) (vec t1 t2 t3) = vec ?n1 ?n2 ?n3"
    unfolding lerp_ticks.simps a Vector3_lerp_vec ..
  have "lerp_ticks n (vec u1 u2 u3) (vec t1 t2 t3) = vec ?p1 ?p2 ?p3 \<and>
     lerp_ticks (Suc n) (vec u1 u2 u3) (vec t1 t2 t3) = vec ?n1 ?n2 ?n3 \<and>
     min ?p1 t1 \<le> ?n1 \<and> ?n1 \<le> max ?p1 t1 \<and> \<bar>?n1 - t1\<bar> \<le> \<bar>?p1 - t1\<bar> \<and>
     min ?p2 t2 \<le> ?n2 \<and> ?n2 \<le> max ?p2 t2 \<and> \<bar>?n2 - t2\<bar> \<le> \<bar>?p2 - t2\<bar> \<and>
     min ?p3 t3 \<le> ?n3 \<and> ?n3 \<le> max ?p3 t3 \<and> \<bar>?n3 - t3\<bar> \<le> \<bar>?p3 - t3\<bar>"
    using a b lerp_between [of ?p1 t1] lerp_between [of ?p2 t2] lerp_between [of ?p3 t3]
    by (simp only: simp_thms)
  then show ?thesis by (intro exI)
qed

lemma lerp_ticks_converge:
  assumes "0 < e"
  shows "\<exists>N. \<forall>n\<ge>N. \<exists>p1 p2 p3.
           lerp_ticks n (vec u1 u2 u3) (vec t1 t2 t3) = vec p1 p2 p3 \<and>
           \<bar>p1 - t1\<bar> < e \<and> \<bar>p2 - t2\<bar> < e \<and> \<bar>p3 - t3\<bar> < e"
proof -
  obtain N1 where N1: "\<forall>n\<ge>N1. \<bar>(u1 - t1) * (9 / 10) ^ n\<bar> < e"
    using geometric_small [OF assms, of "9 / 10" "u1 - t1"] by auto
  obtain N2 where N2: "\<forall>n\<ge>N2. \<bar>(u2 - t2) * (9 / 10) ^ n\<bar> < e"
    using geometric_small [OF assms, of "9 / 10" "u2 - t2"] by auto
  obtain N3 where N3: "\<forall>n\<ge>N3. \<bar>(u3 - t3) * (9 / 10) ^ n\<bar> < e"
    using geometric_small [OF assms, of "9 / 10" "u3 - t3"] by auto
  have "\<exists>p1 p2 p3. lerp_ticks n (vec u1 u2 u3) (vec t1 t2 t3) = vec p1 p2 p3 \<and>
           \<bar>p1 - t1\<bar> < e \<and> \<bar>p2 - t2\<bar> < e \<and> \<bar>p3 - t3\<bar> < e"
    if "max N1 (max N2 N3) \<le> n" for n
  proof -
    from that have "N1 \<le> n" "N2 \<le> n" "N3 \<le> n" by simp_all
    with N1 N2 N3 have "\<bar>(u1 - t1) * (9 / 10) ^ n\<bar> < e" "\<bar>(u2 - t2) * (9 / 10) ^ n\<bar> < e"
      "\<bar>(u3 - t3) * (9 / 10) ^ n\<bar> < e" by blast+
    then have "lerp_ticks n (vec u1 u2 u3) (vec t1 t2 t3)
        = vec (t1 + (u1 - t1) * (9 / 10) ^ n) (t2 + (u2 - t2) * (9 / 10) ^ n)
              (t3 + (u3 - t3) * (9 / 10) ^ n) \<and>
        \<bar>t1 + (u1 - t1) * (9 / 10) ^ n - t1\<bar> < e \<and> \<bar>t2 + (u2 - t2) * (9 / 10) ^ n - t2\<bar> < e \<and>
        \<bar>t3 + (u3 - t3) * (9 / 10) ^ n - t3\<bar> < e"
      by (simp add: lerp_ticks_vec)
    then show ?thesis by (intro exI)
  qed
  then show ?thesis by blast
qed

lemma lerp_ticks_shift:
  "lerp_ticks (Suc n) v target = lerp_ticks n (Vector3_lerp v target (Num (1 / 10))) target"
  by (induction n) simp_all

lemma slerp_ticks_shift:
  "slerp_ticks (Suc n) q target = slerp_ticks n (Quaternion_slerp q target (Num (1 / 10))) target"
  by (induction n) simp_all

text \<open>
  The iterates are those of the program: over \<open>n\<close> ticks of the mounted scene with one and
  the same OPEN observation and a true prop, the smoothed position, the smoothed
  orientation and the shield's scale are the \<open>n\<close>-th iterates of the lerp and slerp
  steps.
\<close>

lemma repeated_open_ticks:
  assumes "shieldGroupRef (rig s) = Some g" and "groupRef (shield s) = Some g0"
    and "handData t = Some h" and "gesture h = OPEN" and "visibleProp t"
  shows "smoothedPosition (rig (render_ticks (replicate n t) s)) =
           lerp_ticks n (smoothedPosition (rig s))
             \<lparr>vx = jmul (vx (position h)) (jdiv (width (viewport t)) (Num 2)),
              vy = jmul (vy (position h)) (jdiv (height (viewport t)) (Num 2)),
              vz = Num 0\<rparr> \<and>
         smoothedRotation (rig (render_ticks (replicate n t) s)) =
           slerp_ticks n (smoothedRotation (rig s)) (rotation h) \<and>
         (\<exists>g'. groupRef (shield (render_ticks (replicate n t) s)) = Some g' \<and>
            g_scale g' = lerp_ticks n (g_scale g0) Vector3_one)"
  using assms(1,2)
proof (induction n arbitrary: s g g0)
  case 0
  then show ?case by simp
next
  case (Suc n)
  let ?s1 = "render_tick t s"
  have m1: "\<exists>g1. shieldGroupRef (rig ?s1) = Some g1"
    using Suc.prems(1) assms(3,4) by (simp add: render_tick_def CreateRig_useFrame_def Let_def)
  have p1: "smoothedPosition (rig ?s1) =
      Vector3_lerp (smoothedPosition (rig s))
        \<lparr>vx = jmul (vx (position h)) (jdiv (width (viewport t)) (Num 2)),
         vy = jmul (vy (position h)) (jdiv (height (viewport t)) (Num 2)),
         vz = Num 0\<rparr> (Num (1 / 10))"
    and r1: "smoothedRotation (rig ?s1) =
      Quaternion_slerp (smoothedRotation (rig s)) (rotation h) (Num (1 / 10))"
    using Suc.prems(1) assms(3,4) by (simp_all add: render_tick_def CreateRig_useFrame_def Let_def)
  have sh1: "\<exists>g1. groupRef (shield ?s1) = Some g1 \<and>
      g_scale g1 = Vector3_lerp (g_scale g0) Vector3_one (Num (1 / 10))"
    using Suc.prems(2) assms(5)
    by (simp add: render_tick_def Shield_useFrame_def Let_def Vector3_one_def)
  from m1 sh1 obtain g1 g2 where g1: "shieldGroupRef (rig ?s1) = Some g1"
    and g2: "groupRef (shield ?s1) = Some g2"
      "g_scale g2 = Vector3_lerp (g_scale g0) Vector3_one (Num (1 / 10))"
    by blast
  from Suc.IH [OF g1 g2(1)] show ?case
    by (simp only: replicate_Suc render_ticks.simps p1 r1 g2(2) lerp_ticks_shift slerp_ticks_shift)
qed



lemma literal_0_1: "to_double (1 / 10) = Num (3602879701896397 / 36028797018963968)"
  using to_double_eq [of "- 4" "1 / 10" 7205759403792794] by (simp add: power_int_minus_divide)

lemma to_double_zero: "to_double 0 = Num 0"
  by (simp add: to_double_def double_round_def)

lemma overflow_difference: "to_double (- (2 ^ 1023) - 2 ^ 1023) = NegInf"
proof -
  have e: "(- (2 ^ 1023) - 2 ^ 1023 :: real) = - (2 ^ 1024)" by simp
  have "double_round (- (2 ^ 1024)) = of_int (- (2 ^ 52)) * 2 powi (1024 - 52)"
    by (rule double_round_eq) (simp_all add: power_int_add)
  also have "\<dots> = - (2 ^ 1024)" by simp
  finally have "double_round (- (2 ^ 1024)) = - (2 ^ 1024)" .
  then show ?thesis by (simp only: e to_double_def) (simp add: signed_inf_def)
qed

text \<open>
  Two starts from which the smoothing never comes near its target. From \<open>2 ^ 1023\<close>
  towards \<open>- 2 ^ 1023\<close>, both of them doubles, the first lerp step overflows: the
  difference \<open>- 2 ^ 1024\<close> rounds to \<open>-Infinity\<close>, the second step adds \<open>Infinity\<close> to it, and
  the value is NaN from then on. From the quaternion \<open>(0, 0, 2, 2)\<close>, a quarter turn
  about the z axis that is not of unit length, towards the identity: \<open>slerp\<close> finds a dot
  product of 2, takes the two orientations for equal and changes nothing, tick after tick.
  Likewise from the identity towards the target \<open>(0, 0, 3, 1)\<close>, a turn about the z axis
  that is not of unit length either: the dot product is 1.
\<close>

theorem smoothing_diverges:
  "Vector3_lerp_double (vec (2 ^ 1023) 0 0) (vec (- (2 ^ 1023)) 0 0) (to_double (1 / 10))
     = \<lparr>vx = NegInf, vy = Num 0, vz = Num 0\<rparr> \<and>
   Vector3_lerp_double \<lparr>vx = NegInf, vy = Num 0, vz = Num 0\<rparr> (vec (- (2 ^ 1023)) 0 0)
       (to_double (1 / 10))
     = \<lparr>vx = NaN, vy = Num 0, vz = Num 0\<rparr> \<and>
   Vector3_lerp_double \<lparr>vx = NaN, vy = Num 0, vz = Num 0\<rparr> (vec (- (2 ^ 1023)) 0 0)
       (to_double (1 / 10))
     = \<lparr>vx = NaN, vy = Num 0, vz = Num 0\<rparr> \<and>
   slerp_ticks 1000 (quat 0 0 2 2) (quat 0 0 0 1) = quat 0 0 2 2 \<and>
   slerp_ticks 1000 (quat 0 0 0 1) (quat 0 0 3 1) = quat 0 0 0 1"
proof -
  have l: "Vector3_lerp_double (vec (2 ^ 1023) 0 0) (vec (- (2 ^ 1023)) 0 0) (to_double (1 / 10))
     = \<lparr>vx = NegInf, vy = Num 0, vz = Num 0\<rparr>"
    "Vector3_lerp_double \<lparr>vx = NegInf, vy = Num 0, vz = Num 0\<rparr> (vec (- (2 ^ 1023)) 0 0)
       (to_double (1 / 10))
     = \<lparr>vx = NaN, vy = Num 0, vz = Num 0\<rparr>"
    "Vector3_lerp_double \<lparr>vx = NaN, vy = Num 0, vz = Num 0\<rparr> (vec (- (2 ^ 1023)) 0 0)
       (to_double (1 / 10))
     = \<lparr>vx = NaN, vy = Num 0, vz = Num 0\<rparr>"
    by (simp_all only: Vector3_lerp_double_def vec_def Vector3.simps literal_0_1 double_sub_def
          double_mul_def double_add_def jsub_def jneg.simps jadd.simps jmul.simps js_round.simps
          overflow_difference [unfolded diff_conv_add_uminus] to_double_zero
          add_0 add_0_right neg_0_equal_iff_equal minus_zero mult_zero_left signed_inf_def)
       simp_all
  have step: "Quaternion_slerp (quat 0 0 2 2) (quat 0 0 0 1) (Num (1 / 10)) = quat 0 0 2 2"
    by (simp add: Quaternion_slerp_def Quaternion_dot_def Quaternion_negate_def quat_def
          strict_eq_def Let_def jge_def)
  have a: "slerp_ticks n (quat 0 0 2 2) (quat 0 0 0 1) = quat 0 0 2 2" for n
    by (induction n) (simp_all add: step)
  have step': "Quaternion_slerp (quat 0 0 0 1) (quat 0 0 3 1) (Num (1 / 10)) = quat 0 0 0 1"
    by (simp add: Quaternion_slerp_def Quaternion_dot_def Quaternion_negate_def quat_def
          strict_eq_def Let_def jge_def)
  have b: "slerp_ticks n (quat 0 0 0 1) (quat 0 0 3 1) = quat 0 0 0 1" for n
    by (induction n) (simp_all add: step')
  from l a b show ?thesis by (intro conjI)
qed

text \<open>
  C8, as the code has it. Iterating the smoothing step towards a fixed target. For the
  lerp of position and scale, on finite values of magnitude at most \<open>2 ^ 1022\<close>, so that
  no difference overflows: each iterate lies between the previous one and the target,
  component by component, no farther from the target than the previous one, and the
  iterates come within any epsilon of the target after finitely many ticks. For the
  slerp of orientation, on unit quaternions: each iterate is a unit quaternion, a
  combination with non-negative weights of the previous one and of the target quaternion
  taken with the sign \<open>s\<close> of its dot product with the start (so on the arc between
  them), no farther from it than the previous one, and the iterates come within any
  epsilon of it after finitely many ticks. A quaternion and its negation are the same
  orientation: the iterates approach the target orientation along the shorter arc.
\<close>

theorem smoothing_converges:
  assumes "x0\<^sup>2 + y0\<^sup>2 + z0\<^sup>2 + w0\<^sup>2 = 1" and "a\<^sup>2 + b\<^sup>2 + c\<^sup>2 + d\<^sup>2 = 1"
    and "s = (if w0 * d + x0 * a + y0 * b + z0 * c < 0 then - 1 else 1)"
    and "\<bar>u1\<bar> \<le> 2 ^ 1022" and "\<bar>u2\<bar> \<le> 2 ^ 1022" and "\<bar>u3\<bar> \<le> 2 ^ 1022"
    and "\<bar>t1\<bar> \<le> 2 ^ 1022" and "\<bar>t2\<bar> \<le> 2 ^ 1022" and "\<bar>t3\<bar> \<le> 2 ^ 1022"
  shows
   "(\<forall>n. \<exists>p1 p2 p3 n1 n2 n3.
       lerp_ticks n (vec u1 u2 u3) (vec t1 t2 t3) = vec p1 p2 p3 \<and>
       lerp_ticks (Suc n) (vec u1 u2 u3) (vec t1 t2 t3) = vec n1 n2 n3 \<and>
       min p1 t1 \<le> n1 \<and> n1 \<le> max p1 t1 \<and> \<bar>n1 - t1\<bar> \<le> \<bar>p1 - t1\<bar> \<and>
       min p2 t2 \<le> n2 \<and> n2 \<le> max p2 t2 \<and> \<bar>n2 - t2\<bar> \<le> \<bar>p2 - t2\<bar> \<and>
       min p3 t3 \<le> n3 \<and> n3 \<le> max p3 t3 \<and> \<bar>n3 - t3\<bar> \<le> \<bar>p3 - t3\<bar>) \<and>
    (\<forall>e>0. \<exists>N. \<forall>n\<ge>N. \<exists>p1 p2 p3.
       lerp_ticks n (vec u1 u2 u3) (vec t1 t2 t3) = vec p1 p2 p3 \<and>
       \<bar>p1 - t1\<bar> < e \<and> \<bar>p2 - t2\<bar> < e \<and> \<bar>p3 - t3\<bar> < e) \<and>
    (\<forall>n. \<exists>x y z w x' y' z' w' A B.
       slerp_ticks n (quat x0 y0 z0 w0) (quat a b c d) = quat x y z w \<and>
       x\<^sup>2 + y\<^sup>2 + z\<^sup>2 + w\<^sup>2 = 1 \<and>
       slerp_ticks (Suc n) (quat x0 y0 z0 w0) (quat a b c d) = quat x' y' z' w' \<and>
       x'\<^sup>2 + y'\<^sup>2 + z'\<^sup>2 + w'\<^sup>2 = 1 \<and>
       0 \<le> A \<and> 0 \<le> B \<and>
       x' = A * x + B * (s * a) \<and> y' = A * y + B * (s * b) \<and>
       z' = A * z + B * (s * c) \<and> w' = A * w + B * (s * d) \<and>
       (x' - s * a)\<^sup>2 + (y' - s * b)\<^sup>2 + (z' - s * c)\<^sup>2 + (w' - s * d)\<^sup>2
         \<le> (x - s * a)\<^sup>2 + (y - s * b)\<^sup>2 + (z - s * c)\<^sup>2 + (w - s * d)\<^sup>2) \<and>
    (\<forall>e>0. \<exists>N. \<forall>n\<ge>N. \<exists>x y z w.
       slerp_ticks n (quat x0 y0 z0 w0) (quat a b c d) = quat x y z w \<and>
       sqrt ((x - s * a)\<^sup>2 + (y - s * b)\<^sup>2 + (z - s * c)\<^sup>2 + (w - s * d)\<^sup>2) < e)"
proof -
  have q0: "x0 * x0 + y0 * y0 + z0 * z0 + w0 * w0 = 1"
    and p: "a * a + b * b + c * c + d * d = 1"
    using assms(1,2) by (simp_all only: power2_eq_square)
  show ?thesis
  proof (intro conjI allI impI)
    fix n
    show "\<exists>p1 p2 p3 n1 n2 n3.
       lerp_ticks n (vec u1 u2 u3) (vec t1 t2 t3) = vec p1 p2 p3 \<and>
       lerp_ticks (Suc n) (vec u1 u2 u3) (vec t1 t2 t3) = vec n1 n2 n3 \<and>
       min p1 t1 \<le> n1 \<and> n1 \<le> max p1 t1 \<and> \<bar>n1 - t1\<bar> \<le> \<bar>p1 - t1\<bar> \<and>
       min p2 t2 \<le> n2 \<and> n2 \<le> max p2 t2 \<and> \<bar>n2 - t2\<bar> \<le> \<bar>p2 - t2\<bar> \<and>
       min p3 t3 \<le> n3 \<and> n3 \<le> max p3 t3 \<and> \<bar>n3 - t3\<bar> \<le> \<bar>p3 - t3\<bar>"
      by (rule lerp_ticks_step)
  next
    fix e :: real assume "0 < e"
    then show "\<exists>N. \<forall>n\<ge>N. \<exists>p1 p2 p3.
       lerp_ticks n (vec u1 u2 u3) (vec t1 t2 t3) = vec p1 p2 p3 \<and>
       \<bar>p1 - t1\<bar> < e \<and> \<bar>p2 - t2\<bar> < e \<and> \<bar>p3 - t3\<bar> < e"
      by (rule lerp_ticks_converge)
  next
    fix n
    show "\<exists>x y z w x' y' z' w' A B.
       slerp_ticks n (quat x0 y0 z0 w0) (quat a b c d) = quat x y z w \<and>
       x\<^sup>2 + y\<^sup>2 + z\<^sup>2 + w\<^sup>2 = 1 \<and>
       slerp_ticks (Suc n) (quat x0 y0 z0 w0) (quat a b c d) = quat x' y' z' w' \<and>
       x'\<^sup>2 + y'\<^sup>2 + z'\<^sup>2 + w'\<^sup>2 = 1 \<and>
       0 \<le> A \<and> 0 \<le> B \<and>
       x' = A * x + B * (s * a) \<and> y' = A * y + B * (s * b) \<and>
       z' = A * z + B * (s * c) \<and> w' = A * w + B * (s * d) \<and>
       (x' - s * a)\<^sup>2 + (y' - s * b)\<^sup>2 + (z' - s * c)\<^sup>2 + (w' - s * d)\<^sup>2
         \<le> (x - s * a)\<^sup>2 + (y - s * b)\<^sup>2 + (z - s * c)\<^sup>2 + (w - s * d)\<^sup>2"
      by (rule slerp_ticks_step [OF q0 p assms(3)])
  next
    fix e :: real assume "0 < e"
    then show "\<exists>N. \<forall>n\<ge>N. \<exists>x y z w.
       slerp_ticks n (quat x0 y0 z0 w0) (quat a b c d) = quat x y z w \<and>
       sqrt ((x - s * a)\<^sup>2 + (y - s * b)\<^sup>2 + (z - s * c)\<^sup>2 + (w - s * d)\<^sup>2) < e"
      by (rule slerp_ticks_converge [OF q0 p assms(3)])
  qed
qed

theorem smoothing_converges_witness:
  "(\<exists>N. \<forall>n\<ge>N. \<exists>p1 p2 p3.
      lerp_ticks n (vec 0 0 0) (vec 5 (19 / 5) 0) = vec p1 p2 p3 \<and>
      \<bar>p1 - 5\<bar> < 1 / 100 \<and> \<bar>p2 - 19 / 5\<bar> < 1 / 100 \<and> \<bar>p3 - 0\<bar> < 1 / 100) \<and>
   (\<exists>N. \<forall>n\<ge>N. \<exists>x y z w.
      slerp_ticks n (quat 0 0 0 1) (quat 0 0 1 0) = quat x y z w \<and>
      sqrt ((x - 1 * 0)\<^sup>2 + (y - 1 * 0)\<^sup>2 + (z - 1 * 1)\<^sup>2 + (w - 1 * 0)\<^sup>2) < 1 / 100) \<and>
   (\<exists>N. \<forall>n\<ge>N. \<exists>x y z w.
      slerp_ticks n (quat 0 0 (3 / 5) (4 / 5)) (quat 0 0 0 (- 1)) = quat x y z w \<and>
      sqrt ((x - (- 1) * 0)\<^sup>2 + (y - (- 1) * 0)\<^sup>2 + (z - (- 1) * 0)\<^sup>2 + (w - (- 1) * (- 1))\<^sup>2)
        < 1 / 100)"
proof -
  have u1: "(0::real)\<^sup>2 + 0\<^sup>2 + 0\<^sup>2 + 1\<^sup>2 = 1" and u2: "(0::real)\<^sup>2 + 0\<^sup>2 + 1\<^sup>2 + 0\<^sup>2 = 1"
    and u3: "(0::real)\<^sup>2 + 0\<^sup>2 + (3 / 5)\<^sup>2 + (4 / 5)\<^sup>2 = 1"
    and u4: "(0::real)\<^sup>2 + 0\<^sup>2 + 0\<^sup>2 + (- 1)\<^sup>2 = 1"
    by (simp_all add: power2_eq_square)
  have s1: "(1::real) = (if 1 * 0 + 0 * 0 + 0 * 0 + 0 * 1 < (0::real) then - 1 else 1)" by simp
  have s2: "(- 1::real) = (if 4 / 5 * (- 1) + 0 * 0 + 0 * 0 + 3 / 5 * 0 < (0::real) then - 1 else 1)"
    by simp
  have e: "(0::real) < 1 / 100" by simp
  have bd: "\<bar>0\<bar> \<le> (2::real) ^ 1022" "\<bar>5\<bar> \<le> (2::real) ^ 1022" "\<bar>19 / 5\<bar> \<le> (2::real) ^ 1022"
    by simp_all
  note a = smoothing_converges [OF u1 u2 s1 bd(1) bd(1) bd(1) bd(2) bd(3) bd(1)]
  note b = smoothing_converges [OF u3 u4 s2 bd(1) bd(1) bd(1) bd(2) bd(3) bd(1)]
  from a [THEN conjunct2, THEN conjunct1, THEN spec, THEN mp, OF e]
    a [THEN conjunct2, THEN conjunct2, THEN conjunct2, THEN spec, THEN mp, OF e]
    b [THEN conjunct2, THEN conjunct2, THEN conjunct2, THEN spec, THEN mp, OF e]
  show ?thesis by (intro conjI)
qed

end
